(* ===== verification/Zond_Prelude.thy ===== *)
theory Zond_Prelude
  imports Main "HOL-Library.Word"
begin

text \<open>
  Shared vocabulary of the development: the Go types the node uses, the result of a Go call
  that may return an error or panic, the conversions between machine integers and
  \<^verbatim>\<open>big.Int\<close>, and the byte, hexadecimal and decimal encodings of the Go standard library that
  the signing payloads and the database keys are built from.
\<close>

section \<open>Types\<close>

type_synonym u8 = "8 word"
type_synonym u16 = "16 word"
type_synonym u32 = "32 word"
type_synonym u64 = "64 word"
type_synonym bytes = "u8 list"

text \<open>
  \<^verbatim>\<open>common.Hash\<close> is a \<open>[32]byte\<close> and \<^verbatim>\<open>common.Address\<close> a \<open>[20]byte\<close>. Both are byte lists here;
  where the width matters it is a named condition on the list.
\<close>

type_synonym Hash = bytes
type_synonym Address = bytes

definition is_hash :: "Hash \<Rightarrow> bool" where
  "is_hash h \<longleftrightarrow> length h = 32"

definition is_address :: "Address \<Rightarrow> bool" where
  "is_address a \<longleftrightarrow> length a = 20"

definition zero_hash :: Hash where
  "zero_hash = replicate 32 0"

definition zero_address :: Address where
  "zero_address = replicate 20 0"

named_theorems outcome_simps \<open>how the result type of a Go call computes\<close>
named_theorems width_simps \<open>lengths of the fixed-width encodings\<close>

section \<open>The result of a Go call\<close>

text \<open>
  A call returns a value, returns a non-nil \<^verbatim>\<open>error\<close>, panics (an explicit \<^verbatim>\<open>panic\<close>, an index
  out of range, a nil dereference), or never returns. The state an operation changes is part of the value; on an
  error the callers of this code drop the state they were building.
\<close>

text \<open>An error is known by its message.\<close>

type_synonym goerr = string

datatype ('e, 'a) outcome = Ok 'a | Err 'e | Panic | Loops

primrec and_then :: "('e, 'a) outcome \<Rightarrow> ('a \<Rightarrow> ('e, 'b) outcome) \<Rightarrow> ('e, 'b) outcome" where
  "and_then (Ok x) f = f x"
| "and_then (Err e) f = Err e"
| "and_then Panic f = Panic"
| "and_then Loops f = Loops"

primrec is_ok :: "('e, 'a) outcome \<Rightarrow> bool" where
  "is_ok (Ok x) = True"
| "is_ok (Err e) = False"
| "is_ok Panic = False"
| "is_ok Loops = False"

definition of_option :: "'e \<Rightarrow> 'a option \<Rightarrow> ('e, 'a) outcome" where
  "of_option e v = (case v of Some x \<Rightarrow> Ok x | None \<Rightarrow> Err e)"

text \<open>A loop with no bound of its own is a partial function in the option monad; \<open>None\<close> is a loop
  that does not end.\<close>

definition runs :: "('e, 'a) outcome option \<Rightarrow> ('e, 'a) outcome" where
  "runs r = (case r of None \<Rightarrow> Loops | Some x \<Rightarrow> x)"

lemma runs_Some [simp]: "runs (Some x) = x"
  by (simp add: runs_def)

text \<open>An index expression \<^verbatim>\<open>xs[i]\<close> panics when \<open>i\<close> is out of range.\<close>

definition index :: "'a list \<Rightarrow> nat \<Rightarrow> ('e, 'a) outcome" where
  "index xs i = (if i < length xs then Ok (xs ! i) else Panic)"

text \<open>A pointer dereference panics on nil.\<close>

definition deref :: "'a option \<Rightarrow> ('e, 'a) outcome" where
  "deref p = (case p of Some x \<Rightarrow> Ok x | None \<Rightarrow> Panic)"

lemma and_then_eq_Ok [outcome_simps]:
  "and_then m f = Ok y \<longleftrightarrow> (\<exists>x. m = Ok x \<and> f x = Ok y)"
  by (cases m) auto

lemma and_then_eq_Err [outcome_simps]:
  "and_then m f = Err e \<longleftrightarrow> m = Err e \<or> (\<exists>x. m = Ok x \<and> f x = Err e)"
  by (cases m) auto

lemma and_then_eq_Panic [outcome_simps]:
  "and_then m f = Panic \<longleftrightarrow> m = Panic \<or> (\<exists>x. m = Ok x \<and> f x = Panic)"
  by (cases m) auto

lemma and_then_eq_Loops [outcome_simps]:
  "and_then m f = Loops \<longleftrightarrow> m = Loops \<or> (\<exists>x. m = Ok x \<and> f x = Loops)"
  by (cases m) auto

lemma index_eq_Ok [outcome_simps]: "index xs i = Ok y \<longleftrightarrow> i < length xs \<and> xs ! i = y"
  by (auto simp: index_def)

lemma index_not_Err [outcome_simps]: "index xs i \<noteq> Err e"
  by (simp add: index_def)

lemma index_not_Loops [outcome_simps]: "index xs i \<noteq> Loops"
  by (simp add: index_def)

lemma deref_eq_Ok [outcome_simps]: "deref p = Ok y \<longleftrightarrow> p = Some y"
  by (auto simp: deref_def split: option.splits)

lemma of_option_eq_Ok [outcome_simps]: "of_option e v = Ok y \<longleftrightarrow> v = Some y"
  by (auto simp: of_option_def split: option.splits)

lemma is_ok_iff: "is_ok m \<longleftrightarrow> (\<exists>x. m = Ok x)"
  by (cases m) auto

lemma and_then_assoc: "and_then (and_then m f) g = and_then m (\<lambda>x. and_then (f x) g)"
  by (cases m) auto

text \<open>A Go loop over a slice that may stop with an error: a left fold in the outcome.\<close>

fun fold_outcome :: "('a \<Rightarrow> 's \<Rightarrow> ('e, 's) outcome) \<Rightarrow> 'a list \<Rightarrow> 's \<Rightarrow> ('e, 's) outcome" where
  "fold_outcome f [] s = Ok s"
| "fold_outcome f (x # xs) s = and_then (f x s) (fold_outcome f xs)"

lemma fold_outcome_append:
  "fold_outcome f (xs @ ys) s = and_then (fold_outcome f xs s) (fold_outcome f ys)"
proof (induction xs arbitrary: s)
  case Nil
  then show ?case by simp
next
  case (Cons x xs)
  then show ?case by (cases "f x s") simp_all
qed

lemma fold_outcome_invariant:
  assumes "fold_outcome f xs s = Ok t" and "I s"
    and "\<And>x s s'. x \<in> set xs \<Longrightarrow> I s \<Longrightarrow> f x s = Ok s' \<Longrightarrow> I s'"
  shows "I t"
  using assms
proof (induction xs arbitrary: s)
  case Nil
  then show ?case by simp
next
  case (Cons x xs)
  from Cons.prems(1) obtain s' where s': "f x s = Ok s'" "fold_outcome f xs s' = Ok t"
    by (auto simp: outcome_simps)
  have "I s'" using Cons.prems(2,3) s'(1) by force
  then show ?case using s'(2) Cons.prems(3) by (auto intro!: Cons.IH [of s'])
qed

section \<open>Machine integers and big integers\<close>

text \<open>
  \<^verbatim>\<open>new(big.Int).SetUint64(x)\<close> reads \<open>x\<close> unsigned; \<^verbatim>\<open>big.NewInt(int64(x))\<close> reads it as two's
  complement, so a value of \<open>2 ^ 63\<close> or more becomes negative; \<^verbatim>\<open>big.Int.Uint64\<close> is the low 64
  bits of the absolute value.
\<close>

definition big_SetUint64 :: "u64 \<Rightarrow> int" where
  "big_SetUint64 x = uint x"

definition big_NewInt_int64 :: "u64 \<Rightarrow> int" where
  "big_NewInt_int64 x = sint x"

definition big_Uint64 :: "int \<Rightarrow> u64" where
  "big_Uint64 x = word_of_int \<bar>x\<bar>"

lemma unat_bound: "unat (w :: 'a::len word) < 2 ^ LENGTH('a)"
  by simp

lemma big_NewInt_small: "unat x < 2 ^ 63 \<Longrightarrow> big_NewInt_int64 x = int (unat x)"
proof -
  assume "unat x < 2 ^ 63"
  then have "int (unat x) < 2 ^ 63"
    by (metis of_nat_less_iff of_nat_numeral of_nat_power)
  then have "uint x < 2 ^ 63" by simp
  moreover have "sint x = signed_take_bit 63 (uint x)"
    by (simp add: sint_uint)
  ultimately have "sint x = uint x"
    using signed_take_bit_int_eq_self [of 63 "uint x"] uint_ge_0 [of x] by simp
  then show ?thesis by (simp add: big_NewInt_int64_def)
qed

lemma big_Uint64_small: "0 \<le> x \<Longrightarrow> x < 2 ^ 64 \<Longrightarrow> uint (big_Uint64 x) = x"
  by (simp add: big_Uint64_def uint_word_of_int)

section \<open>Big-endian bytes\<close>

text \<open>
  \<^verbatim>\<open>binary.Write(buf, binary.BigEndian, x)\<close> of a \<^verbatim>\<open>uint64\<close> appends eight bytes, most significant
  first. \<open>be_nat k n\<close> is the \<open>k\<close>-byte form of \<open>n\<close>, \<open>nat_of_be\<close> reads a byte string back.
\<close>

fun be_nat :: "nat \<Rightarrow> nat \<Rightarrow> bytes" where
  "be_nat 0 n = []"
| "be_nat (Suc k) n = be_nat k (n div 256) @ [of_nat (n mod 256)]"

fun nat_of_be_acc :: "nat \<Rightarrow> bytes \<Rightarrow> nat" where
  "nat_of_be_acc a [] = a"
| "nat_of_be_acc a (b # bs) = nat_of_be_acc (a * 256 + unat b) bs"

definition nat_of_be :: "bytes \<Rightarrow> nat" where
  "nat_of_be bs = nat_of_be_acc 0 bs"

definition be64 :: "u64 \<Rightarrow> bytes" where
  "be64 x = be_nat 8 (unat x)"

definition BigEndian_Uint64 :: "bytes \<Rightarrow> ('e, u64) outcome" where
  "BigEndian_Uint64 bs = (if length bs < 8 then Panic else Ok (of_nat (nat_of_be (take 8 bs))))"

definition BigEndian_Uint32 :: "bytes \<Rightarrow> ('e, u32) outcome" where
  "BigEndian_Uint32 bs = (if length bs < 4 then Panic else Ok (of_nat (nat_of_be (take 4 bs))))"

lemma length_be_nat [simp, width_simps]: "length (be_nat k n) = k"
  by (induction k arbitrary: n) auto

lemma length_be64 [simp, width_simps]: "length (be64 x) = 8"
  by (simp add: be64_def)

lemma nat_of_be_acc_append:
  "nat_of_be_acc a (xs @ ys) = nat_of_be_acc (nat_of_be_acc a xs) ys"
  by (induction xs arbitrary: a) auto

lemma nat_of_be_snoc: "nat_of_be (bs @ [b]) = nat_of_be bs * 256 + unat b"
  by (simp add: nat_of_be_def nat_of_be_acc_append)

lemma unat_byte_of_mod: "unat (of_nat (n mod 256) :: u8) = n mod 256"
  by (simp add: unat_of_nat)

lemma nat_of_be_be_nat: "nat_of_be (be_nat k n) = n mod 256 ^ k"
proof (induction k arbitrary: n)
  case 0
  then show ?case by (simp add: nat_of_be_def)
next
  case (Suc k)
  have "nat_of_be (be_nat (Suc k) n) = (n div 256) mod 256 ^ k * 256 + n mod 256"
    by (simp add: nat_of_be_snoc Suc.IH unat_of_nat)
  also have "\<dots> = n mod (256 * 256 ^ k)"
    by (simp add: mod_mult2_eq)
  finally show ?case by simp
qed

lemma be_nat_nat_of_be: "length bs = k \<Longrightarrow> be_nat k (nat_of_be bs) = bs"
proof (induction k arbitrary: bs)
  case 0
  then show ?case by simp
next
  case (Suc k)
  then obtain cs c where bs: "bs = cs @ [c]" "length cs = k"
    by (metis append_butlast_last_id length_append_singleton length_greater_0_conv
        nat.inject zero_less_Suc)
  have c: "unat c < 256" using unat_bound [of c] by simp
  have "(nat_of_be cs * 256 + unat c) div 256 = nat_of_be cs" using c by simp
  moreover have "(nat_of_be cs * 256 + unat c) mod 256 = unat c" using c by simp
  ultimately show ?case using bs Suc.IH [of cs] by (simp add: nat_of_be_snoc)
qed

lemma nat_of_be_be64: "nat_of_be (be64 x) = unat x"
proof -
  have "unat x < 256 ^ 8" using unat_bound [of x] by simp
  then show ?thesis by (simp add: be64_def nat_of_be_be_nat)
qed

lemma be64_inject [simp]: "be64 x = be64 y \<longleftrightarrow> x = y"
  by (metis nat_of_be_be64 word_unat_eq_iff)

lemma BigEndian_Uint64_be64: "BigEndian_Uint64 (be64 x @ rest) = Ok x"
  by (simp add: BigEndian_Uint64_def nat_of_be_be64)

lemma append_same_width:
  "length xs = length ys \<Longrightarrow> xs @ us = ys @ vs \<longleftrightarrow> xs = ys \<and> us = vs"
  by simp

lemma be64_append_inject [simp]: "be64 x @ us = be64 y @ vs \<longleftrightarrow> x = y \<and> us = vs"
  by (simp add: append_same_width)

section \<open>Fixed-size arrays\<close>

text \<open>\<^verbatim>\<open>copy(arr[:], b)\<close> into a zeroed array of \<open>n\<close> bytes: the first \<open>n\<close> bytes of \<open>b\<close>,
  padded on the right.\<close>

definition copy_array :: "nat \<Rightarrow> bytes \<Rightarrow> bytes" where
  "copy_array n b = take n b @ replicate (n - length b) 0"

lemma length_copy_array [simp, width_simps]: "length (copy_array n b) = n"
  by (simp add: copy_array_def)

lemma copy_array_id [simp]: "length b = n \<Longrightarrow> copy_array n b = b"
  by (simp add: copy_array_def)

section \<open>Hexadecimal\<close>

text \<open>\<^verbatim>\<open>hex.EncodeToString\<close> writes two lower-case digits a byte; \<^verbatim>\<open>hex.DecodeString\<close> accepts both
  cases, and fails on an odd length or a character that is no digit.\<close>

definition hex_digit :: "nat \<Rightarrow> char" where
  "hex_digit n = (if n < 10 then char_of (48 + n) else char_of (87 + n))"

definition hex_value :: "char \<Rightarrow> nat option" where
  "hex_value c =
     (let n = of_char c in
      if 48 \<le> n \<and> n \<le> 57 then Some (n - 48)
      else if 97 \<le> n \<and> n \<le> 102 then Some (n - 87)
      else if 65 \<le> n \<and> n \<le> 70 then Some (n - 55)
      else None)"

fun hex_EncodeToString :: "bytes \<Rightarrow> string" where
  "hex_EncodeToString [] = []"
| "hex_EncodeToString (b # bs) =
     hex_digit (unat b div 16) # hex_digit (unat b mod 16) # hex_EncodeToString bs"

fun hex_DecodeString :: "string \<Rightarrow> bytes option" where
  "hex_DecodeString [] = Some []"
| "hex_DecodeString [c] = None"
| "hex_DecodeString (c # d # cs) =
     (case hex_value c of None \<Rightarrow> None | Some h \<Rightarrow>
       (case hex_value d of None \<Rightarrow> None | Some l \<Rightarrow>
         (case hex_DecodeString cs of None \<Rightarrow> None
          | Some bs \<Rightarrow> Some (of_nat (16 * h + l) # bs))))"

lemma hex_value_digit: "n < 16 \<Longrightarrow> hex_value (hex_digit n) = Some n"
  by (auto simp: hex_value_def hex_digit_def Let_def)

lemma byte_halves: "(of_nat (16 * (unat b div 16) + unat b mod 16) :: u8) = b"
proof -
  have "16 * (unat b div 16) + unat b mod 16 = unat b" by simp
  then show ?thesis by (metis of_nat_unat unsigned_of_nat ucast_id word_of_nat_eq_iff)
qed

lemma hex_roundtrip: "hex_DecodeString (hex_EncodeToString bs) = Some bs"
proof (induction bs)
  case Nil
  then show ?case by simp
next
  case (Cons b bs)
  have "unat b div 16 < 16" using unat_bound [of b] by simp
  then show ?case
    using Cons.IH byte_halves [of b] by (simp add: hex_value_digit)
qed

lemma hex_inject [simp]: "hex_EncodeToString a = hex_EncodeToString b \<longleftrightarrow> a = b"
  by (metis hex_roundtrip option.inject)

lemma length_hex [width_simps]: "length (hex_EncodeToString bs) = 2 * length bs"
  by (induction bs) auto

section \<open>Decimal\<close>

text \<open>\<^verbatim>\<open>strconv.FormatUint(n, 10)\<close>, \<^verbatim>\<open>%d\<close> and \<^verbatim>\<open>big.Int.MarshalText\<close> all write plain decimal.\<close>

definition dec_digit :: "nat \<Rightarrow> char" where
  "dec_digit n = char_of (48 + n)"

function dec_nat :: "nat \<Rightarrow> string" where
  "dec_nat n = (if n < 10 then [dec_digit n] else dec_nat (n div 10) @ [dec_digit (n mod 10)])"
  by pat_completeness auto
termination
  by (relation "measure id") auto

declare dec_nat.simps [simp del]

definition is_digit :: "char \<Rightarrow> bool" where
  "is_digit c \<longleftrightarrow> (48::nat) \<le> of_char c \<and> of_char c \<le> (57::nat)"

definition dec_value :: "string \<Rightarrow> nat" where
  "dec_value cs = foldl (\<lambda>a c. a * 10 + (of_char c - 48)) 0 cs"

lemma dec_value_snoc: "dec_value (cs @ [c]) = dec_value cs * 10 + (of_char c - 48)"
  by (simp add: dec_value_def)

lemma of_char_dec_digit: "n < 10 \<Longrightarrow> of_char (dec_digit n) = 48 + n"
  by (simp add: dec_digit_def)

lemma dec_value_dec_nat: "dec_value (dec_nat n) = n"
proof (induction n rule: dec_nat.induct)
  case (1 n)
  show ?case
  proof (cases "n < 10")
    case True
    then show ?thesis
      by (simp add: dec_nat.simps [of n] dec_value_def of_char_dec_digit)
  next
    case False
    then have "dec_value (dec_nat n) = n div 10 * 10 + n mod 10"
      using 1 by (simp add: dec_nat.simps [of n] dec_value_snoc of_char_dec_digit)
    then show ?thesis by simp
  qed
qed

lemma dec_nat_inject [simp]: "dec_nat m = dec_nat n \<longleftrightarrow> m = n"
  by (metis dec_value_dec_nat)

lemma dec_nat_digits: "c \<in> set (dec_nat n) \<Longrightarrow> is_digit c"
proof (induction n rule: dec_nat.induct)
  case (1 n)
  then show ?case
    by (cases "n < 10")
      (auto simp: dec_nat.simps [of n] is_digit_def of_char_dec_digit)
qed

lemma dec_nat_nonempty [simp]: "dec_nat n \<noteq> []"
  by (subst dec_nat.simps) simp

definition format_u64 :: "u64 \<Rightarrow> string" where
  "format_u64 n = dec_nat (unat n)"

lemma format_u64_inject [simp]: "format_u64 m = format_u64 n \<longleftrightarrow> m = n"
  by (simp add: format_u64_def word_unat_eq_iff)

lemma format_u64_digits: "c \<in> set (format_u64 n) \<Longrightarrow> is_digit c"
  by (simp add: format_u64_def dec_nat_digits)

text \<open>
  \<^verbatim>\<open>big.Int.MarshalText\<close> and \<^verbatim>\<open>UnmarshalText\<close> on the texts that \<^verbatim>\<open>MarshalText\<close> writes: an optional
  minus sign and decimal digits. Any other text is an error here.
\<close>

definition big_MarshalText :: "int \<Rightarrow> string" where
  "big_MarshalText z = (if z < 0 then CHR ''-'' # dec_nat (nat (- z)) else dec_nat (nat z))"

definition big_UnmarshalText :: "string \<Rightarrow> int option" where
  "big_UnmarshalText cs =
     (case cs of [] \<Rightarrow> None
      | c # ds \<Rightarrow>
          if c = CHR ''-'' then
            (if ds \<noteq> [] \<and> list_all is_digit ds then Some (- int (dec_value ds)) else None)
          else if list_all is_digit cs then Some (int (dec_value cs)) else None)"

lemma minus_not_digit: "\<not> is_digit (CHR ''-'')"
  by (simp add: is_digit_def)

lemma big_text_roundtrip: "big_UnmarshalText (big_MarshalText z) = Some z"
proof (cases "z < 0")
  case True
  then show ?thesis
    by (auto simp: big_MarshalText_def big_UnmarshalText_def dec_value_dec_nat list_all_iff
        dest: dec_nat_digits)
next
  case False
  obtain c ds where cd: "dec_nat (nat z) = c # ds"
    using dec_nat_nonempty [of "nat z"] by (cases "dec_nat (nat z)") auto
  then have "c \<noteq> CHR ''-''"
    using dec_nat_digits [of c "nat z"] minus_not_digit by auto
  moreover have "list_all is_digit (c # ds)"
    using cd dec_nat_digits [of _ "nat z"] by (auto simp: list_all_iff)
  moreover have "dec_value (c # ds) = nat z"
    using cd dec_value_dec_nat by metis
  ultimately show ?thesis
    using False cd by (simp add: big_MarshalText_def big_UnmarshalText_def)
qed

section \<open>Lists\<close>

text \<open>\<^verbatim>\<open>append(xs[:i], xs[i+1:]...)\<close>\<close>

definition remove_at :: "nat \<Rightarrow> 'a list \<Rightarrow> 'a list" where
  "remove_at i xs = take i xs @ drop (Suc i) xs"

text \<open>The first index that satisfies a test, as a range loop with a break finds it.\<close>

fun find_index :: "('a \<Rightarrow> bool) \<Rightarrow> 'a list \<Rightarrow> nat option" where
  "find_index P [] = None"
| "find_index P (x # xs) = (if P x then Some 0 else map_option Suc (find_index P xs))"

lemma find_index_None: "find_index P xs = None \<longleftrightarrow> (\<forall>x\<in>set xs. \<not> P x)"
  by (induction xs) auto

lemma find_index_Some:
  "find_index P xs = Some i \<Longrightarrow> i < length xs \<and> P (xs ! i) \<and> (\<forall>j<i. \<not> P (xs ! j))"
proof (induction xs arbitrary: i)
  case Nil
  then show ?case by simp
next
  case (Cons x xs)
  then show ?case
    by (auto split: if_splits simp: less_Suc_eq_0_disj)
qed

lemma set_remove_at_subset: "set (remove_at i xs) \<subseteq> set xs"
  by (auto simp: remove_at_def dest: in_set_takeD in_set_dropD)

lemma length_remove_at: "i < length xs \<Longrightarrow> length (remove_at i xs) = length xs - 1"
  by (simp add: remove_at_def)

lemma distinct_remove_at: "distinct (map f xs) \<Longrightarrow> distinct (map f (remove_at i xs))"
proof -
  assume "distinct (map f xs)"
  then have "distinct (take i (map f xs) @ drop (Suc i) (map f xs))"
    by (metis Suc_n_not_le_n distinct_append distinct_drop distinct_take linorder_linear
        set_take_disj_set_drop_if_distinct)
  then show ?thesis by (simp add: remove_at_def take_map drop_map)
qed

lemma set_remove_at_distinct:
  assumes "distinct xs" and "i < length xs"
  shows "set (remove_at i xs) = set xs - {xs ! i}"
proof -
  have xs: "xs = take i xs @ xs ! i # drop (Suc i) xs"
    using assms(2) by (rule id_take_nth_drop)
  then have "distinct (take i xs @ xs ! i # drop (Suc i) xs)" using assms(1) by metis
  moreover have "set xs = set (take i xs @ xs ! i # drop (Suc i) xs)"
    using xs by metis
  ultimately show ?thesis by (auto simp: remove_at_def)
qed

lemma sum_list_remove_at:
  fixes f :: "'a \<Rightarrow> 'b::comm_monoid_add"
  assumes "i < length xs"
  shows "sum_list (map f xs) = f (xs ! i) + sum_list (map f (remove_at i xs))"
proof -
  have "xs = take i xs @ xs ! i # drop (Suc i) xs"
    using assms by (rule id_take_nth_drop)
  then have "sum_list (map f xs) = sum_list (map f (take i xs @ xs ! i # drop (Suc i) xs))"
    by metis
  then show ?thesis by (simp add: remove_at_def ac_simps)
qed

end
