(* ===== verification/Zond_Common.thy ===== *)
theory Zond_Common
  imports Zond_Prelude
begin

text \<open>
  The byte, address and key helpers of \<^verbatim>\<open>common/bytes.go\<close>, \<^verbatim>\<open>common/types.go\<close> and
  \<^verbatim>\<open>misc/helper.go\<close>, the constants of \<^verbatim>\<open>config/config.go\<close>, and the cryptographic libraries the
  node calls. The libraries (go-qrllib's XMSS and Dilithium, SHA-256, Keccak, MD5) are the
  fields of one record, a parameter of every definition that uses them.
\<close>

section \<open>The cryptographic libraries\<close>

record Crypto =
  sha256 :: "bytes \<Rightarrow> bytes"
  keccak256 :: "bytes \<Rightarrow> bytes"
  md5 :: "bytes \<Rightarrow> bytes"
  xmss_ExtendedPKSize :: nat
  dilithium_PKSizePacked :: nat
  xmss_GetXMSSAddressFromPK :: "bytes \<Rightarrow> bytes"
  dilithium_GetDilithiumAddressFromPK :: "bytes \<Rightarrow> bytes"
  xmss_IsValidXMSSAddress :: "Address \<Rightarrow> bool"
  dilithium_IsValidDilithiumAddress :: "Address \<Rightarrow> bool"
  xmss_Verify :: "bytes \<Rightarrow> bytes \<Rightarrow> bytes \<Rightarrow> bool"
  dilithium_Verify :: "bytes \<Rightarrow> bytes \<Rightarrow> bytes \<Rightarrow> bool"

text \<open>
  What the code relies on: digests and addresses have their documented widths, and the two
  public-key formats have different, non-zero sizes, so the size of a key tells its scheme.
\<close>

definition crypto_widths :: "Crypto \<Rightarrow> bool" where
  "crypto_widths C \<longleftrightarrow>
     (\<forall>b. length (sha256 C b) = 32) \<and> (\<forall>b. length (keccak256 C b) = 32) \<and>
     (\<forall>b. length (md5 C b) = 16) \<and>
     (\<forall>b. length (xmss_GetXMSSAddressFromPK C b) = 20) \<and>
     (\<forall>b. length (dilithium_GetDilithiumAddressFromPK C b) = 20) \<and>
     xmss_ExtendedPKSize C \<noteq> dilithium_PKSizePacked C \<and>
     0 < xmss_ExtendedPKSize C \<and> 0 < dilithium_PKSizePacked C"

text \<open>A concrete instance, on which the witnesses evaluate: digests are padded prefixes and keys
  have three (XMSS) or four (Dilithium) bytes; a signature is valid when it ends in the key.\<close>

definition witness_crypto :: Crypto where
  "witness_crypto =
     \<lparr>sha256 = copy_array 32, keccak256 = copy_array 32, md5 = copy_array 16,
      xmss_ExtendedPKSize = 3, dilithium_PKSizePacked = 4,
      xmss_GetXMSSAddressFromPK = copy_array 20,
      dilithium_GetDilithiumAddressFromPK = copy_array 20,
      xmss_IsValidXMSSAddress = (\<lambda>a. a \<noteq> [] \<and> hd a < 16),
      dilithium_IsValidDilithiumAddress = (\<lambda>a. a \<noteq> [] \<and> hd a \<ge> 16),
      xmss_Verify = (\<lambda>m s pk. drop 4 s = pk),
      dilithium_Verify = (\<lambda>m s pk. drop 4 s = pk)\<rparr>"

lemma crypto_widths_witness: "crypto_widths witness_crypto"
  by (simp add: crypto_widths_def witness_crypto_def)

section \<open>The configuration\<close>

text \<open>The developer configuration, and of the user configuration the limits of the transaction
  pool. Every definition that reads the configuration takes it as an argument.\<close>

record GenesisConfig =
  GenesisPrevHeaderHash :: Hash
  MaxCoinSupply :: u64
  SuppliedCoins :: u64
  GenesisDifficulty :: u64
  CoinBaseAddress :: Address
  FoundationDilithiumAddress :: Address
  GenesisTimestamp :: u64

record DevConfig =
  ChainID :: int
  Genesis :: GenesisConfig
  ProtocolID :: string
  Version :: string
  BlocksPerEpoch :: u64
  BlockLeadTimestamp :: u32
  BlockMaxDrift :: u16
  BlockGasLimit :: u64
  MaxFutureBlockLength :: u16
  MaxMarginBlockNumber :: u16
  MinMarginBlockNumber :: u16
  ReorgLimit :: u64
  MessageQSize :: u32
  MessageReceiptTimeout :: u32
  MessageBufferSize :: u32
  OTSBitFieldPerPage :: u64
  DefaultNonce :: u8
  DefaultAccountBalance :: u64
  BlockTime :: u64
  DBName :: string
  DB2Name :: string
  DB2FreezerName :: string
  PeersFilename :: string
  WalletDatFilename :: string
  BannedPeersFilename :: string
  MultiOutputLimit :: u8
  NumberOfBlockAnalyze :: u8
  SizeMultiplier :: "nat \<times> nat"
  BlockMinSizeLimit :: int
  TxExtraOverhead :: int
  ShorPerQuanta :: u64
  MaxReceivableBytes :: u64
  ReservedQuota :: u64
  MaxBytesOut :: u64
  BlockTimeSeriesSize :: u32
  RecordTransactionHashes :: bool
  StakeAmount :: u64

record TransactionPoolConfig =
  TransactionPoolSize :: u64
  PendingTransactionPoolSize :: u64
  PendingTransactionPoolReserve :: u64
  StaleTransactionThreshold :: u64

definition bytes_of_string :: "string \<Rightarrow> bytes" where
  "bytes_of_string s = map of_char s"

definition GetGenesisConfig :: GenesisConfig where
  "GetGenesisConfig =
     \<lparr>GenesisPrevHeaderHash = copy_array 32 (bytes_of_string ''Outside Context Problem''),
      MaxCoinSupply = 105000000000000000,
      SuppliedCoins = 65000000000000000,
      GenesisDifficulty = 10000000,
      CoinBaseAddress = replicate 20 0,
      FoundationDilithiumAddress =
        [0x20, 0xb8, 0x64, 0x43, 0x84, 0x90, 0x21, 0x24, 0x49, 0x43,
         0xca, 0xc2, 0x33, 0xc1, 0xed, 0x6f, 0x76, 0x37, 0x0f, 0xd7],
      GenesisTimestamp = 1663120306\<rparr>"

text \<open>The size multiplier 1.1 is the pair of its numerator and denominator.\<close>

definition GetDevConfig :: DevConfig where
  "GetDevConfig =
     \<lparr>ChainID = 0, Genesis = GetGenesisConfig, ProtocolID = ''/zond/0.0.1'',
      Version = ''0.0.1 go'', BlocksPerEpoch = 100, BlockLeadTimestamp = 30, BlockMaxDrift = 15,
      BlockGasLimit = 100000000, MaxFutureBlockLength = 256, MaxMarginBlockNumber = 32,
      MinMarginBlockNumber = 7, ReorgLimit = 22000, MessageQSize = 300,
      MessageReceiptTimeout = 10, MessageBufferSize = 64 * 1024 * 1024,
      OTSBitFieldPerPage = 1024, DefaultNonce = 0, DefaultAccountBalance = 0, BlockTime = 60,
      DBName = ''state'', DB2Name = ''state2'', DB2FreezerName = ''ancient'',
      PeersFilename = ''peers.json'', WalletDatFilename = ''wallet.json'',
      BannedPeersFilename = ''banned_peers'', MultiOutputLimit = 100, NumberOfBlockAnalyze = 10,
      SizeMultiplier = (11, 10), BlockMinSizeLimit = 1024 * 1024, TxExtraOverhead = 15,
      ShorPerQuanta = 1000000000, MaxReceivableBytes = 10 * 1024 * 1024, ReservedQuota = 1024,
      MaxBytesOut = 10 * 1024 * 1024 - 1024, BlockTimeSeriesSize = 1440,
      RecordTransactionHashes = False, StakeAmount = 10000 * 1000000000\<rparr>"

definition user_TransactionPool :: TransactionPoolConfig where
  "user_TransactionPool =
     \<lparr>TransactionPoolSize = 25000, PendingTransactionPoolSize = 75000,
      PendingTransactionPoolReserve = 750, StaleTransactionThreshold = 15\<rparr>"

section \<open>common/bytes.go\<close>

definition has0xPrefix :: "string \<Rightarrow> bool" where
  "has0xPrefix str \<longleftrightarrow>
     length str \<ge> 2 \<and> str ! 0 = CHR ''0'' \<and> (str ! 1 = CHR ''x'' \<or> str ! 1 = CHR ''X'')"

definition isHexCharacter :: "char \<Rightarrow> bool" where
  "isHexCharacter c \<longleftrightarrow>
     (let n = of_char c :: nat in (48 \<le> n \<and> n \<le> 57) \<or> (97 \<le> n \<and> n \<le> 102) \<or> (65 \<le> n \<and> n \<le> 70))"

definition isHex :: "string \<Rightarrow> bool" where
  "isHex str \<longleftrightarrow> length str mod 2 = 0 \<and> list_all isHexCharacter str"

definition Bytes2Hex :: "bytes \<Rightarrow> string" where
  "Bytes2Hex d = hex_EncodeToString d"

text \<open>The error of \<^verbatim>\<open>hex.DecodeString\<close> is dropped; on an error Go still returns the bytes decoded
  before the offending pair.\<close>

fun hex_decode_prefix :: "string \<Rightarrow> bytes" where
  "hex_decode_prefix (c # d # cs) =
     (case hex_value c of None \<Rightarrow> [] | Some h \<Rightarrow>
       (case hex_value d of None \<Rightarrow> []
        | Some l \<Rightarrow> of_nat (16 * h + l) # hex_decode_prefix cs))"
| "hex_decode_prefix cs = []"

definition Hex2Bytes :: "string \<Rightarrow> bytes" where
  "Hex2Bytes str = hex_decode_prefix str"

definition FromHex :: "string \<Rightarrow> bytes" where
  "FromHex s =
     (let s1 = (if has0xPrefix s then drop 2 s else s);
          s2 = (if length s1 mod 2 = 1 then CHR ''0'' # s1 else s1)
      in Hex2Bytes s2)"

definition Hex2BytesFixed :: "string \<Rightarrow> nat \<Rightarrow> bytes" where
  "Hex2BytesFixed str flen =
     (let h = hex_decode_prefix str in
      if length h = flen then h
      else if length h > flen then drop (length h - flen) h
      else replicate (flen - length h) 0 @ h)"

definition RightPadBytes :: "bytes \<Rightarrow> nat \<Rightarrow> bytes" where
  "RightPadBytes sl l =
     (if l \<le> length sl then sl else sl @ replicate (l - length sl) 0)"

definition LeftPadBytes :: "bytes \<Rightarrow> nat \<Rightarrow> bytes" where
  "LeftPadBytes sl l =
     (if l \<le> length sl then sl else replicate (l - length sl) 0 @ sl)"

fun TrimLeftZeroes :: "bytes \<Rightarrow> bytes" where
  "TrimLeftZeroes [] = []"
| "TrimLeftZeroes (b # s) = (if b \<noteq> 0 then b # s else TrimLeftZeroes s)"

definition TrimRightZeroes :: "bytes \<Rightarrow> bytes" where
  "TrimRightZeroes s = rev (TrimLeftZeroes (rev s))"

section \<open>common/types.go\<close>

definition Hash_SetBytes :: "bytes \<Rightarrow> Hash" where
  "Hash_SetBytes b =
     (let b1 = (if length b > 32 then drop (length b - 32) b else b)
      in replicate (32 - length b1) 0 @ b1)"

definition BytesToHash :: "bytes \<Rightarrow> Hash" where
  "BytesToHash b = Hash_SetBytes b"

definition HexToHash :: "string \<Rightarrow> Hash" where
  "HexToHash s = BytesToHash (FromHex s)"

definition Hash_IsEmpty :: "Hash \<Rightarrow> bool" where
  "Hash_IsEmpty h \<longleftrightarrow> h = zero_hash"

text \<open>\<^verbatim>\<open>Hash.Format\<close> with the verbs \<open>s\<close> and \<open>v\<close>.\<close>

definition Hash_Format_s :: "Hash \<Rightarrow> string" where
  "Hash_Format_s h = ''0x'' @ hex_EncodeToString h"

definition Address_SetBytes :: "bytes \<Rightarrow> Address" where
  "Address_SetBytes b =
     (let b1 = (if length b > 20 then drop (length b - 20) b else b)
      in replicate (20 - length b1) 0 @ b1)"

definition BytesToAddress :: "bytes \<Rightarrow> Address" where
  "BytesToAddress b = Address_SetBytes b"

definition HexToAddress :: "string \<Rightarrow> Address" where
  "HexToAddress s = BytesToAddress (FromHex s)"

definition IsHexAddress :: "string \<Rightarrow> bool" where
  "IsHexAddress s =
     (let s1 = (if has0xPrefix s then drop 2 s else s)
      in length s1 = 2 * 20 \<and> isHex s1)"

definition Address_hex :: "Address \<Rightarrow> string" where
  "Address_hex a = ''0x'' @ hex_EncodeToString a"

lemma length_Hash_SetBytes [simp, width_simps]: "length (Hash_SetBytes b) = 32"
  by (simp add: Hash_SetBytes_def Let_def)

lemma length_BytesToHash [simp, width_simps]: "length (BytesToHash b) = 32"
  by (simp add: BytesToHash_def)

lemma BytesToHash_id [simp]: "length b = 32 \<Longrightarrow> BytesToHash b = b"
  by (simp add: BytesToHash_def Hash_SetBytes_def)

lemma length_BytesToAddress [simp, width_simps]: "length (BytesToAddress b) = 20"
  by (simp add: BytesToAddress_def Address_SetBytes_def Let_def)

lemma BytesToAddress_id [simp]: "length b = 20 \<Longrightarrow> BytesToAddress b = b"
  by (simp add: BytesToAddress_def Address_SetBytes_def)

lemma length_zero_hash [simp, width_simps]: "length zero_hash = 32"
  by (simp add: zero_hash_def)

lemma TrimLeftZeroes_pad: "\<exists>k. b = replicate k 0 @ TrimLeftZeroes b"
proof (induction b)
  case Nil
  then show ?case by simp
next
  case (Cons x b)
  then obtain k where k: "b = replicate k 0 @ TrimLeftZeroes b" by blast
  show ?case
  proof (cases "x = 0")
    case True
    then have "x # b = replicate (Suc k) 0 @ TrimLeftZeroes (x # b)" using k by simp
    then show ?thesis by blast
  next
    case False
    then have "x # b = replicate 0 0 @ TrimLeftZeroes (x # b)" by simp
    then show ?thesis by blast
  qed
qed

lemma length_TrimLeftZeroes: "length (TrimLeftZeroes b) \<le> length b"
  by (induction b) auto

lemma LeftPad_TrimLeft: "LeftPadBytes (TrimLeftZeroes b) (length b) = b"
proof -
  obtain k where k: "b = replicate k 0 @ TrimLeftZeroes b"
    using TrimLeftZeroes_pad by blast
  then have len: "length b = k + length (TrimLeftZeroes b)"
    by (metis length_append length_replicate)
  show ?thesis
  proof (cases "k = 0")
    case True
    then show ?thesis using k len by (simp add: LeftPadBytes_def)
  next
    case False
    then have "LeftPadBytes (TrimLeftZeroes b) (length b) = replicate k 0 @ TrimLeftZeroes b"
      using len by (simp add: LeftPadBytes_def)
    then show ?thesis using k by simp
  qed
qed

lemma BytesToHash_LeftPad: "length b \<le> 32 \<Longrightarrow> BytesToHash b = LeftPadBytes b 32"
  by (simp add: BytesToHash_def Hash_SetBytes_def LeftPadBytes_def Let_def)

lemma Hash_trim_roundtrip: "length h = 32 \<Longrightarrow> BytesToHash (TrimLeftZeroes h) = h"
  using length_TrimLeftZeroes [of h] LeftPad_TrimLeft [of h]
  by (simp add: BytesToHash_LeftPad)

section \<open>misc/helper.go\<close>

definition ConvertBytesToLong :: "bytes \<Rightarrow> ('e, u32) outcome" where
  "ConvertBytesToLong b = BigEndian_Uint32 b"

definition ClearPrefix0x :: "string \<Rightarrow> string" where
  "ClearPrefix0x data = (if take 2 data = ''0x'' then drop 2 data else data)"

definition BytesToHexStr :: "bytes \<Rightarrow> string" where
  "BytesToHexStr data = ''0x'' @ hex_EncodeToString data"

definition HexStrToBytes :: "string \<Rightarrow> bytes option" where
  "HexStrToBytes data = hex_DecodeString (ClearPrefix0x data)"

definition Bin2Addresses :: "bytes list \<Rightarrow> string list" where
  "Bin2Addresses binAddresses = map BytesToHexStr binAddresses"

fun StringAddressToBytesArray :: "string list \<Rightarrow> bytes list option" where
  "StringAddressToBytesArray [] = Some []"
| "StringAddressToBytesArray (a # addrs) =
     (case HexStrToBytes a of None \<Rightarrow> None
      | Some b \<Rightarrow> map_option ((#) b) (StringAddressToBytesArray addrs))"

definition UnSizedXMSSPKToSizedPK :: "Crypto \<Rightarrow> bytes \<Rightarrow> bytes" where
  "UnSizedXMSSPKToSizedPK C pk = copy_array (xmss_ExtendedPKSize C) pk"

definition UnSizedDilithiumPKToSizedPK :: "Crypto \<Rightarrow> bytes \<Rightarrow> bytes" where
  "UnSizedDilithiumPKToSizedPK C pk = copy_array (dilithium_PKSizePacked C) pk"

definition UnSizedAddressToSizedAddress :: "bytes \<Rightarrow> Address" where
  "UnSizedAddressToSizedAddress addr = copy_array 20 addr"

definition GetDilithiumAddressFromUnSizedPK :: "Crypto \<Rightarrow> bytes \<Rightarrow> Address" where
  "GetDilithiumAddressFromUnSizedPK C pk =
     copy_array 20 (dilithium_GetDilithiumAddressFromPK C (UnSizedDilithiumPKToSizedPK C pk))"

definition GetXMSSAddressFromUnSizedPK :: "Crypto \<Rightarrow> bytes \<Rightarrow> Address" where
  "GetXMSSAddressFromUnSizedPK C pk =
     copy_array 20 (xmss_GetXMSSAddressFromPK C (UnSizedXMSSPKToSizedPK C pk))"

definition GetAddressFromUnSizedPK :: "Crypto \<Rightarrow> bytes \<Rightarrow> Address" where
  "GetAddressFromUnSizedPK C pk =
     (if length pk = xmss_ExtendedPKSize C then GetXMSSAddressFromUnSizedPK C pk
      else if length pk = dilithium_PKSizePacked C then GetDilithiumAddressFromUnSizedPK C pk
      else zero_address)"

text \<open>
  \<^verbatim>\<open>height := (addr[1] & 0xf) << 1\<close> is at most 30, \<^verbatim>\<open>2 << height\<close> is computed on \<^verbatim>\<open>int\<close>, and the
  rounded-up quotient by 8 is exact on these powers of two.
\<close>

definition GetMaxOTSBitfieldSizeFromAddress :: "Address \<Rightarrow> ('e, nat) outcome" where
  "GetMaxOTSBitfieldSizeFromAddress addr =
     and_then (index addr 1) (\<lambda>a1.
       let height = (unat a1 mod 16) * 2; maxOTS = 2 * 2 ^ height
       in Ok ((maxOTS + 7) div 8))"

definition GetOTSIndexFromSignature :: "bytes \<Rightarrow> ('e, u64) outcome" where
  "GetOTSIndexFromSignature signature =
     and_then (BigEndian_Uint32 signature) (\<lambda>w. Ok (ucast w))"

text \<open>A bitfield row is a \<open>[8]byte\<close>, one byte a flag.\<close>

definition IsUsedOTSIndex :: "u64 \<Rightarrow> bytes list \<Rightarrow> bool" where
  "IsUsedOTSIndex otsIndex otsBitfield =
     (let offset = unat otsIndex div 8 in
      if otsBitfield = [] then False
      else if offset \<ge> length otsBitfield then True
      else otsBitfield ! offset ! (unat otsIndex mod 8) = 1)"

text \<open>\<open>MerkleTXHash\<close>: one round pairs the layer up, an odd last entry moves up unchanged; the code
  runs \<open>\<lceil>log\<^sub>2 n\<rceil>\<close> rounds and returns the last entry of the last layer.\<close>

fun merkle_layer :: "(bytes \<Rightarrow> bytes) \<Rightarrow> bytes list \<Rightarrow> bytes list" where
  "merkle_layer sha [] = []"
| "merkle_layer sha [x] = [x]"
| "merkle_layer sha (x # y # xs) = sha (x @ y) # merkle_layer sha xs"

fun ceil_log2_from :: "nat \<Rightarrow> nat \<Rightarrow> nat \<Rightarrow> nat" where
  "ceil_log2_from n k 0 = k"
| "ceil_log2_from n k (Suc f) = (if n \<le> 2 ^ k then k else ceil_log2_from n (Suc k) f)"

definition ceil_log2 :: "nat \<Rightarrow> nat" where
  "ceil_log2 n = ceil_log2_from n 0 n"

definition MerkleTXHash :: "Crypto \<Rightarrow> bytes list \<Rightarrow> ('e, bytes) outcome" where
  "MerkleTXHash C hashes =
     (if hashes = [] then Panic
      else Ok (last ((merkle_layer (sha256 C) ^^ ceil_log2 (length hashes)) hashes)))"

lemma BytesToHexStr_inject [simp]: "BytesToHexStr a = BytesToHexStr b \<longleftrightarrow> a = b"
  by (simp add: BytesToHexStr_def)

lemma HexStr_roundtrip: "HexStrToBytes (BytesToHexStr b) = Some b"
  by (simp add: HexStrToBytes_def ClearPrefix0x_def BytesToHexStr_def hex_roundtrip)

lemma length_GetAddressFromUnSizedPK [simp, width_simps]:
  "length (GetAddressFromUnSizedPK C pk) = 20"
  by (simp add: GetAddressFromUnSizedPK_def GetXMSSAddressFromUnSizedPK_def
      GetDilithiumAddressFromUnSizedPK_def zero_address_def)

lemma length_GetDilithiumAddress [simp, width_simps]:
  "length (GetDilithiumAddressFromUnSizedPK C pk) = 20"
  by (simp add: GetDilithiumAddressFromUnSizedPK_def)

lemma length_merkle_layer: "length (merkle_layer sha xs) = (length xs + 1) div 2"
  by (induction sha xs rule: merkle_layer.induct) auto

lemma length_merkle_layers: "n \<le> 2 ^ k \<Longrightarrow> 0 < n \<Longrightarrow> length xs = n \<Longrightarrow>
  length ((merkle_layer sha ^^ k) xs) = 1"
proof (induction k arbitrary: xs n)
  case 0
  then show ?case by simp
next
  case (Suc k)
  have "length (merkle_layer sha xs) \<le> 2 ^ k"
    using Suc.prems by (simp add: length_merkle_layer)
  moreover have "0 < length (merkle_layer sha xs)"
    using Suc.prems by (simp add: length_merkle_layer)
  ultimately have "length ((merkle_layer sha ^^ k) (merkle_layer sha xs)) = 1"
    using Suc.IH by blast
  then show ?case by (simp only: funpow_Suc_right comp_apply)
qed

lemma ceil_log2_from_ge: "n \<le> 2 ^ (k + f) \<Longrightarrow> n \<le> 2 ^ ceil_log2_from n k f"
proof (induction f arbitrary: k)
  case 0
  then show ?case by simp
next
  case (Suc f)
  then show ?case using Suc.IH [of "Suc k"] by auto
qed

lemma ceil_log2_ge: "n \<le> 2 ^ ceil_log2 n"
proof -
  have "n \<le> 2 ^ n" using less_exp [of n] by simp
  then show ?thesis unfolding ceil_log2_def by (intro ceil_log2_from_ge) simp
qed

lemma merkle_single_root:
  assumes "hashes \<noteq> []"
  shows "\<exists>r. (merkle_layer sha ^^ ceil_log2 (length hashes)) hashes = [r]"
proof -
  have "length ((merkle_layer sha ^^ ceil_log2 (length hashes)) hashes) = 1"
    using assms by (intro length_merkle_layers [of "length hashes"] ceil_log2_ge) auto
  then show ?thesis by (metis One_nat_def length_0_conv length_Suc_conv)
qed

end
