(* ===== verification/Zond_Transactions.thy ===== *)
theory Zond_Transactions
  imports Zond_Common
begin

text \<open>
  The transaction kinds of \<^verbatim>\<open>transactions/*.go\<close>: the protobuf messages they wrap, their accessors,
  the byte strings that are hashed and signed, signing, and the constructors. A transaction whose
  \<^verbatim>\<open>oneof\<close> is unset is a message with no payload; the conversions panic on it where the Go code
  does.
\<close>

section \<open>Messages\<close>

datatype TxType = TypeCoinBase | TypeAttest | TypeTransfer | TypeStake

datatype tx_payload =
    Stake_payload (stake_amount: u64)
  | Transfer_payload (transfer_to: bytes) (transfer_value: u64) (transfer_data: bytes)

record Transaction =
  tx_ChainId :: u64
  tx_Nonce :: u64
  tx_Pk :: bytes
  tx_Signature :: bytes
  tx_Gas :: u64
  tx_GasPrice :: u64
  tx_HashField :: bytes
  tx_Type :: "tx_payload option"

datatype ptx_payload =
    CoinBase_payload (block_proposer_reward: u64) (attestor_reward: u64) (fee_reward: u64)
  | Attest_payload

record ProtocolTransaction =
  ptx_ChainId :: u64
  ptx_Nonce :: u64
  ptx_Pk :: bytes
  ptx_Signature :: bytes
  ptx_HashField :: bytes
  ptx_Type :: "ptx_payload option"

definition GetTransactionType :: "Transaction \<Rightarrow> ('e, TxType) outcome" where
  "GetTransactionType protoTX =
     (case tx_Type protoTX of
        Some (Transfer_payload to v d) \<Rightarrow> Ok TypeTransfer
      | Some (Stake_payload a) \<Rightarrow> Ok TypeStake
      | None \<Rightarrow> Panic)"

definition GetProtocolTransactionType :: "ProtocolTransaction \<Rightarrow> ('e, TxType) outcome" where
  "GetProtocolTransactionType protoTX =
     (case ptx_Type protoTX of
        Some (CoinBase_payload b a f) \<Rightarrow> Ok TypeCoinBase
      | Some Attest_payload \<Rightarrow> Ok TypeAttest
      | None \<Rightarrow> Panic)"

text \<open>The Go conversion returns a nil interface for an unset payload.\<close>

definition ProtoToTransaction :: "Transaction \<Rightarrow> Transaction option" where
  "ProtoToTransaction protoTX = (case tx_Type protoTX of Some _ \<Rightarrow> Some protoTX | None \<Rightarrow> None)"

definition ProtoToProtocolTransaction :: "ProtocolTransaction \<Rightarrow> ProtocolTransaction option" where
  "ProtoToProtocolTransaction protoTX =
     (case ptx_Type protoTX of Some _ \<Rightarrow> Some protoTX | None \<Rightarrow> None)"

definition StakeTransactionFromPBData :: "Transaction \<Rightarrow> ('e, Transaction) outcome" where
  "StakeTransactionFromPBData pbData =
     (case tx_Type pbData of Some (Stake_payload a) \<Rightarrow> Ok pbData | _ \<Rightarrow> Panic)"

definition TransferTransactionFromPBData :: "Transaction \<Rightarrow> ('e, Transaction) outcome" where
  "TransferTransactionFromPBData pbData =
     (case tx_Type pbData of Some (Transfer_payload to v d) \<Rightarrow> Ok pbData | _ \<Rightarrow> Panic)"

definition CoinBaseTransactionFromPBData ::
    "ProtocolTransaction \<Rightarrow> ('e, ProtocolTransaction) outcome" where
  "CoinBaseTransactionFromPBData pbData =
     (case ptx_Type pbData of Some (CoinBase_payload b a f) \<Rightarrow> Ok pbData | _ \<Rightarrow> Panic)"

definition AttestTransactionFromPBData ::
    "ProtocolTransaction \<Rightarrow> ('e, ProtocolTransaction) outcome" where
  "AttestTransactionFromPBData pbData =
     (case ptx_Type pbData of Some Attest_payload \<Rightarrow> Ok pbData | _ \<Rightarrow> Panic)"

section \<open>transactions/transaction.go\<close>

definition tx_Hash :: "Transaction \<Rightarrow> Hash" where
  "tx_Hash tx = BytesToHash (tx_HashField tx)"

definition AddrFrom :: "Crypto \<Rightarrow> Transaction \<Rightarrow> ('e, Address) outcome" where
  "AddrFrom C tx =
     (let addr = GetAddressFromUnSizedPK C (tx_Pk tx)
      in if addr = zero_address then Panic else Ok addr)"

definition AddrFromPK :: "Crypto \<Rightarrow> Transaction \<Rightarrow> ('e, string) outcome" where
  "AddrFromPK C tx =
     (if length (tx_Pk tx) = xmss_ExtendedPKSize C
      then Ok (BytesToHexStr (GetXMSSAddressFromUnSizedPK C (tx_Pk tx)))
      else if length (tx_Pk tx) = dilithium_PKSizePacked C
      then Ok (BytesToHexStr (GetDilithiumAddressFromUnSizedPK C (tx_Pk tx)))
      else Panic)"

definition OTSIndex :: "Transaction \<Rightarrow> ('e, u64) outcome" where
  "OTSIndex tx = and_then (BigEndian_Uint32 (tx_Signature tx)) (\<lambda>w. Ok (ucast w))"

definition GetSlave :: "Crypto \<Rightarrow> Transaction \<Rightarrow> ('e, Address option) outcome" where
  "GetSlave C tx =
     (let address = GetXMSSAddressFromUnSizedPK C (tx_Pk tx)
      in and_then (AddrFrom C tx) (\<lambda>from. Ok (if address \<noteq> from then Some address else None)))"

definition generateTxHash :: "Crypto \<Rightarrow> Transaction \<Rightarrow> Hash \<Rightarrow> Hash" where
  "generateTxHash C tx signingHash =
     copy_array 32 (sha256 C (signingHash @ tx_Signature tx @ tx_Pk tx))"

text \<open>\<^verbatim>\<open>SignXMSS\<close> and \<^verbatim>\<open>SignDilithium\<close> store the signature of the signing hash and the hash over it.
  The signature is the library's; signing with a used-up XMSS tree panics (\<open>None\<close>).\<close>

definition SignXMSS :: "Crypto \<Rightarrow> (bytes \<Rightarrow> bytes option) \<Rightarrow> Transaction \<Rightarrow> Hash
    \<Rightarrow> ('e, Transaction) outcome" where
  "SignXMSS C sign tx signingHash =
     (case sign signingHash of None \<Rightarrow> Panic
      | Some signature \<Rightarrow>
          let tx1 = tx\<lparr>tx_Signature := signature\<rparr>
          in Ok (tx1\<lparr>tx_HashField := generateTxHash C tx1 signingHash\<rparr>))"

definition SignDilithium :: "Crypto \<Rightarrow> (bytes \<Rightarrow> bytes) \<Rightarrow> Transaction \<Rightarrow> Hash \<Rightarrow> Transaction" where
  "SignDilithium C sign tx signingHash =
     (let tx1 = tx\<lparr>tx_Signature := sign signingHash\<rparr>
      in tx1\<lparr>tx_HashField := generateTxHash C tx1 signingHash\<rparr>)"

section \<open>transactions/stake.go and transactions/transfer.go\<close>

definition Stake_signing_bytes :: "Transaction \<Rightarrow> u64 \<Rightarrow> bytes" where
  "Stake_signing_bytes tx amount =
     be64 (tx_ChainId tx) @ be64 (tx_Nonce tx) @ be64 (tx_Gas tx) @ be64 (tx_GasPrice tx)
       @ be64 amount"

definition Stake_GetSigningHash :: "Crypto \<Rightarrow> Transaction \<Rightarrow> u64 \<Rightarrow> Hash" where
  "Stake_GetSigningHash C tx amount = BytesToHash (sha256 C (Stake_signing_bytes tx amount))"

definition NewStake :: "u64 \<Rightarrow> u64 \<Rightarrow> u64 \<Rightarrow> u64 \<Rightarrow> u64 \<Rightarrow> bytes \<Rightarrow> Transaction" where
  "NewStake chainID amount gas gasPrice nonce dilithiumPK =
     \<lparr>tx_ChainId = chainID, tx_Nonce = nonce, tx_Pk = dilithiumPK, tx_Signature = [],
      tx_Gas = gas, tx_GasPrice = gasPrice, tx_HashField = [],
      tx_Type = Some (Stake_payload amount)\<rparr>"

definition Transfer_To :: "bytes \<Rightarrow> Address option" where
  "Transfer_To to = (if length to = 0 then None else Some (UnSizedAddressToSizedAddress to))"

definition Transfer_signing_bytes :: "Transaction \<Rightarrow> bytes \<Rightarrow> u64 \<Rightarrow> bytes \<Rightarrow> bytes" where
  "Transfer_signing_bytes tx to v d =
     be64 (tx_ChainId tx) @ be64 (tx_Nonce tx) @ be64 (tx_Gas tx) @ be64 (tx_GasPrice tx)
       @ (case Transfer_To to of Some a \<Rightarrow> a | None \<Rightarrow> []) @ be64 v @ d"

definition Transfer_GetSigningHash :: "Crypto \<Rightarrow> Transaction \<Rightarrow> bytes \<Rightarrow> u64 \<Rightarrow> bytes \<Rightarrow> Hash" where
  "Transfer_GetSigningHash C tx to v d = BytesToHash (sha256 C (Transfer_signing_bytes tx to v d))"

definition NewTransfer ::
    "u64 \<Rightarrow> bytes \<Rightarrow> u64 \<Rightarrow> u64 \<Rightarrow> u64 \<Rightarrow> bytes \<Rightarrow> u64 \<Rightarrow> bytes \<Rightarrow> Transaction" where
  "NewTransfer chainID to v gas gasPrice d nonce pk =
     \<lparr>tx_ChainId = chainID, tx_Nonce = nonce, tx_Pk = pk, tx_Signature = [],
      tx_Gas = gas, tx_GasPrice = gasPrice, tx_HashField = [],
      tx_Type = Some (Transfer_payload to v d)\<rparr>"

text \<open>The interface methods \<^verbatim>\<open>GetSigningHash\<close> and \<^verbatim>\<open>GenerateTxHash\<close>, dispatched on the payload; the
  embedded \<^verbatim>\<open>Transaction.GetSigningHash\<close> panics.\<close>

definition GetSigningHash :: "Crypto \<Rightarrow> Transaction \<Rightarrow> ('e, Hash) outcome" where
  "GetSigningHash C tx =
     (case tx_Type tx of
        Some (Stake_payload a) \<Rightarrow> Ok (Stake_GetSigningHash C tx a)
      | Some (Transfer_payload to v d) \<Rightarrow> Ok (Transfer_GetSigningHash C tx to v d)
      | None \<Rightarrow> Panic)"

definition GenerateTxHash :: "Crypto \<Rightarrow> Transaction \<Rightarrow> ('e, Hash) outcome" where
  "GenerateTxHash C tx = and_then (GetSigningHash C tx) (\<lambda>h. Ok (generateTxHash C tx h))"

section \<open>transactions/protocol.go, coinbase.go and attest.go\<close>

definition ptx_Hash :: "ProtocolTransaction \<Rightarrow> Hash" where
  "ptx_Hash tx = BytesToHash (ptx_HashField tx)"

definition ptx_TxHash :: "Crypto \<Rightarrow> ProtocolTransaction \<Rightarrow> Hash \<Rightarrow> Hash" where
  "ptx_TxHash C tx hashableBytes =
     copy_array 32 (sha256 C (hashableBytes @ ptx_Signature tx @ ptx_Pk tx))"

definition ptx_GenerateUnSignedTxHash :: "Crypto \<Rightarrow> ProtocolTransaction \<Rightarrow> bytes \<Rightarrow> bytes" where
  "ptx_GenerateUnSignedTxHash C tx hashableBytes = sha256 C (hashableBytes @ ptx_Pk tx)"

text \<open>\<^verbatim>\<open>Sign\<close> with a Dilithium key: \<open>sign\<close> and \<open>pk\<close> are the library's.\<close>

definition ptx_Sign :: "Crypto \<Rightarrow> (bytes \<Rightarrow> bytes) \<Rightarrow> bytes \<Rightarrow> ProtocolTransaction \<Rightarrow> bytes
    \<Rightarrow> ProtocolTransaction" where
  "ptx_Sign C sign pk tx message =
     (let tx1 = tx\<lparr>ptx_Signature := sign message, ptx_Pk := pk\<rparr>
      in tx1\<lparr>ptx_HashField := ptx_TxHash C tx1 (BytesToHash message)\<rparr>)"

definition BlockProposerReward :: "ProtocolTransaction \<Rightarrow> u64" where
  "BlockProposerReward tx =
     (case ptx_Type tx of Some (CoinBase_payload b a f) \<Rightarrow> b | _ \<Rightarrow> 0)"

definition AttestorReward :: "ProtocolTransaction \<Rightarrow> u64" where
  "AttestorReward tx =
     (case ptx_Type tx of Some (CoinBase_payload b a f) \<Rightarrow> a | _ \<Rightarrow> 0)"

text \<open>\<^verbatim>\<open>GetCoinBase().FeeReward\<close> reads the field of the message directly, a nil dereference when the
  payload is no coinbase.\<close>

definition FeeReward :: "ProtocolTransaction \<Rightarrow> ('e, u64) outcome" where
  "FeeReward tx = (case ptx_Type tx of Some (CoinBase_payload b a f) \<Rightarrow> Ok f | _ \<Rightarrow> Panic)"

definition TotalRewardExceptFeeReward :: "ProtocolTransaction \<Rightarrow> u64 \<Rightarrow> u64" where
  "TotalRewardExceptFeeReward tx numberOfAttestors =
     BlockProposerReward tx + AttestorReward tx * numberOfAttestors"

definition CoinBase_unsigned_bytes :: "ProtocolTransaction \<Rightarrow> bytes" where
  "CoinBase_unsigned_bytes tx =
     be64 (ptx_ChainId tx) @ be64 (ptx_Nonce tx) @ ptx_Pk tx
       @ be64 (BlockProposerReward tx) @ be64 (AttestorReward tx)"

definition CoinBase_GetSigningHash :: "Crypto \<Rightarrow> ProtocolTransaction \<Rightarrow> Hash \<Rightarrow> Hash" where
  "CoinBase_GetSigningHash C tx blockSigningHash =
     copy_array 32 (sha256 C (blockSigningHash @ CoinBase_unsigned_bytes tx))"

definition CoinBase_GetUnsignedHash :: "Crypto \<Rightarrow> ProtocolTransaction \<Rightarrow> Hash" where
  "CoinBase_GetUnsignedHash C tx = copy_array 32 (sha256 C (CoinBase_unsigned_bytes tx))"

definition NewCoinBase :: "u64 \<Rightarrow> bytes \<Rightarrow> u64 \<Rightarrow> u64 \<Rightarrow> u64 \<Rightarrow> u64 \<Rightarrow> ProtocolTransaction" where
  "NewCoinBase chainId pk blockProposerReward attReward feeReward nonce =
     \<lparr>ptx_ChainId = chainId, ptx_Nonce = nonce, ptx_Pk = pk, ptx_Signature = [],
      ptx_HashField = [],
      ptx_Type = Some (CoinBase_payload blockProposerReward attReward feeReward)\<rparr>"

definition Attest_GetSigningHash :: "Crypto \<Rightarrow> ProtocolTransaction \<Rightarrow> Hash \<Rightarrow> Hash" where
  "Attest_GetSigningHash C tx partialBlockSigningHash =
     copy_array 32
       (sha256 C (partialBlockSigningHash @ be64 (ptx_ChainId tx) @ be64 (ptx_Nonce tx)))"

definition NewAttest :: "u64 \<Rightarrow> u64 \<Rightarrow> ProtocolTransaction" where
  "NewAttest chainID nonce =
     \<lparr>ptx_ChainId = chainID, ptx_Nonce = nonce, ptx_Pk = [], ptx_Signature = [],
      ptx_HashField = [], ptx_Type = Some Attest_payload\<rparr>"

text \<open>The interface methods on a protocol transaction; \<^verbatim>\<open>Attest\<close> inherits the panicking
  \<^verbatim>\<open>GetUnsignedHash\<close>.\<close>

definition ptx_GetSigningHash :: "Crypto \<Rightarrow> ProtocolTransaction \<Rightarrow> Hash \<Rightarrow> ('e, Hash) outcome" where
  "ptx_GetSigningHash C tx h =
     (case ptx_Type tx of
        Some (CoinBase_payload b a f) \<Rightarrow> Ok (CoinBase_GetSigningHash C tx h)
      | Some Attest_payload \<Rightarrow> Ok (Attest_GetSigningHash C tx h)
      | None \<Rightarrow> Panic)"

definition ptx_GetUnsignedHash :: "Crypto \<Rightarrow> ProtocolTransaction \<Rightarrow> ('e, Hash) outcome" where
  "ptx_GetUnsignedHash C tx =
     (case ptx_Type tx of
        Some (CoinBase_payload b a f) \<Rightarrow> Ok (CoinBase_GetUnsignedHash C tx)
      | _ \<Rightarrow> Panic)"

section \<open>What the signed bytes determine\<close>

lemma length_Transfer_To: "Transfer_To to = Some a \<Longrightarrow> length a = 20"
  by (auto simp: Transfer_To_def UnSizedAddressToSizedAddress_def split: if_splits)

lemma Stake_signing_bytes_inject:
  "Stake_signing_bytes tx a = Stake_signing_bytes tx' a' \<longleftrightarrow>
     tx_ChainId tx = tx_ChainId tx' \<and> tx_Nonce tx = tx_Nonce tx' \<and> tx_Gas tx = tx_Gas tx' \<and>
     tx_GasPrice tx = tx_GasPrice tx' \<and> a = a'"
  by (simp add: Stake_signing_bytes_def)

lemma Transfer_signing_bytes_inject:
  assumes "Transfer_To to = None \<longleftrightarrow> Transfer_To to' = None"
  shows "Transfer_signing_bytes tx to v d = Transfer_signing_bytes tx' to' v' d' \<longleftrightarrow>
     tx_ChainId tx = tx_ChainId tx' \<and> tx_Nonce tx = tx_Nonce tx' \<and> tx_Gas tx = tx_Gas tx' \<and>
     tx_GasPrice tx = tx_GasPrice tx' \<and> Transfer_To to = Transfer_To to' \<and> v = v' \<and> d = d'"
proof (cases "Transfer_To to")
  case None
  with assms show ?thesis by (auto simp: Transfer_signing_bytes_def)
next
  case (Some a)
  with assms obtain a' where a': "Transfer_To to' = Some a'" by auto
  have "length a = length a'" using Some a' by (simp add: length_Transfer_To)
  then show ?thesis using Some a' by (auto simp: Transfer_signing_bytes_def)
qed

lemma Transfer_creation_bytes:
  "Transfer_signing_bytes tx [] v d =
     be64 (tx_ChainId tx) @ be64 (tx_Nonce tx) @ be64 (tx_Gas tx) @ be64 (tx_GasPrice tx)
       @ be64 v @ d"
  by (simp add: Transfer_signing_bytes_def Transfer_To_def)

lemma CoinBase_unsigned_bytes_inject:
  assumes "length (ptx_Pk tx) = length (ptx_Pk tx')"
  shows "CoinBase_unsigned_bytes tx = CoinBase_unsigned_bytes tx' \<longleftrightarrow>
     ptx_ChainId tx = ptx_ChainId tx' \<and> ptx_Nonce tx = ptx_Nonce tx' \<and> ptx_Pk tx = ptx_Pk tx' \<and>
     BlockProposerReward tx = BlockProposerReward tx' \<and> AttestorReward tx = AttestorReward tx'"
  using assms by (auto simp: CoinBase_unsigned_bytes_def)

end
