(* ===== verification/Zond_Pool.thy ===== *)
theory Zond_Pool
  imports Zond_Transactions
begin

text \<open>
  The transaction pool of \<^verbatim>\<open>transactions/pool/*.go\<close>: the queue of \<^verbatim>\<open>txpoolpriorityqueue.go\<close>, the
  entries of \<^verbatim>\<open>transactioninfo.go\<close> and the pool of \<^verbatim>\<open>transaction.go\<close> with its nonce table. The
  mutex serialises the pool's operations, so one operation is one step.
\<close>

datatype pool_error = ErrPoolFull | ErrTxExists | ErrOTSKeyReused

section \<open>transactioninfo.go\<close>

record TransactionInfo =
  ti_tx :: Transaction
  ti_txHash :: Hash
  ti_blockNumber :: u64
  ti_timestamp :: u64
  ti_index :: int
  ti_priority :: u64

definition CreateTransactionInfo :: "Transaction \<Rightarrow> Hash \<Rightarrow> u64 \<Rightarrow> u64 \<Rightarrow> TransactionInfo" where
  "CreateTransactionInfo tx txHash blockNumber timestamp =
     \<lparr>ti_tx = tx, ti_txHash = txHash, ti_blockNumber = blockNumber, ti_timestamp = timestamp,
      ti_index = 0, ti_priority = 0\<rparr>"

definition CheckOTSExist :: "TransactionInfo \<Rightarrow> Transaction \<Rightarrow> ('e, bool) outcome" where
  "CheckOTSExist t tx2 =
     and_then (OTSIndex (ti_tx t)) (\<lambda>i. and_then (OTSIndex tx2) (\<lambda>j. Ok (i = j)))"

definition UpdateBlockNumber :: "u64 \<Rightarrow> TransactionInfo \<Rightarrow> TransactionInfo" where
  "UpdateBlockNumber currentBlockHeight t = t\<lparr>ti_blockNumber := currentBlockHeight\<rparr>"

definition IsStale :: "TransactionPoolConfig \<Rightarrow> u64 \<Rightarrow> TransactionInfo \<Rightarrow> bool \<times> TransactionInfo" where
  "IsStale ucfg currentBlockHeight t =
     (if currentBlockHeight > ti_blockNumber t + StaleTransactionThreshold ucfg then (True, t)
      else if currentBlockHeight < ti_blockNumber t
      then (False, UpdateBlockNumber currentBlockHeight t)
      else (False, t))"

section \<open>txpoolpriorityqueue.go\<close>

type_synonym PriorityQueue = "TransactionInfo list"

definition pq_Full :: "TransactionPoolConfig \<Rightarrow> PriorityQueue \<Rightarrow> bool" where
  "pq_Full ucfg pq \<longleftrightarrow> (of_nat (length pq) :: u64) > TransactionPoolSize ucfg"

definition pq_Less :: "PriorityQueue \<Rightarrow> nat \<Rightarrow> nat \<Rightarrow> ('e, bool) outcome" where
  "pq_Less pq i j =
     and_then (index pq i) (\<lambda>a. and_then (index pq j) (\<lambda>b. Ok (ti_priority a > ti_priority b)))"

definition pq_Swap :: "PriorityQueue \<Rightarrow> nat \<Rightarrow> nat \<Rightarrow> ('e, PriorityQueue) outcome" where
  "pq_Swap pq i j =
     and_then (index pq i) (\<lambda>a. and_then (index pq j) (\<lambda>b.
       Ok (pq[i := b\<lparr>ti_index := int i\<rparr>, j := a\<lparr>ti_index := int j\<rparr>])))"

text \<open>The loop of \<^verbatim>\<open>Push\<close>: stop at the first entry with the same hash, or, when the sender is an
  XMSS address, with the same key and the same one-time-signature index.\<close>

fun push_scan :: "bool \<Rightarrow> TransactionInfo \<Rightarrow> PriorityQueue \<Rightarrow> (pool_error, unit) outcome" where
  "push_scan isValidXMSS newTi [] = Ok ()"
| "push_scan isValidXMSS newTi (ti # pq) =
     (if ti_txHash ti = ti_txHash newTi then Err ErrTxExists
      else if isValidXMSS \<and> tx_Pk (ti_tx ti) = tx_Pk (ti_tx newTi)
      then and_then (CheckOTSExist ti (ti_tx newTi)) (\<lambda>same.
             if same then Err ErrOTSKeyReused else push_scan isValidXMSS newTi pq)
      else push_scan isValidXMSS newTi pq)"

definition pq_Push :: "Crypto \<Rightarrow> TransactionInfo \<Rightarrow> PriorityQueue
    \<Rightarrow> (pool_error, PriorityQueue) outcome" where
  "pq_Push C newTi pq =
     and_then (AddrFrom C (ti_tx newTi)) (\<lambda>from.
     and_then (push_scan (xmss_IsValidXMSSAddress C from) newTi pq) (\<lambda>_.
       Ok (pq @ [newTi\<lparr>ti_index := int (length pq)\<rparr>])))"

definition pq_Pop :: "PriorityQueue \<Rightarrow> TransactionInfo option \<times> PriorityQueue" where
  "pq_Pop pq =
     (if length pq = 0 then (None, pq)
      else (Some ((last pq)\<lparr>ti_index := -1\<rparr>), butlast pq))"

definition pq_removeByIndex :: "nat \<Rightarrow> PriorityQueue \<Rightarrow> PriorityQueue" where
  "pq_removeByIndex i pq = remove_at i pq"

definition pq_Remove :: "Hash \<Rightarrow> PriorityQueue \<Rightarrow> bool \<times> PriorityQueue" where
  "pq_Remove txHash pq =
     (case find_index (\<lambda>ti. ti_txHash ti = txHash) pq of
        Some i \<Rightarrow> (True, pq_removeByIndex i pq)
      | None \<Rightarrow> (False, pq))"

text \<open>The argument is \<^verbatim>\<open>block.Transactions()\<close>; a message with no payload is a nil interface, whose
  \<^verbatim>\<open>Hash()\<close> panics.\<close>

fun pq_RemoveTxInBlock :: "Transaction list \<Rightarrow> PriorityQueue \<Rightarrow> (pool_error, PriorityQueue) outcome"
  where
  "pq_RemoveTxInBlock [] pq = Ok pq"
| "pq_RemoveTxInBlock (protoTX # txs) pq =
     and_then (deref (ProtoToTransaction protoTX)) (\<lambda>tx.
       pq_RemoveTxInBlock txs (snd (pq_Remove (tx_Hash tx) pq)))"

definition pq_Contains :: "TransactionInfo \<Rightarrow> PriorityQueue \<Rightarrow> bool" where
  "pq_Contains newTI pq \<longleftrightarrow> list_ex (\<lambda>ti. ti_txHash ti = ti_txHash newTI) pq"

section \<open>transaction.go\<close>

record TransactionPool =
  txPool :: PriorityQueue
  pool_nonce :: "Address \<Rightarrow> u64 option"

definition CreateTransactionPool :: TransactionPool where
  "CreateTransactionPool = \<lparr>txPool = [], pool_nonce = Map.empty\<rparr>"

definition pool_IsFull :: "TransactionPoolConfig \<Rightarrow> TransactionPool \<Rightarrow> bool" where
  "pool_IsFull ucfg t = pq_Full ucfg (txPool t)"

definition pool_Contains :: "TransactionInfo \<Rightarrow> TransactionPool \<Rightarrow> bool" where
  "pool_Contains tx t = pq_Contains tx (txPool t)"

definition DeleteNonceData :: "Crypto \<Rightarrow> bytes \<Rightarrow> u64 \<Rightarrow> TransactionPool \<Rightarrow> TransactionPool" where
  "DeleteNonceData C pk nonce t =
     (let address = GetAddressFromUnSizedPK C pk in
      if pool_nonce t address = Some nonce
      then t\<lparr>pool_nonce := (pool_nonce t)(address := None)\<rparr>
      else t)"

definition AddNonceData :: "Crypto \<Rightarrow> bytes \<Rightarrow> u64 \<Rightarrow> TransactionPool \<Rightarrow> TransactionPool" where
  "AddNonceData C pk nonce t =
     (let address = GetAddressFromUnSizedPK C pk in
      case pool_nonce t address of
        None \<Rightarrow> t\<lparr>pool_nonce := (pool_nonce t)(address \<mapsto> nonce)\<rparr>
      | Some currentNonce \<Rightarrow>
          if nonce > currentNonce
          then t\<lparr>pool_nonce := (pool_nonce t)(address \<mapsto> nonce)\<rparr>
          else t)"


text \<open>\<open>now\<close> is \<^verbatim>\<open>t.ntp.Time()\<close>.\<close>

definition pool_Add :: "Crypto \<Rightarrow> TransactionPoolConfig \<Rightarrow> u64 \<Rightarrow> Transaction \<Rightarrow> Hash \<Rightarrow> u64 \<Rightarrow> u64
    \<Rightarrow> TransactionPool \<Rightarrow> (pool_error, TransactionPool) outcome" where
  "pool_Add C ucfg now tx txHash slotNumber timestamp t =
     (if pool_IsFull ucfg t then Err ErrPoolFull
      else
        let ts = (if timestamp = 0 then now else timestamp);
            ti = CreateTransactionInfo tx txHash slotNumber ts
        in and_then (pq_Push C ti (txPool t)) (\<lambda>pq.
             Ok (AddNonceData C (tx_Pk tx) (tx_Nonce tx) (t\<lparr>txPool := pq\<rparr>))))"

definition pool_Pop :: "Crypto \<Rightarrow> TransactionPool \<Rightarrow> TransactionInfo option \<times> TransactionPool" where
  "pool_Pop C t =
     (case pq_Pop (txPool t) of
        (None, pq) \<Rightarrow> (None, t\<lparr>txPool := pq\<rparr>)
      | (Some ti, pq) \<Rightarrow>
          (Some ti, DeleteNonceData C (tx_Pk (ti_tx ti)) (tx_Nonce (ti_tx ti)) (t\<lparr>txPool := pq\<rparr>)))"

definition pool_Remove :: "Crypto \<Rightarrow> Transaction \<Rightarrow> Hash \<Rightarrow> TransactionPool
    \<Rightarrow> bool \<times> TransactionPool" where
  "pool_Remove C tx txHash t =
     (case pq_Remove txHash (txPool t) of
        (True, pq) \<Rightarrow> (True, t\<lparr>txPool := pq\<rparr>)
      | (False, pq) \<Rightarrow> (False, DeleteNonceData C (tx_Pk tx) (tx_Nonce tx) (t\<lparr>txPool := pq\<rparr>)))"

definition pool_RemoveTxInBlock :: "Crypto \<Rightarrow> Transaction list \<Rightarrow> TransactionPool
    \<Rightarrow> (pool_error, TransactionPool) outcome" where
  "pool_RemoveTxInBlock C txs t =
     and_then (pq_RemoveTxInBlock txs (txPool t)) (\<lambda>pq.
       Ok (fold (\<lambda>protoTX. DeleteNonceData C (tx_Pk protoTX) (tx_Nonce protoTX)) txs
             (t\<lparr>txPool := pq\<rparr>)))"

text \<open>\<^verbatim>\<open>AddTxFromBlock\<close> stops at the first error; what was added before it stays in the pool, so the
  result carries the pool and the error.\<close>

fun AddTxFromBlock :: "Crypto \<Rightarrow> TransactionPoolConfig \<Rightarrow> u64 \<Rightarrow> u64 \<Rightarrow> Transaction list \<Rightarrow> TransactionPool
    \<Rightarrow> (pool_error, TransactionPool \<times> pool_error option) outcome" where
  "AddTxFromBlock C ucfg now height [] t = Ok (t, None)"
| "AddTxFromBlock C ucfg now height (protoTX # txs) t =
     and_then (deref (ProtoToTransaction protoTX)) (\<lambda>tx.
       case pool_Add C ucfg now tx (tx_Hash tx) height now t of
         Ok t1 \<Rightarrow> AddTxFromBlock C ucfg now height txs
                    (AddNonceData C (tx_Pk tx) (tx_Nonce tx) t1)
       | Err e \<Rightarrow> Ok (t, Some e)
       | Panic \<Rightarrow> Panic
       | Loops \<Rightarrow> Loops)"

section \<open>The contract of the queue\<close>

text \<open>
  What the pool relies on: a successful push appends one entry whose key is new and which does
  not clash with a stored one, a pop or a remove only drops entries. Under these laws the keys
  stay distinct and the entries stay pairwise compatible.
\<close>

locale tx_queue =
  fixes key :: "'i \<Rightarrow> 'k"
    and clash :: "'i \<Rightarrow> 'i \<Rightarrow> bool"
    and push :: "'i \<Rightarrow> 'i list \<Rightarrow> ('e, 'i list) outcome"
    and pop :: "'i list \<Rightarrow> 'i option \<times> 'i list"
    and remove :: "'k \<Rightarrow> 'i list \<Rightarrow> bool \<times> 'i list"
  assumes push_appends: "push x q = Ok q' \<Longrightarrow> \<exists>y. q' = q @ [y] \<and> key y = key x \<and>
      (\<forall>z. clash z y = clash z x) \<and> (\<forall>z. clash y z = clash x z)"
    and push_fresh: "push x q = Ok q' \<Longrightarrow> key x \<notin> key ` set q"
    and push_compatible: "push x q = Ok q' \<Longrightarrow> z \<in> set q \<Longrightarrow> \<not> clash z x"
    and pop_drops: "snd (pop q) = butlast q"
    and remove_drops: "snd (remove k q) = q \<or> (\<exists>i<length q. snd (remove k q) = remove_at i q)"
    and remove_gone: "distinct (map key q) \<Longrightarrow> k \<notin> key ` set (snd (remove k q))"
begin

definition well_formed :: "'i list \<Rightarrow> bool" where
  "well_formed q \<longleftrightarrow> distinct (map key q) \<and> sorted_wrt (\<lambda>a b. \<not> clash a b) q"

lemma well_formed_empty: "well_formed []"
  by (simp add: well_formed_def)

lemma well_formed_push:
  assumes "well_formed q" and "push x q = Ok q'"
  shows "well_formed q'"
proof -
  obtain y where y: "q' = q @ [y]" "key y = key x" "\<forall>z. clash z y = clash z x"
    using push_appends [OF assms(2)] by blast
  have "key y \<notin> key ` set q" using push_fresh [OF assms(2)] y by simp
  moreover have "\<forall>z\<in>set q. \<not> clash z y" using push_compatible [OF assms(2)] y by simp
  ultimately show ?thesis using assms(1) y(1) by (simp add: well_formed_def sorted_wrt_append)
qed

lemma sorted_wrt_remove_at: "sorted_wrt R q \<Longrightarrow> sorted_wrt R (remove_at i q)"
proof -
  assume "sorted_wrt R q"
  then have R: "\<forall>j k. j < k \<and> k < length q \<longrightarrow> R (q ! j) (q ! k)"
    by (simp add: sorted_wrt_iff_nth_less)
  show ?thesis
  proof (cases "i < length q")
    case True
    then have "q = take i q @ q ! i # drop (Suc i) q" by (rule id_take_nth_drop)
    then have "sorted_wrt R (take i q @ q ! i # drop (Suc i) q)"
      using \<open>sorted_wrt R q\<close> by metis
    then show ?thesis by (simp add: remove_at_def sorted_wrt_append)
  next
    case False
    then show ?thesis using \<open>sorted_wrt R q\<close> by (simp add: remove_at_def)
  qed
qed

lemma well_formed_remove: "well_formed q \<Longrightarrow> well_formed (snd (remove k q))"
  using remove_drops [of k q] sorted_wrt_remove_at distinct_remove_at
  unfolding well_formed_def by metis

lemma well_formed_pop: "well_formed q \<Longrightarrow> well_formed (snd (pop q))"
  unfolding pop_drops well_formed_def
  by (cases q rule: rev_cases) (auto simp: sorted_wrt_append)

end

text \<open>Two entries clash when they spend the same one-time-signature index of one XMSS key.\<close>

definition ots_clash :: "Crypto \<Rightarrow> TransactionInfo \<Rightarrow> TransactionInfo \<Rightarrow> bool" where
  "ots_clash C a b \<longleftrightarrow>
     xmss_IsValidXMSSAddress C (GetAddressFromUnSizedPK C (tx_Pk (ti_tx b))) \<and>
     tx_Pk (ti_tx a) = tx_Pk (ti_tx b) \<and>
     (\<exists>i. (OTSIndex (ti_tx a) :: (pool_error, u64) outcome) = Ok i \<and>
          (OTSIndex (ti_tx b) :: (pool_error, u64) outcome) = Ok i)"

lemma push_scan_Ok:
  assumes "push_scan x new pq = Ok ()"
  shows "\<forall>z\<in>set pq. ti_txHash z \<noteq> ti_txHash new \<and>
    (x \<and> tx_Pk (ti_tx z) = tx_Pk (ti_tx new) \<longrightarrow>
       CheckOTSExist z (ti_tx new) = (Ok False :: (pool_error, bool) outcome))"
  using assms
proof (induction pq)
  case Nil
  then show ?case by simp
next
  case (Cons a pq)
  then show ?case
    by (auto split: if_splits simp: outcome_simps)
qed

lemma AddrFrom_Ok: "AddrFrom C tx = Ok a \<Longrightarrow> a = GetAddressFromUnSizedPK C (tx_Pk tx)"
  by (auto simp: AddrFrom_def Let_def split: if_splits)

lemma pq_Push_Ok:
  assumes "pq_Push C new pq = Ok pq'"
  shows "pq' = pq @ [new\<lparr>ti_index := int (length pq)\<rparr>]"
    and "push_scan (xmss_IsValidXMSSAddress C (GetAddressFromUnSizedPK C (tx_Pk (ti_tx new))))
           new pq = Ok ()"
  using assms by (auto simp: pq_Push_def outcome_simps dest: AddrFrom_Ok)

lemma pq_Push_no_clash:
  assumes "pq_Push C new pq = Ok pq'" and "z \<in> set pq"
  shows "\<not> ots_clash C z new"
proof
  assume c: "ots_clash C z new"
  then have x: "xmss_IsValidXMSSAddress C (GetAddressFromUnSizedPK C (tx_Pk (ti_tx new)))"
    and pk: "tx_Pk (ti_tx z) = tx_Pk (ti_tx new)"
    by (auto simp: ots_clash_def)
  from push_scan_Ok [OF pq_Push_Ok(2) [OF assms(1)]] assms(2) x pk
  have "CheckOTSExist z (ti_tx new) = (Ok False :: (pool_error, bool) outcome)" by blast
  with c show False by (auto simp: ots_clash_def CheckOTSExist_def)
qed

lemma pq_Remove_cases:
  "snd (pq_Remove h q) = q \<or> (\<exists>i<length q. snd (pq_Remove h q) = remove_at i q)"
  by (auto simp: pq_Remove_def pq_removeByIndex_def split: option.splits
      dest: find_index_Some)

lemma pq_Remove_gone:
  assumes "distinct (map ti_txHash q)"
  shows "h \<notin> ti_txHash ` set (snd (pq_Remove h q))"
proof (cases "find_index (\<lambda>ti. ti_txHash ti = h) q")
  case None
  then have "snd (pq_Remove h q) = q" by (simp add: pq_Remove_def)
  then show ?thesis using None by (auto simp: find_index_None)
next
  case (Some i)
  then have i: "i < length q" "ti_txHash (q ! i) = h"
    using find_index_Some [OF Some] by auto
  have "ti_txHash ` set (remove_at i q) = set (remove_at i (map ti_txHash q))"
    by (simp add: remove_at_def take_map drop_map image_Un)
  also have "\<dots> = set (map ti_txHash q) - {h}"
    using assms i by (simp add: set_remove_at_distinct)
  finally show ?thesis using Some by (simp add: pq_Remove_def pq_removeByIndex_def)
qed

interpretation pq: tx_queue ti_txHash "ots_clash C" "pq_Push C" pq_Pop pq_Remove for C
proof unfold_locales
  fix x q q' z k
  show "pq_Push C x q = Ok q' \<Longrightarrow> \<exists>y. q' = q @ [y] \<and> ti_txHash y = ti_txHash x \<and>
      (\<forall>z. ots_clash C z y = ots_clash C z x) \<and> (\<forall>z. ots_clash C y z = ots_clash C x z)"
    using pq_Push_Ok(1) [of C x q q'] by (auto simp: ots_clash_def)
  show "pq_Push C x q = Ok q' \<Longrightarrow> ti_txHash x \<notin> ti_txHash ` set q"
    using push_scan_Ok [OF pq_Push_Ok(2) [of C x q q']] by force
  show "pq_Push C x q = Ok q' \<Longrightarrow> z \<in> set q \<Longrightarrow> \<not> ots_clash C z x"
    by (rule pq_Push_no_clash)
  show "snd (pq_Pop q) = butlast q" by (simp add: pq_Pop_def)
  show "snd (pq_Remove k q) = q \<or> (\<exists>i<length q. snd (pq_Remove k q) = remove_at i q)"
    by (rule pq_Remove_cases)
  show "distinct (map ti_txHash q) \<Longrightarrow> k \<notin> ti_txHash ` set (snd (pq_Remove k q))"
    by (rule pq_Remove_gone)
qed

section \<open>The pool as a state machine\<close>

inductive pool_step :: "Crypto \<Rightarrow> TransactionPoolConfig \<Rightarrow> TransactionPool \<Rightarrow> TransactionPool \<Rightarrow> bool"
  for C ucfg where
  step_add: "pool_Add C ucfg now tx h slot ts t = Ok t' \<Longrightarrow> pool_step C ucfg t t'"
| step_pop: "pool_step C ucfg t (snd (pool_Pop C t))"
| step_remove: "pool_step C ucfg t (snd (pool_Remove C tx h t))"
| step_remove_block: "pool_RemoveTxInBlock C txs t = Ok t' \<Longrightarrow> pool_step C ucfg t t'"
| step_add_block: "AddTxFromBlock C ucfg now height txs t = Ok (t', e) \<Longrightarrow> pool_step C ucfg t t'"

inductive pool_reachable :: "Crypto \<Rightarrow> TransactionPoolConfig \<Rightarrow> TransactionPool \<Rightarrow> bool" for C ucfg where
  reach_init: "pool_reachable C ucfg CreateTransactionPool"
| reach_step: "pool_reachable C ucfg t \<Longrightarrow> pool_step C ucfg t t' \<Longrightarrow> pool_reachable C ucfg t'"

inductive_cases pool_stepE: "pool_step C ucfg t t'"

definition pool_inv :: "Crypto \<Rightarrow> TransactionPoolConfig \<Rightarrow> TransactionPool \<Rightarrow> bool" where
  "pool_inv C ucfg t \<longleftrightarrow>
     distinct (map ti_txHash (txPool t)) \<and>
     sorted_wrt (\<lambda>a b. \<not> ots_clash C a b) (txPool t) \<and>
     length (txPool t) \<le> unat (TransactionPoolSize ucfg) + 1"

lemma pool_inv_alt:
  "pool_inv C ucfg t \<longleftrightarrow> pq.well_formed C (txPool t) \<and>
     length (txPool t) \<le> unat (TransactionPoolSize ucfg) + 1"
  by (auto simp: pool_inv_def pq.well_formed_def)

lemma txPool_DeleteNonceData [simp]: "txPool (DeleteNonceData C pk n t) = txPool t"
  by (simp add: DeleteNonceData_def Let_def)

lemma txPool_AddNonceData [simp]: "txPool (AddNonceData C pk n t) = txPool t"
  by (simp add: AddNonceData_def Let_def split: option.splits)

lemma txPool_fold_Delete [simp]:
  "txPool (fold (\<lambda>tx. DeleteNonceData C (tx_Pk tx) (tx_Nonce tx)) txs t) = txPool t"
  by (induction txs arbitrary: t) auto

lemma pool_inv_nonce_irrelevant: "txPool t = txPool t' \<Longrightarrow> pool_inv C ucfg t = pool_inv C ucfg t'"
  by (simp add: pool_inv_def)

lemma not_full_length:
  assumes "\<not> pq_Full ucfg q" and "length q \<le> unat (TransactionPoolSize ucfg) + 1"
    and "unat (TransactionPoolSize ucfg) + 1 < 2 ^ 64"
  shows "length q \<le> unat (TransactionPoolSize ucfg)"
proof -
  have "unat (of_nat (length q) :: u64) = length q"
    using assms(2,3) by (simp add: unat_of_nat)
  then show ?thesis using assms(1) by (simp add: pq_Full_def word_less_nat_alt not_less)
qed

lemma pool_Add_Ok:
  assumes "pool_Add C ucfg now tx h slot ts t = Ok t'"
  shows "\<not> pq_Full ucfg (txPool t)"
    and "pq_Push C (CreateTransactionInfo tx h slot (if ts = 0 then now else ts)) (txPool t)
           = Ok (txPool t')"
    and "t' = AddNonceData C (tx_Pk tx) (tx_Nonce tx) (t\<lparr>txPool := txPool t'\<rparr>)"
  using assms
  by (auto simp: pool_Add_def pool_IsFull_def Let_def outcome_simps split: if_splits)

lemma pool_inv_Add:
  assumes "pool_inv C ucfg t" and "pool_Add C ucfg now tx h slot ts t = Ok t'"
    and "unat (TransactionPoolSize ucfg) + 1 < 2 ^ 64"
  shows "pool_inv C ucfg t'"
proof -
  note ok = pool_Add_Ok [OF assms(2)]
  have "length (txPool t) \<le> unat (TransactionPoolSize ucfg)"
    using not_full_length [OF ok(1)] assms by (simp add: pool_inv_def)
  then show ?thesis
    using assms(1) pq.well_formed_push [OF _ ok(2)] pq_Push_Ok(1) [OF ok(2)]
    by (simp add: pool_inv_alt)
qed

lemma length_pq_Remove: "length (snd (pq_Remove h q)) \<le> length q"
  using pq_Remove_cases [of h q] length_remove_at [of _ q] by auto

lemma pool_inv_shrink:
  assumes "pool_inv C ucfg t" and "pq.well_formed C (txPool t')"
    and "length (txPool t') \<le> length (txPool t)"
  shows "pool_inv C ucfg t'"
  using assms by (simp add: pool_inv_alt)

lemma pq_RemoveTxInBlock_Ok:
  assumes "pq_RemoveTxInBlock txs q = Ok q'" and "pq.well_formed C q"
  shows "pq.well_formed C q'" and "length q' \<le> length q"
  using assms
proof (induction txs arbitrary: q)
  case (Cons tx txs)
  {
    case 1
    then show ?case using Cons(1) pq.well_formed_remove by (auto simp: outcome_simps)
  next
    case 2
    then show ?case
      using Cons(2) pq.well_formed_remove length_pq_Remove
      by (fastforce simp: outcome_simps intro: le_trans)
  }
qed auto

lemma pool_inv_Pop: "pool_inv C ucfg t \<Longrightarrow> pool_inv C ucfg (snd (pool_Pop C t))"
  by (rule pool_inv_shrink, assumption)
    (use pq.well_formed_pop [of C "txPool t"] in
      \<open>auto simp: pool_Pop_def pq_Pop_def pool_inv_alt split: prod.splits option.splits\<close>)

lemma txPool_pool_Remove: "txPool (snd (pool_Remove C tx h t)) = snd (pq_Remove h (txPool t))"
  by (auto simp: pool_Remove_def split: prod.splits bool.splits)

lemma pool_inv_Remove: "pool_inv C ucfg t \<Longrightarrow> pool_inv C ucfg (snd (pool_Remove C tx h t))"
  using pool_inv_shrink [of C ucfg t "snd (pool_Remove C tx h t)"]
  by (simp add: txPool_pool_Remove pool_inv_alt pq.well_formed_remove length_pq_Remove)

lemma pool_inv_RemoveTxInBlock:
  "pool_inv C ucfg t \<Longrightarrow> pool_RemoveTxInBlock C txs t = Ok t' \<Longrightarrow> pool_inv C ucfg t'"
  using pool_inv_shrink [of C ucfg t t'] pq_RemoveTxInBlock_Ok [of txs "txPool t" "txPool t'" C]
  by (auto simp: pool_RemoveTxInBlock_def outcome_simps pool_inv_alt)

lemma pool_inv_AddTxFromBlock:
  assumes "unat (TransactionPoolSize ucfg) + 1 < 2 ^ 64"
  shows "pool_inv C ucfg t \<Longrightarrow> AddTxFromBlock C ucfg now height txs t = Ok (t', e) \<Longrightarrow>
    pool_inv C ucfg t'"
proof (induction txs arbitrary: t)
  case (Cons tx txs)
  from Cons.prems obtain tx' where
    *: "(case pool_Add C ucfg now tx' (tx_Hash tx') height now t of
           Ok t1 \<Rightarrow> AddTxFromBlock C ucfg now height txs (AddNonceData C (tx_Pk tx') (tx_Nonce tx') t1)
         | Err e \<Rightarrow> Ok (t, Some e) | Panic \<Rightarrow> Panic | Loops \<Rightarrow> Loops) = Ok (t', e)"
    by (auto simp: outcome_simps)
  show ?case
  proof (cases "pool_Add C ucfg now tx' (tx_Hash tx') height now t")
    case (Ok t1)
    then have "pool_inv C ucfg t1" using pool_inv_Add Cons.prems(1) assms by blast
    then have "pool_inv C ucfg (AddNonceData C (tx_Pk tx') (tx_Nonce tx') t1)"
      by (simp add: pool_inv_def)
    then show ?thesis using Cons.IH * Ok by simp
  qed (use * Cons.prems(1) in auto)
qed auto

lemma pool_inv_step:
  assumes "unat (TransactionPoolSize ucfg) + 1 < 2 ^ 64"
    and "pool_step C ucfg t t'" and "pool_inv C ucfg t"
  shows "pool_inv C ucfg t'"
  using assms(2)
proof cases
  case (step_add now tx h slot ts)
  then show ?thesis using pool_inv_Add [OF assms(3) _ assms(1)] by simp
next
  case step_pop
  then show ?thesis using pool_inv_Pop [OF assms(3)] by simp
next
  case (step_remove tx h)
  then show ?thesis using pool_inv_Remove [OF assms(3)] by simp
next
  case (step_remove_block txs)
  then show ?thesis by (rule pool_inv_RemoveTxInBlock [OF assms(3)])
next
  case (step_add_block now height txs e)
  then show ?thesis by (rule pool_inv_AddTxFromBlock [OF assms(1,3)])
qed

text \<open>C19. Every reachable transaction pool holds each transaction hash once, never two transactions
  that spend one one-time-signature index of an XMSS key, and at most one entry more than the
  configured size.\<close>

theorem pool_reachable_safe:
  assumes "unat (TransactionPoolSize ucfg) + 1 < 2 ^ 64" and "pool_reachable C ucfg t"
  shows "distinct (map ti_txHash (txPool t)) \<and>
    sorted_wrt (\<lambda>a b. \<not> ots_clash C a b) (txPool t) \<and>
    length (txPool t) \<le> unat (TransactionPoolSize ucfg) + 1"
proof -
  have "pool_inv C ucfg t"
    using assms(2)
  proof induction
    case reach_init
    then show ?case by (simp add: pool_inv_def CreateTransactionPool_def)
  next
    case (reach_step t t')
    then show ?case using pool_inv_step [OF assms(1)] by blast
  qed
  then show ?thesis by (simp add: pool_inv_def)
qed

text \<open>Two transactions of one XMSS key, with the indices 1 and 2, used by the witnesses.\<close>

definition xmss_tx :: "u8 \<Rightarrow> Transaction" where
  "xmss_tx i = (NewTransfer 1 [] 5 21000 1 [] (ucast i) [7, 8, 9])
     \<lparr>tx_Signature := [0, 0, 0, i], tx_HashField := replicate 32 i\<rparr>"

definition two_tx_pool :: "(pool_error, TransactionPool) outcome" where
  "two_tx_pool =
     and_then (pool_Add witness_crypto user_TransactionPool 0 (xmss_tx 1) (tx_Hash (xmss_tx 1)) 0 1
        CreateTransactionPool)
       (pool_Add witness_crypto user_TransactionPool 0 (xmss_tx 2) (tx_Hash (xmss_tx 2)) 0 1)"

lemma two_tx_pool_Ok: "(case two_tx_pool of Ok t \<Rightarrow> length (txPool t) = 2 | _ \<Rightarrow> False)"
  by code_simp

lemma two_tx_pool_reachable:
  assumes "two_tx_pool = Ok t"
  shows "pool_reachable witness_crypto user_TransactionPool t"
  using assms unfolding two_tx_pool_def and_then_eq_Ok
  by (blast intro: reach_init reach_step step_add)

theorem pool_reachable_safe_witness:
  "\<exists>t. two_tx_pool = Ok t \<and> length (txPool t) = 2 \<and> distinct (map ti_txHash (txPool t)) \<and>
     sorted_wrt (\<lambda>a b. \<not> ots_clash witness_crypto a b) (txPool t)"
proof -
  obtain t where t: "two_tx_pool = Ok t" "length (txPool t) = 2"
    using two_tx_pool_Ok by (auto split: outcome.splits)
  have "unat (TransactionPoolSize user_TransactionPool) + 1 < 2 ^ 64" by (simp add: user_TransactionPool_def)
  from pool_reachable_safe [OF this two_tx_pool_reachable [OF t(1)]] t show ?thesis by blast
qed

text \<open>C33. A pool that holds exactly the configured number of transactions still accepts one more:
  the fullness test compares with \<^verbatim>\<open>>\<close>, so the pool is full only beyond its size.\<close>

theorem pool_accepts_beyond_size:
  assumes "length (txPool t) = unat (TransactionPoolSize ucfg)"
    and "pq_Push C (CreateTransactionInfo tx h slot ts) (txPool t) = Ok q" and "ts \<noteq> 0"
  shows "\<exists>t'. pool_Add C ucfg now tx h slot ts t = Ok t' \<and>
    length (txPool t') = unat (TransactionPoolSize ucfg) + 1"
proof -
  have "\<not> pool_IsFull ucfg t"
    using assms(1) by (simp add: pool_IsFull_def pq_Full_def)
  then show ?thesis
    using assms pq_Push_Ok(1) [OF assms(2)] by (simp add: pool_Add_def Let_def)
qed

theorem pool_accepts_beyond_size_witness:
  "\<exists>t'. pool_Add witness_crypto (user_TransactionPool\<lparr>TransactionPoolSize := 0\<rparr>) 0 (xmss_tx 1)
      (tx_Hash (xmss_tx 1)) 0 1 CreateTransactionPool = Ok t' \<and> length (txPool t') = 0 + 1"
proof -
  have "is_ok (pq_Push witness_crypto (CreateTransactionInfo (xmss_tx 1) (tx_Hash (xmss_tx 1)) 0 1)
     (txPool CreateTransactionPool))"
    by code_simp
  then obtain q where "pq_Push witness_crypto
      (CreateTransactionInfo (xmss_tx 1) (tx_Hash (xmss_tx 1)) 0 1)
      (txPool CreateTransactionPool) = Ok q"
    unfolding is_ok_iff by blast
  from pool_accepts_beyond_size [OF _ this, of "user_TransactionPool\<lparr>TransactionPoolSize := 0\<rparr>" 0]
  show ?thesis by (simp add: CreateTransactionPool_def)
qed



text \<open>\<^verbatim>\<open>TransactionPool.Remove\<close> drops the nonce entry exactly when it did not remove anything: a
  transaction that is in the pool is taken out and its nonce entry stays behind.\<close>

theorem pool_Remove_keeps_stale_nonce:
  assumes "h \<in> ti_txHash ` set (txPool t)"
  shows "fst (pool_Remove C tx h t) \<and>
    length (txPool (snd (pool_Remove C tx h t))) < length (txPool t) \<and>
    pool_nonce (snd (pool_Remove C tx h t)) = pool_nonce t"
proof -
  obtain i where i: "find_index (\<lambda>ti. ti_txHash ti = h) (txPool t) = Some i"
    using assms find_index_None [of "\<lambda>ti. ti_txHash ti = h" "txPool t"] by (auto simp: image_iff)
  from find_index_Some [OF i] have "i < length (txPool t)" by simp
  then show ?thesis
    using i length_remove_at [of i "txPool t"]
    by (simp add: pool_Remove_def pq_Remove_def pq_removeByIndex_def)
qed

theorem pool_Remove_keeps_stale_nonce_witness:
  "\<exists>t. two_tx_pool = Ok t \<and>
     pool_nonce (snd (pool_Remove witness_crypto (xmss_tx 2) (tx_Hash (xmss_tx 2)) t)) = pool_nonce t"
proof -
  have "(case two_tx_pool of Ok t \<Rightarrow> tx_Hash (xmss_tx 2) \<in> ti_txHash ` set (txPool t) | _ \<Rightarrow> False)"
    by code_simp
  then obtain t where "two_tx_pool = Ok t" "tx_Hash (xmss_tx 2) \<in> ti_txHash ` set (txPool t)"
    by (auto split: outcome.splits)
  then show ?thesis
    using pool_Remove_keeps_stale_nonce [of "tx_Hash (xmss_tx 2)" t witness_crypto "xmss_tx 2"]
    by blast
qed

end
