(* ===== verification/Zond_Metadata.thy ===== *)
theory Zond_Metadata
  imports Zond_Transactions
begin

text \<open>
  The database of \<^verbatim>\<open>db/db.go\<close> and the records of \<^verbatim>\<open>metadata/*.go\<close> stored in it: their keys, how
  they are committed and loaded, and the walk from a block to the value a key had there. A bbolt
  database is a map from bucket names to buckets, a bucket a map from keys to values; a write
  transaction that returns an error leaves the database as it was. The protobuf encoding is a
  parameter: the values are of an arbitrary type, and a codec marshals and unmarshals each message.
\<close>

section \<open>db/db.go\<close>

type_synonym 'v bucket = "string \<Rightarrow> 'v option"
type_synonym 'v DB = "string \<Rightarrow> 'v bucket option"

definition NewDB :: "'v DB \<Rightarrow> 'v DB" where
  "NewDB file = (case file ''DB'' of None \<Rightarrow> file(''DB'' \<mapsto> Map.empty) | Some _ \<Rightarrow> file)"

definition DB_Get :: "'v DB \<Rightarrow> string \<Rightarrow> (goerr, 'v) outcome" where
  "DB_Get db key =
     and_then (deref (db ''DB'')) (\<lambda>b. of_option ''key not found'' (b key))"

definition DB_GetFromBucket :: "'v DB \<Rightarrow> string \<Rightarrow> string \<Rightarrow> (goerr, 'v) outcome" where
  "DB_GetFromBucket db key bucket =
     (case db bucket of None \<Rightarrow> Err ''bucket not found''
      | Some b \<Rightarrow> of_option ''key not found'' (b key))"

definition bucket_Put :: "string \<Rightarrow> 'v \<Rightarrow> 'v bucket \<Rightarrow> 'v bucket" where
  "bucket_Put key v b = b(key \<mapsto> v)"

section \<open>Messages\<close>

record BlockMetaData =
  bm_ParentHeaderHash :: bytes
  bm_HeaderHash :: bytes
  bm_SlotNumber :: u64
  bm_ChildHeaderHashes :: "bytes list"
  bm_FinalizedChildHeaderHash :: bytes
  bm_TotalStakeAmount :: bytes
  bm_TrieRoot :: bytes

record SlotInfo =
  SlotLeader :: u64
  Attestors :: "u64 list"

text \<open>The slice of slot infos holds pointers, nil for a slot nobody was assigned to. The stake data
  of the previous epoch is set by \<^verbatim>\<open>NewEpochMetaData\<close> and never removed.\<close>

record EpochMetaData =
  em_Epoch :: u64
  em_PrevSlotLastBlockHeaderHash :: bytes
  em_SlotInfo :: "SlotInfo option list"
  em_Validators :: "bytes list"
  em_TotalStakeAmountFound :: u64
  em_TotalStakeAmountAlloted :: u64

record MainChainMetaData =
  mc_FinalizedBlockHeaderHash :: bytes
  mc_FinalizedBlockSlotNumber :: u64
  mc_LastBlockHeaderHash :: bytes
  mc_LastBlockSlotNumber :: u64

record BlockHashesBySlotNumber =
  bh_SlotNumber :: u64
  bh_HeaderHashes :: "bytes list"

record EpochBlockHashes =
  eb_Epoch :: u64
  eb_BlockHashesBySlotNumber :: "BlockHashesBySlotNumber list"

record 'tx TxMetaData =
  tm_BlockHash :: bytes
  tm_BlockNumber :: u64
  tm_Index :: u64
  tm_Transaction :: 'tx

type_synonym TransactionMetaData = "Transaction TxMetaData"
type_synonym ProtocolTransactionMetaData = "ProtocolTransaction TxMetaData"

record SlaveMetaData =
  sl_TxHash :: bytes
  sl_Address :: bytes
  sl_SlavePk :: bytes

record BlockHeader =
  hd_SlotNumber :: u64
  hd_Hash :: bytes
  hd_ParentHash :: bytes
  hd_BaseFee :: u64
  hd_GasLimit :: u64
  hd_GasUsed :: u64
  hd_TimestampSeconds :: u64
  hd_Root :: bytes
  hd_TransactionsRoot :: bytes
  hd_ReceiptsRoot :: bytes
  hd_ProtocolTxBloom :: bytes
  hd_TxBloom :: bytes

record Block =
  blk_Header :: BlockHeader
  blk_ProtocolTransactions :: "ProtocolTransaction list"
  blk_Transactions :: "Transaction list"

section \<open>The protobuf codec\<close>

record ('m, 'v) msg_codec =
  Marshal :: "'m \<Rightarrow> 'v option"
  Unmarshal :: "'v \<Rightarrow> 'm option"

record 'v Codec =
  raw :: "bytes \<Rightarrow> 'v"
  unraw :: "'v \<Rightarrow> bytes"
  pb_BlockMetaData :: "(BlockMetaData, 'v) msg_codec"
  pb_EpochMetaData :: "(EpochMetaData, 'v) msg_codec"
  pb_MainChainMetaData :: "(MainChainMetaData, 'v) msg_codec"
  pb_EpochBlockHashes :: "(EpochBlockHashes, 'v) msg_codec"
  pb_TransactionMetaData :: "(TransactionMetaData, 'v) msg_codec"
  pb_ProtocolTransactionMetaData :: "(ProtocolTransactionMetaData, 'v) msg_codec"
  pb_SlaveMetaData :: "(SlaveMetaData, 'v) msg_codec"
  pb_BlockReceipts :: "(bytes, 'v) msg_codec"
  pb_Block :: "(Block, 'v) msg_codec"

text \<open>
  What the code relies on: a message that marshals unmarshals to itself. A nil entry of a repeated
  message field comes back as an empty message, so an epoch's message is promised back only when
  no slot info is nil.
\<close>

definition roundtrips :: "('m \<Rightarrow> bool) \<Rightarrow> ('m, 'v) msg_codec \<Rightarrow> bool" where
  "roundtrips P c \<longleftrightarrow> (\<forall>m. P m \<longrightarrow> (\<exists>v. Marshal c m = Some v \<and> Unmarshal c v = Some m))"

definition codec_ok :: "'v Codec \<Rightarrow> bool" where
  "codec_ok K \<longleftrightarrow>
     (\<forall>b. unraw K (raw K b) = b) \<and>
     roundtrips (\<lambda>_. True) (pb_BlockMetaData K) \<and>
     roundtrips (\<lambda>e. None \<notin> set (em_SlotInfo e)) (pb_EpochMetaData K) \<and>
     roundtrips (\<lambda>_. True) (pb_MainChainMetaData K) \<and>
     roundtrips (\<lambda>_. True) (pb_EpochBlockHashes K) \<and>
     roundtrips (\<lambda>_. True) (pb_TransactionMetaData K) \<and>
     roundtrips (\<lambda>_. True) (pb_ProtocolTransactionMetaData K) \<and>
     roundtrips (\<lambda>_. True) (pb_SlaveMetaData K) \<and>
     roundtrips (\<lambda>_. True) (pb_BlockReceipts K) \<and>
     roundtrips (\<lambda>_. True) (pb_Block K)"

definition DB_load :: "('m, 'v) msg_codec \<Rightarrow> 'v DB \<Rightarrow> string \<Rightarrow> (goerr, 'm) outcome" where
  "DB_load c db key =
     and_then (DB_Get db key) (\<lambda>v. of_option ''proto: cannot parse'' (Unmarshal c v))"

definition put_msg :: "('m, 'v) msg_codec \<Rightarrow> string \<Rightarrow> 'm \<Rightarrow> 'v bucket \<Rightarrow> (goerr, 'v bucket) outcome"
  where
  "put_msg c key m b =
     and_then (of_option ''proto: cannot marshal'' (Marshal c m)) (\<lambda>v. Ok (bucket_Put key v b))"

section \<open>Keys\<close>

definition GetBlockMetaDataKey :: "Hash \<Rightarrow> string" where
  "GetBlockMetaDataKey h = ''BLOCK-META-DATA-'' @ BytesToHexStr h"

definition GetBlockBucketName :: "Hash \<Rightarrow> string" where
  "GetBlockBucketName h = ''BLOCK-BUCKET-'' @ BytesToHexStr h"

definition GetBlockReceiptsKey :: "Hash \<Rightarrow> u64 \<Rightarrow> bool \<Rightarrow> string" where
  "GetBlockReceiptsKey h blockNumber isProtocolTxReceipt =
     (if isProtocolTxReceipt
      then ''BLOCK-PROTOCOL-TX-RECEIPTS-'' @ BytesToHexStr h @ ''-'' @ format_u64 blockNumber
      else ''BLOCK-TX-RECEIPTS-'' @ BytesToHexStr h @ ''-'' @ format_u64 blockNumber)"

definition GetEpochMetaDataKey :: "u64 \<Rightarrow> Hash \<Rightarrow> string" where
  "GetEpochMetaDataKey epoch h =
     ''EPOCH-META-DATA-'' @ format_u64 epoch @ ''-'' @ Hash_Format_s h"

definition GetEpochBlockHashesKey :: "u64 \<Rightarrow> string" where
  "GetEpochBlockHashesKey epoch = ''EPOCH-BLOCK-HASHES-META-DATA-'' @ format_u64 epoch"

definition GetMainChainMetaDataKey :: string where
  "GetMainChainMetaDataKey = ''MAIN-CHAIN-META-DATA''"

definition GetTransactionMetaDataKey :: "Hash \<Rightarrow> string" where
  "GetTransactionMetaDataKey h = ''TX-META-DATA-'' @ BytesToHexStr h"

definition GetProtocolTransactionMetaDataKey :: "Hash \<Rightarrow> string" where
  "GetProtocolTransactionMetaDataKey h = ''PROTOCOL-TX-META-DATA-'' @ BytesToHexStr h"

text \<open>The address is printed as its raw bytes.\<close>

definition GetSlaveMetaDataKey :: "bytes \<Rightarrow> bytes \<Rightarrow> string" where
  "GetSlaveMetaDataKey address slavePK =
     ''SLAVE-META-DATA-'' @ map (\<lambda>b. char_of (unat b)) address @ ''-''
       @ hex_EncodeToString slavePK"

definition GetBlockStorageKey :: "Hash \<Rightarrow> string" where
  "GetBlockStorageKey h = ''BLOCK-'' @ Hash_Format_s h"

definition GetBlockHashStorageKeyBySlotNumber :: "u64 \<Rightarrow> string" where
  "GetBlockHashStorageKeyBySlotNumber slotNumber = format_u64 slotNumber"

section \<open>Block metadata\<close>

definition ParentHeaderHash :: "BlockMetaData \<Rightarrow> Hash" where
  "ParentHeaderHash bm = copy_array 32 (bm_ParentHeaderHash bm)"

definition HeaderHash :: "BlockMetaData \<Rightarrow> Hash" where
  "HeaderHash bm = copy_array 32 (bm_HeaderHash bm)"

definition TrieRoot :: "BlockMetaData \<Rightarrow> Hash" where
  "TrieRoot bm = copy_array 32 (bm_TrieRoot bm)"

definition bm_Epoch :: "DevConfig \<Rightarrow> BlockMetaData \<Rightarrow> u64" where
  "bm_Epoch cfg bm = bm_SlotNumber bm div BlocksPerEpoch cfg"

definition AddChildHeaderHash :: "Hash \<Rightarrow> BlockMetaData \<Rightarrow> BlockMetaData" where
  "AddChildHeaderHash headerHash bm =
     bm\<lparr>bm_ChildHeaderHashes := bm_ChildHeaderHashes bm @ [headerHash]\<rparr>"

definition UpdateFinalizedChildHeaderHash :: "Hash \<Rightarrow> BlockMetaData \<Rightarrow> BlockMetaData" where
  "UpdateFinalizedChildHeaderHash h bm = bm\<lparr>bm_FinalizedChildHeaderHash := h\<rparr>"

definition bm_Commit :: "'v Codec \<Rightarrow> BlockMetaData \<Rightarrow> 'v bucket \<Rightarrow> (goerr, 'v bucket) outcome" where
  "bm_Commit K bm b = put_msg (pb_BlockMetaData K) (GetBlockMetaDataKey (HeaderHash bm)) bm b"

definition NewBlockMetaData :: "Hash \<Rightarrow> Hash \<Rightarrow> u64 \<Rightarrow> bytes \<Rightarrow> Hash \<Rightarrow> BlockMetaData" where
  "NewBlockMetaData parentHeaderHash headerHash slotNumber totalStakeAmount trieRoot =
     \<lparr>bm_ParentHeaderHash = parentHeaderHash, bm_HeaderHash = headerHash,
      bm_SlotNumber = slotNumber, bm_ChildHeaderHashes = [], bm_FinalizedChildHeaderHash = [],
      bm_TotalStakeAmount = totalStakeAmount, bm_TrieRoot = trieRoot\<rparr>"

definition GetBlockMetaData :: "'v Codec \<Rightarrow> 'v DB \<Rightarrow> Hash \<Rightarrow> (goerr, BlockMetaData) outcome" where
  "GetBlockMetaData K db headerHash =
     DB_load (pb_BlockMetaData K) db (GetBlockMetaDataKey headerHash)"

section \<open>Main chain metadata\<close>

definition FinalizedBlockHeaderHash :: "MainChainMetaData \<Rightarrow> Hash" where
  "FinalizedBlockHeaderHash m = copy_array 32 (mc_FinalizedBlockHeaderHash m)"

definition LastBlockHeaderHash :: "MainChainMetaData \<Rightarrow> Hash" where
  "LastBlockHeaderHash m = copy_array 32 (mc_LastBlockHeaderHash m)"

definition UpdateFinalizedBlockData :: "Hash \<Rightarrow> u64 \<Rightarrow> MainChainMetaData \<Rightarrow> MainChainMetaData" where
  "UpdateFinalizedBlockData h slot m =
     m\<lparr>mc_FinalizedBlockHeaderHash := h, mc_FinalizedBlockSlotNumber := slot\<rparr>"

definition UpdateLastBlockData :: "Hash \<Rightarrow> u64 \<Rightarrow> MainChainMetaData \<Rightarrow> MainChainMetaData" where
  "UpdateLastBlockData h slot m =
     m\<lparr>mc_LastBlockHeaderHash := h, mc_LastBlockSlotNumber := slot\<rparr>"

definition NewMainChainMetaData :: "Hash \<Rightarrow> u64 \<Rightarrow> Hash \<Rightarrow> u64 \<Rightarrow> MainChainMetaData" where
  "NewMainChainMetaData fh fs lh ls =
     \<lparr>mc_FinalizedBlockHeaderHash = fh, mc_FinalizedBlockSlotNumber = fs,
      mc_LastBlockHeaderHash = lh, mc_LastBlockSlotNumber = ls\<rparr>"

definition mc_Commit ::
    "'v Codec \<Rightarrow> MainChainMetaData \<Rightarrow> 'v bucket \<Rightarrow> (goerr, 'v bucket) outcome" where
  "mc_Commit K m b = put_msg (pb_MainChainMetaData K) GetMainChainMetaDataKey m b"

definition GetMainChainMetaData :: "'v Codec \<Rightarrow> 'v DB \<Rightarrow> (goerr, MainChainMetaData) outcome" where
  "GetMainChainMetaData K db = DB_load (pb_MainChainMetaData K) db GetMainChainMetaDataKey"

section \<open>Transaction, protocol transaction, slave and receipt records\<close>

definition NewTransactionMetaData :: "Hash \<Rightarrow> u64 \<Rightarrow> u64 \<Rightarrow> Transaction \<Rightarrow> TransactionMetaData" where
  "NewTransactionMetaData blockHash blockNumber i tx =
     \<lparr>tm_BlockHash = blockHash, tm_BlockNumber = blockNumber, tm_Index = i, tm_Transaction = tx\<rparr>"

definition tm_Commit ::
    "'v Codec \<Rightarrow> TransactionMetaData \<Rightarrow> 'v bucket \<Rightarrow> (goerr, 'v bucket) outcome" where
  "tm_Commit K t b =
     put_msg (pb_TransactionMetaData K)
       (GetTransactionMetaDataKey (BytesToHash (tx_HashField (tm_Transaction t)))) t b"

definition GetTransactionMetaData ::
    "'v Codec \<Rightarrow> 'v DB \<Rightarrow> Hash \<Rightarrow> (goerr, TransactionMetaData) outcome" where
  "GetTransactionMetaData K db txHash =
     DB_load (pb_TransactionMetaData K) db (GetTransactionMetaDataKey txHash)"

definition NewProtocolTransactionMetaData ::
    "Hash \<Rightarrow> u64 \<Rightarrow> u64 \<Rightarrow> ProtocolTransaction \<Rightarrow> ProtocolTransactionMetaData" where
  "NewProtocolTransactionMetaData blockHash blockNumber i tx =
     \<lparr>tm_BlockHash = blockHash, tm_BlockNumber = blockNumber, tm_Index = i, tm_Transaction = tx\<rparr>"

text \<open>The code commits under the key of an ordinary transaction and loads under the key of a
  protocol transaction.\<close>

definition ptm_Commit ::
    "'v Codec \<Rightarrow> ProtocolTransactionMetaData \<Rightarrow> 'v bucket \<Rightarrow> (goerr, 'v bucket) outcome" where
  "ptm_Commit K t b =
     put_msg (pb_ProtocolTransactionMetaData K)
       (GetTransactionMetaDataKey (BytesToHash (ptx_HashField (tm_Transaction t)))) t b"

definition GetProtocolTransactionMetaData ::
    "'v Codec \<Rightarrow> 'v DB \<Rightarrow> Hash \<Rightarrow> (goerr, ProtocolTransactionMetaData) outcome" where
  "GetProtocolTransactionMetaData K db txHash =
     DB_load (pb_ProtocolTransactionMetaData K) db (GetProtocolTransactionMetaDataKey txHash)"

definition NewSlaveMetaData :: "bytes \<Rightarrow> bytes \<Rightarrow> bytes \<Rightarrow> SlaveMetaData" where
  "NewSlaveMetaData txHash address slavePK =
     \<lparr>sl_TxHash = txHash, sl_Address = address, sl_SlavePk = slavePK\<rparr>"

definition sl_Commit ::
    "'v Codec \<Rightarrow> SlaveMetaData \<Rightarrow> 'v bucket \<Rightarrow> (goerr, 'v bucket) outcome" where
  "sl_Commit K s b =
     put_msg (pb_SlaveMetaData K) (GetSlaveMetaDataKey (sl_Address s) (sl_SlavePk s)) s b"

definition GetBlockReceipts ::
    "'v Codec \<Rightarrow> 'v DB \<Rightarrow> Hash \<Rightarrow> u64 \<Rightarrow> bool \<Rightarrow> (goerr, bytes) outcome" where
  "GetBlockReceipts K db headerHash blockNumber isProtocolTxReceipt =
     DB_load (pb_BlockReceipts K) db
       (GetBlockReceiptsKey headerHash blockNumber isProtocolTxReceipt)"

section \<open>metadata/metadata.go\<close>

text \<open>\<^verbatim>\<open>GetDataByBucket\<close> walks from a block towards the finalized one, and takes the first block
  bucket that holds the key; past them it reads the main bucket.\<close>

partial_function (option) bucket_walk ::
  "'v Codec \<Rightarrow> 'v DB \<Rightarrow> string \<Rightarrow> Hash \<Rightarrow> Hash \<Rightarrow> (goerr, 'v option) outcome option" where
  "bucket_walk K db key headerHash finalizedHeaderHash =
     (if headerHash = finalizedHeaderHash then Some (Ok None)
      else case DB_GetFromBucket db key (GetBlockBucketName headerHash) of
        Ok v \<Rightarrow> Some (Ok (Some v))
      | _ \<Rightarrow> (case GetBlockMetaData K db headerHash of
               Ok bm \<Rightarrow> bucket_walk K db key (ParentHeaderHash bm) finalizedHeaderHash
             | Err e \<Rightarrow> Some (Err e)
             | Panic \<Rightarrow> Some Panic
             | Loops \<Rightarrow> Some Loops))"

definition GetDataByBucket ::
    "'v Codec \<Rightarrow> 'v DB \<Rightarrow> string \<Rightarrow> Hash \<Rightarrow> Hash \<Rightarrow> (goerr, 'v) outcome" where
  "GetDataByBucket K db key headerHash finalizedHeaderHash =
     and_then (runs (bucket_walk K db key headerHash finalizedHeaderHash)) (\<lambda>data.
       case data of Some v \<Rightarrow> Ok v | None \<Rightarrow> DB_Get db key)"

definition GetSlaveMetaData ::
    "'v Codec \<Rightarrow> 'v DB \<Rightarrow> bytes \<Rightarrow> bytes \<Rightarrow> Hash \<Rightarrow> Hash \<Rightarrow> (goerr, SlaveMetaData) outcome" where
  "GetSlaveMetaData K db address slavePK headerHash finalizedHeaderHash =
     and_then (GetDataByBucket K db (GetSlaveMetaDataKey address slavePK) headerHash
       finalizedHeaderHash)
       (\<lambda>v. of_option ''proto: cannot parse'' (Unmarshal (pb_SlaveMetaData K) v))"

section \<open>A concrete codec\<close>

text \<open>A wire value that names its message, used by the witnesses.\<close>

datatype wire =
    WRaw (of_WRaw: bytes)
  | WBlockMetaData BlockMetaData
  | WEpochMetaData EpochMetaData
  | WMainChainMetaData MainChainMetaData
  | WEpochBlockHashes EpochBlockHashes
  | WTransactionMetaData TransactionMetaData
  | WProtocolTransactionMetaData ProtocolTransactionMetaData
  | WSlaveMetaData SlaveMetaData
  | WBlock Block

definition wire_codec :: "wire Codec" where
  "wire_codec =
     \<lparr>raw = WRaw, unraw = (\<lambda>v. case v of WRaw b \<Rightarrow> b | _ \<Rightarrow> []),
      pb_BlockMetaData = \<lparr>Marshal = \<lambda>m. Some (WBlockMetaData m),
        Unmarshal = (\<lambda>v. case v of WBlockMetaData m \<Rightarrow> Some m | _ \<Rightarrow> None)\<rparr>,
      pb_EpochMetaData = \<lparr>Marshal = \<lambda>m. Some (WEpochMetaData m),
        Unmarshal = (\<lambda>v. case v of WEpochMetaData m \<Rightarrow> Some m | _ \<Rightarrow> None)\<rparr>,
      pb_MainChainMetaData = \<lparr>Marshal = \<lambda>m. Some (WMainChainMetaData m),
        Unmarshal = (\<lambda>v. case v of WMainChainMetaData m \<Rightarrow> Some m | _ \<Rightarrow> None)\<rparr>,
      pb_EpochBlockHashes = \<lparr>Marshal = \<lambda>m. Some (WEpochBlockHashes m),
        Unmarshal = (\<lambda>v. case v of WEpochBlockHashes m \<Rightarrow> Some m | _ \<Rightarrow> None)\<rparr>,
      pb_TransactionMetaData = \<lparr>Marshal = \<lambda>m. Some (WTransactionMetaData m),
        Unmarshal = (\<lambda>v. case v of WTransactionMetaData m \<Rightarrow> Some m | _ \<Rightarrow> None)\<rparr>,
      pb_ProtocolTransactionMetaData = \<lparr>Marshal = \<lambda>m. Some (WProtocolTransactionMetaData m),
        Unmarshal = (\<lambda>v. case v of WProtocolTransactionMetaData m \<Rightarrow> Some m | _ \<Rightarrow> None)\<rparr>,
      pb_SlaveMetaData = \<lparr>Marshal = \<lambda>m. Some (WSlaveMetaData m),
        Unmarshal = (\<lambda>v. case v of WSlaveMetaData m \<Rightarrow> Some m | _ \<Rightarrow> None)\<rparr>,
      pb_BlockReceipts = \<lparr>Marshal = \<lambda>m. Some (WRaw m),
        Unmarshal = (\<lambda>v. case v of WRaw m \<Rightarrow> Some m | _ \<Rightarrow> None)\<rparr>,
      pb_Block = \<lparr>Marshal = \<lambda>m. Some (WBlock m),
        Unmarshal = (\<lambda>v. case v of WBlock m \<Rightarrow> Some m | _ \<Rightarrow> None)\<rparr>\<rparr>"

lemma codec_ok_wire: "codec_ok wire_codec"
  by (simp add: codec_ok_def roundtrips_def wire_codec_def)

section \<open>The store contract\<close>

text \<open>What the records rely on: a key reads back the value last put under it, and a put leaves every
  other key alone.\<close>

locale kv_store =
  fixes get :: "'s \<Rightarrow> 'k \<Rightarrow> 'v option"
    and put :: "'k \<Rightarrow> 'v \<Rightarrow> 's \<Rightarrow> 's"
  assumes get_put_same: "get (put k v s) k = Some v"
    and get_put_other: "k \<noteq> k' \<Longrightarrow> get (put k v s) k' = get s k'"
begin

lemma get_puts: "get (fold (\<lambda>(k, v). put k v) kvs s) k =
  (case map_of (rev kvs) k of Some v \<Rightarrow> Some v | None \<Rightarrow> get s k)"
proof (induction kvs arbitrary: s)
  case Nil
  then show ?case by simp
next
  case (Cons kv kvs)
  then show ?case
    by (cases kv; cases "fst kv = k")
      (auto simp: get_put_same get_put_other map_add_def split: option.splits)
qed

lemma put_commute_get: "k \<noteq> k' \<Longrightarrow>
  get (put k v (put k' v' s)) j = get (put k' v' (put k v s)) j"
  by (cases "j = k"; cases "j = k'") (auto simp: get_put_same get_put_other)

end

interpretation bucket_store: kv_store "\<lambda>b. b" bucket_Put
  by unfold_locales (simp_all add: bucket_Put_def)

text \<open>The main bucket inside a database.\<close>

definition with_main :: "'v bucket \<Rightarrow> 'v DB \<Rightarrow> 'v DB" where
  "with_main b db = db(''DB'' \<mapsto> b)"

lemma DB_Get_with_main: "DB_Get (with_main b db) k = of_option ''key not found'' (b k)"
  by (simp add: DB_Get_def with_main_def deref_def)

lemma put_msg_roundtrip:
  assumes "roundtrips P c" and "P m" and "put_msg c k m b = Ok b'"
  shows "DB_load c (with_main b' db) k = Ok m"
proof -
  obtain v where v: "Marshal c m = Some v" "Unmarshal c v = Some m"
    using assms(1,2) by (auto simp: roundtrips_def)
  then have "b' k = Some v"
    using assms(3) by (auto simp: put_msg_def of_option_def bucket_store.get_put_same)
  then show ?thesis using v by (simp add: DB_load_def DB_Get_with_main of_option_def)
qed

lemma put_msg_total:
  assumes "roundtrips P c" and "P m"
  shows "\<exists>b'. put_msg c k m b = Ok b'"
  using assms by (auto simp: roundtrips_def put_msg_def of_option_def)

lemma put_msg_other:
  assumes "put_msg c k m b = Ok b'" and "k \<noteq> k'"
  shows "DB_load c' (with_main b' db) k' = DB_load c' (with_main b db) k'"
proof -
  have "b' k' = b k'"
    using assms by (auto simp: put_msg_def outcome_simps bucket_store.get_put_other)
  then show ?thesis by (simp add: DB_load_def DB_Get_with_main)
qed

section \<open>Keys do not collide\<close>

text \<open>The record a key stands for. Slave keys print raw bytes and are left out.\<close>

datatype db_key =
    KBlockMetaData Hash | KBlockReceipts Hash u64 bool | KEpochMetaData u64 Hash
  | KEpochBlockHashes u64 | KMainChain | KTransaction Hash | KProtocolTransaction Hash
  | KBlock Hash | KSlot u64

fun key_string :: "db_key \<Rightarrow> string" where
  "key_string (KBlockMetaData h) = GetBlockMetaDataKey h"
| "key_string (KBlockReceipts h n p) = GetBlockReceiptsKey h n p"
| "key_string (KEpochMetaData e h) = GetEpochMetaDataKey e h"
| "key_string (KEpochBlockHashes e) = GetEpochBlockHashesKey e"
| "key_string KMainChain = GetMainChainMetaDataKey"
| "key_string (KTransaction h) = GetTransactionMetaDataKey h"
| "key_string (KProtocolTransaction h) = GetProtocolTransactionMetaDataKey h"
| "key_string (KBlock h) = GetBlockStorageKey h"
| "key_string (KSlot n) = GetBlockHashStorageKeyBySlotNumber n"

lemma append_sep_inject:
  assumes "c \<notin> set xs" and "c \<notin> set us"
  shows "xs @ c # ys = us @ c # vs \<longleftrightarrow> xs = us \<and> ys = vs"
  using assms
proof (induction xs arbitrary: us)
  case Nil
  then show ?case by (cases us) auto
next
  case (Cons x xs)
  then show ?case by (cases us) auto
qed

lemma dash_not_digit: "\<not> is_digit (CHR ''-'')"
  by (simp add: is_digit_def)

lemma dash_not_in_format [simp]: "CHR ''-'' \<notin> set (format_u64 n)"
  using format_u64_digits dash_not_digit by blast

lemma hex_no_dash [simp]: "CHR ''-'' \<notin> set (hex_EncodeToString bs)"
proof (induction bs)
  case (Cons b bs)
  have "hex_digit n \<noteq> CHR ''-''" if "n < 16" for n
    using hex_value_digit [OF that] by (auto simp: hex_value_def split: if_splits)
  then show ?case using Cons by (simp add: eq_commute [of "CHR ''-''"] unat_div less_mult_imp_div_less
    unat_bound [of b, simplified])
qed simp

lemma format_hd_digit: "is_digit (hd (format_u64 n))"
  using format_u64_digits [of "hd (format_u64 n)" n] by (simp add: format_u64_def)

lemma letter_ne_format:
  assumes "\<not> is_digit c"
  shows "c # cs \<noteq> format_u64 n" and "format_u64 n \<noteq> c # cs"
  using format_hd_digit [of n] assms by (metis list.sel(1))+

lemmas key_defs = GetBlockMetaDataKey_def GetBlockReceiptsKey_def GetEpochMetaDataKey_def
  GetEpochBlockHashesKey_def GetMainChainMetaDataKey_def GetTransactionMetaDataKey_def
  GetProtocolTransactionMetaDataKey_def GetBlockStorageKey_def
  GetBlockHashStorageKeyBySlotNumber_def Hash_Format_s_def BytesToHexStr_def

lemma receipts_key_inject:
  "GetBlockReceiptsKey h n p = GetBlockReceiptsKey h' n' p' \<longleftrightarrow> h = h' \<and> n = n' \<and> p = p'"
  by (auto simp: GetBlockReceiptsKey_def BytesToHexStr_def append_sep_inject)

lemma epoch_key_inject:
  "GetEpochMetaDataKey e h = GetEpochMetaDataKey e' h' \<longleftrightarrow> e = e' \<and> h = h'"
  by (auto simp: GetEpochMetaDataKey_def Hash_Format_s_def append_sep_inject)

lemma key_string_distinct: "k \<noteq> k' \<Longrightarrow> key_string k \<noteq> key_string k'"
  by (cases k; cases k')
    (auto simp: key_defs letter_ne_format is_digit_def append_sep_inject split: if_splits)


lemma DB_load_key_other:
  assumes "put_msg c (key_string k) m b = Ok b'" and "k \<noteq> k'"
  shows "DB_load c' (with_main b' db) (key_string k') = DB_load c' (with_main b db) (key_string k')"
  by (rule put_msg_other [OF assms(1) key_string_distinct [OF assms(2)]])

section \<open>Committed records load back\<close>

text \<open>C30. Committing block metadata succeeds, loads back under the block's header hash, and leaves
  the metadata of every other block, the main chain record and every transaction record as they
  were.\<close>

theorem bm_Commit_load:
  assumes "codec_ok K" and "is_hash (bm_HeaderHash bm)"
  shows "\<exists>b'. bm_Commit K bm b = Ok b' \<and>
    GetBlockMetaData K (with_main b' db) (bm_HeaderHash bm) = Ok bm \<and>
    (\<forall>h. h \<noteq> bm_HeaderHash bm \<longrightarrow>
       GetBlockMetaData K (with_main b' db) h = GetBlockMetaData K (with_main b db) h) \<and>
    GetMainChainMetaData K (with_main b' db) = GetMainChainMetaData K (with_main b db) \<and>
    (\<forall>h. GetTransactionMetaData K (with_main b' db) h =
       GetTransactionMetaData K (with_main b db) h)"
proof -
  have rt: "roundtrips (\<lambda>_. True) (pb_BlockMetaData K)" using assms(1) by (simp add: codec_ok_def)
  have hh: "HeaderHash bm = bm_HeaderHash bm"
    using assms(2) by (simp add: HeaderHash_def is_hash_def)
  obtain b' where b': "bm_Commit K bm b = Ok b'"
    using put_msg_total [OF rt] unfolding bm_Commit_def by blast
  note put = b' [unfolded bm_Commit_def hh]
  note other = DB_load_key_other [of _ "KBlockMetaData (bm_HeaderHash bm)", simplified, OF put]
  have 1: "h \<noteq> bm_HeaderHash bm \<longrightarrow>
      GetBlockMetaData K (with_main b' db) h = GetBlockMetaData K (with_main b db) h" for h
    using other [of "KBlockMetaData h"] by (auto simp: GetBlockMetaData_def)
  have 2: "GetMainChainMetaData K (with_main b' db) = GetMainChainMetaData K (with_main b db)"
    using other [of KMainChain] by (simp add: GetMainChainMetaData_def)
  have 3: "GetTransactionMetaData K (with_main b' db) h =
      GetTransactionMetaData K (with_main b db) h" for h
    using other [of "KTransaction h"] by (simp add: GetTransactionMetaData_def)
  show ?thesis
    using b' put_msg_roundtrip [OF rt TrueI put] 1 2 3 by (auto simp: GetBlockMetaData_def)
qed

definition genesis_meta :: BlockMetaData where
  "genesis_meta = NewBlockMetaData (replicate 32 0) (replicate 32 1) 0 [] (replicate 32 2)"

theorem bm_Commit_load_witness:
  "\<exists>b'. bm_Commit wire_codec genesis_meta Map.empty = Ok b' \<and>
    GetBlockMetaData wire_codec (with_main b' Map.empty) (replicate 32 1) = Ok genesis_meta"
proof -
  have "is_hash (bm_HeaderHash genesis_meta)"
    by (simp add: genesis_meta_def NewBlockMetaData_def is_hash_def)
  from bm_Commit_load [OF codec_ok_wire this, of Map.empty Map.empty]
  show ?thesis by (auto simp: genesis_meta_def NewBlockMetaData_def)
qed

text \<open>C35. The metadata of a protocol transaction is committed under the key of an ordinary
  transaction: the lookup of protocol transactions never finds it, and it overwrites what was
  stored under the transaction key of its hash.\<close>

theorem ptm_Commit_wrong_key:
  assumes "codec_ok K"
  shows "\<exists>b'. ptm_Commit K t b = Ok b' \<and>
    (\<forall>h. GetProtocolTransactionMetaData K (with_main b' db) h =
       GetProtocolTransactionMetaData K (with_main b db) h) \<and>
    DB_load (pb_ProtocolTransactionMetaData K) (with_main b' db)
      (GetTransactionMetaDataKey (ptx_Hash (tm_Transaction t))) = Ok t"
proof -
  have rt: "roundtrips (\<lambda>_. True) (pb_ProtocolTransactionMetaData K)"
    using assms(1) by (simp add: codec_ok_def)
  obtain b' where b': "ptm_Commit K t b = Ok b'"
    using put_msg_total [OF rt] unfolding ptm_Commit_def by blast
  note put = b' [unfolded ptm_Commit_def]
  have "GetProtocolTransactionMetaData K (with_main b' db) h =
      GetProtocolTransactionMetaData K (with_main b db) h" for h
    using DB_load_key_other [of _ "KTransaction _", simplified, OF put, of "KProtocolTransaction h"]
    by (simp add: GetProtocolTransactionMetaData_def)
  then show ?thesis using b' put_msg_roundtrip [OF rt TrueI put] by (auto simp: ptx_Hash_def)
qed

theorem ptm_Commit_wrong_key_witness:
  "\<exists>b'. ptm_Commit wire_codec (NewProtocolTransactionMetaData [] 1 0 (NewAttest 1 2)) Map.empty
      = Ok b' \<and>
    GetProtocolTransactionMetaData wire_codec (with_main b' Map.empty) (ptx_Hash (NewAttest 1 2))
      = Err ''key not found''"
proof -
  have "GetProtocolTransactionMetaData wire_codec (with_main Map.empty Map.empty)
      (ptx_Hash (NewAttest 1 2)) = Err ''key not found''"
    by (simp add: GetProtocolTransactionMetaData_def DB_load_def DB_Get_with_main of_option_def)
  with ptm_Commit_wrong_key [OF codec_ok_wire,
      of "NewProtocolTransactionMetaData [] 1 0 (NewAttest 1 2)" Map.empty Map.empty]
  show ?thesis by metis
qed

section \<open>The value of a key at a block\<close>

text \<open>The unfinalized ancestors of a block, from the block itself back to the finalized one.\<close>

fun ancestors :: "'v Codec \<Rightarrow> 'v DB \<Rightarrow> Hash \<Rightarrow> BlockMetaData list \<Rightarrow> Hash \<Rightarrow> bool" where
  "ancestors K db h [] f \<longleftrightarrow> h = f"
| "ancestors K db h (bm # bms) f \<longleftrightarrow>
     h \<noteq> f \<and> GetBlockMetaData K db h = Ok bm \<and> HeaderHash bm = h \<and>
     ancestors K db (ParentHeaderHash bm) bms f"

fun nearest_value :: "'v DB \<Rightarrow> string \<Rightarrow> Hash list \<Rightarrow> (goerr, 'v) outcome" where
  "nearest_value db key [] = DB_Get db key"
| "nearest_value db key (h # hs) =
     (case DB_GetFromBucket db key (GetBlockBucketName h) of
        Ok v \<Rightarrow> Ok v | _ \<Rightarrow> nearest_value db key hs)"

text \<open>C28. From a block whose ancestors lead to the finalized block, the lookup of a key by bucket
  returns, and its value is that of the nearest ancestor bucket that holds the key, or else that of
  the main bucket.\<close>

theorem GetDataByBucket_nearest:
  assumes "ancestors K db h bms f"
  shows "GetDataByBucket K db key h f = nearest_value db key (map HeaderHash bms)"
  using assms
proof (induction bms arbitrary: h)
  case Nil
  then show ?case by (simp add: GetDataByBucket_def bucket_walk.simps)
next
  case (Cons bm bms)
  then have IH: "GetDataByBucket K db key (ParentHeaderHash bm) f =
      nearest_value db key (map HeaderHash bms)"
    and *: "h \<noteq> f" "GetBlockMetaData K db h = Ok bm" "HeaderHash bm = h"
    by auto
  show ?case
    using * IH
    by (cases "DB_GetFromBucket db key (GetBlockBucketName h)")
      (simp_all add: GetDataByBucket_def bucket_walk.simps [of K db key h f])
qed

definition two_block_db :: "wire DB" where
  "two_block_db =
     [''DB'' \<mapsto> [''k'' \<mapsto> WRaw [9],
        GetBlockMetaDataKey (replicate 32 1) \<mapsto>
          WBlockMetaData (NewBlockMetaData (replicate 32 0) (replicate 32 1) 1 [] []),
        GetBlockMetaDataKey (replicate 32 2) \<mapsto>
          WBlockMetaData (NewBlockMetaData (replicate 32 1) (replicate 32 2) 2 [] [])],
      GetBlockBucketName (replicate 32 1) \<mapsto> [''k'' \<mapsto> WRaw [7]],
      GetBlockBucketName (replicate 32 2) \<mapsto> Map.empty]"

theorem GetDataByBucket_nearest_witness:
  "GetDataByBucket wire_codec two_block_db ''k'' (replicate 32 2) (replicate 32 0) = Ok (WRaw [7])"
proof -
  have "ancestors wire_codec two_block_db (replicate 32 2)
     [NewBlockMetaData (replicate 32 1) (replicate 32 2) 2 [] [],
      NewBlockMetaData (replicate 32 0) (replicate 32 1) 1 [] []] (replicate 32 0)"
    by code_simp
  moreover have "nearest_value two_block_db ''k'' [replicate 32 2, replicate 32 1] = Ok (WRaw [7])"
    by code_simp
  moreover have "map HeaderHash [NewBlockMetaData (replicate 32 1) (replicate 32 2) 2 [] [],
      NewBlockMetaData (replicate 32 0) (replicate 32 1) 1 [] []] = [replicate 32 2, replicate 32 1]"
    by (simp add: HeaderHash_def NewBlockMetaData_def)
  ultimately show ?thesis using GetDataByBucket_nearest by metis
qed

end
