(* ===== verification/Zond_Epoch.thy ===== *)
theory Zond_Epoch
  imports Zond_Metadata "HOL-Library.Multiset"
begin

text \<open>
  The validators of an epoch and their slots (\<^verbatim>\<open>metadata/epoch.go\<close>, \<^verbatim>\<open>metadata/slotvalidators.go\<close>)
  and the block hashes seen in an epoch (\<^verbatim>\<open>metadata/epochblockhashes.go\<close>). The seeded
  \<^verbatim>\<open>rand.Shuffle\<close> is a parameter of the slot allotment, of which the code relies on that it
  permutes.
\<close>

section \<open>metadata/epoch.go\<close>

definition PrevSlotLastBlockHeaderHash :: "EpochMetaData \<Rightarrow> Hash" where
  "PrevSlotLastBlockHeaderHash e = copy_array 32 (em_PrevSlotLastBlockHeaderHash e)"

definition em_Commit :: "'v Codec \<Rightarrow> EpochMetaData \<Rightarrow> 'v bucket \<Rightarrow> (goerr, 'v bucket) outcome" where
  "em_Commit K e b =
     put_msg (pb_EpochMetaData K)
       (GetEpochMetaDataKey (em_Epoch e) (PrevSlotLastBlockHeaderHash e)) e b"

definition UpdatePrevEpochStakeData :: "u64 \<Rightarrow> u64 \<Rightarrow> EpochMetaData \<Rightarrow> EpochMetaData" where
  "UpdatePrevEpochStakeData found alloted e =
     e\<lparr>em_TotalStakeAmountFound := found, em_TotalStakeAmountAlloted := alloted\<rparr>"

definition AddTotalStakeAmountFound :: "u64 \<Rightarrow> EpochMetaData \<Rightarrow> EpochMetaData" where
  "AddTotalStakeAmountFound amount e =
     e\<lparr>em_TotalStakeAmountFound := em_TotalStakeAmountFound e + amount\<rparr>"

definition AddValidators :: "bytes \<Rightarrow> EpochMetaData \<Rightarrow> EpochMetaData" where
  "AddValidators dilithiumPK e =
     (let found = list_ex (\<lambda>validator. dilithiumPK = validator) (em_Validators e)
      in if \<not> found then e\<lparr>em_Validators := em_Validators e @ [dilithiumPK]\<rparr> else e)"

definition RemoveValidators :: "bytes \<Rightarrow> EpochMetaData \<Rightarrow> EpochMetaData" where
  "RemoveValidators dilithiumPK e =
     (case find_index (\<lambda>validator. dilithiumPK = validator) (em_Validators e) of
        Some i \<Rightarrow> e\<lparr>em_Validators := remove_at i (em_Validators e)\<rparr>
      | None \<Rightarrow> e)"

text \<open>The two nested loops of \<^verbatim>\<open>AllotSlots\<close>. The inner loop stops at the first \<open>j\<close> with no
  validator left, so it runs over \<open>min bpe (len - i * bpe)\<close> indices.\<close>

definition allot_slot :: "nat \<Rightarrow> nat \<Rightarrow> nat \<Rightarrow> SlotInfo option list
    \<Rightarrow> (goerr, SlotInfo option list) outcome" where
  "allot_slot bpe i j slots =
     (if i = 0
      then Ok (slots[j := Some \<lparr>SlotLeader = of_nat (i + j), Attestors = []\<rparr>])
      else and_then (index slots j) (\<lambda>p. and_then (deref p) (\<lambda>si.
             Ok (slots[j := Some (si\<lparr>Attestors := Attestors si @ [of_nat (i * bpe + j)]\<rparr>)]))))"

definition allot_round :: "nat \<Rightarrow> nat \<Rightarrow> nat \<Rightarrow> SlotInfo option list
    \<Rightarrow> (goerr, SlotInfo option list) outcome" where
  "allot_round bpe len i slots =
     fold_outcome (allot_slot bpe i) [0..<min bpe (len - i * bpe)] slots"

definition AllotSlots :: "DevConfig \<Rightarrow> (int \<Rightarrow> bytes list \<Rightarrow> bytes list) \<Rightarrow> int \<Rightarrow> u64 \<Rightarrow> Hash
    \<Rightarrow> EpochMetaData \<Rightarrow> (goerr, EpochMetaData) outcome" where
  "AllotSlots cfg shuffle randomSeed epoch prevSlotLastBlockHeaderHash e =
     (let validators = shuffle randomSeed (em_Validators e);
          bpe = unat (BlocksPerEpoch cfg);
          len = length validators;
          maxValidatorsPerSlot = (len + bpe - 1) div bpe
      in if len = 0 then Panic
         else and_then (fold_outcome (allot_round bpe len) [0..<maxValidatorsPerSlot]
                          (replicate bpe None)) (\<lambda>slots.
                Ok (e\<lparr>em_Epoch := epoch,
                      em_PrevSlotLastBlockHeaderHash := prevSlotLastBlockHeaderHash,
                      em_Validators := validators, em_SlotInfo := slots\<rparr>)))"

definition NewEpochMetaData :: "u64 \<Rightarrow> Hash \<Rightarrow> bytes list \<Rightarrow> EpochMetaData" where
  "NewEpochMetaData epoch prevSlotLastBlockHeaderHash validators =
     \<lparr>em_Epoch = epoch, em_PrevSlotLastBlockHeaderHash = prevSlotLastBlockHeaderHash,
      em_SlotInfo = [], em_Validators = validators,
      em_TotalStakeAmountFound = 0, em_TotalStakeAmountAlloted = 0\<rparr>"



section \<open>metadata/slotvalidators.go\<close>

record SlotValidatorsMetaData =
  sv_slotNumber :: u64
  sv_slotLeaderPK :: bytes
  sv_validatorsType :: "string \<Rightarrow> u8 option"

definition GetValidatorType :: "bytes \<Rightarrow> SlotValidatorsMetaData \<Rightarrow> u8 \<times> bool" where
  "GetValidatorType dilithiumPK s =
     (case sv_validatorsType s (BytesToHexStr dilithiumPK) of
        Some v \<Rightarrow> (v, True) | None \<Rightarrow> (0, False))"

definition IsAttestor :: "string \<Rightarrow> SlotValidatorsMetaData \<Rightarrow> bool" where
  "IsAttestor dilithiumPK s \<longleftrightarrow> sv_validatorsType s dilithiumPK = Some 0"

definition IsSlotLeader :: "string \<Rightarrow> SlotValidatorsMetaData \<Rightarrow> bool" where
  "IsSlotLeader dilithiumPK s \<longleftrightarrow> sv_validatorsType s dilithiumPK = Some 1"

text \<open>The slot info of a slot; a nil entry panics at its first field access.\<close>

definition slot_info :: "DevConfig \<Rightarrow> u64 \<Rightarrow> EpochMetaData \<Rightarrow> (goerr, SlotInfo) outcome" where
  "slot_info cfg slotNumber e =
     and_then (index (em_SlotInfo e) (unat (slotNumber mod BlocksPerEpoch cfg))) deref"

definition NewSlotValidatorsMetaData :: "DevConfig \<Rightarrow> u64 \<Rightarrow> EpochMetaData
    \<Rightarrow> (goerr, SlotValidatorsMetaData) outcome" where
  "NewSlotValidatorsMetaData cfg slotNumber e =
     and_then (slot_info cfg slotNumber e) (\<lambda>si.
     and_then (index (em_Validators e) (unat (SlotLeader si))) (\<lambda>slotLeaderPK.
     and_then (fold_outcome (\<lambda>attestorIndex m.
         and_then (index (em_Validators e) (unat attestorIndex)) (\<lambda>validatorPK.
           Ok (m(BytesToHexStr validatorPK \<mapsto> 0))))
         (Attestors si) [BytesToHexStr slotLeaderPK \<mapsto> 1]) (\<lambda>validatorsType.
       Ok \<lparr>sv_slotNumber = slotNumber, sv_slotLeaderPK = slotLeaderPK,
           sv_validatorsType = validatorsType\<rparr>)))"

section \<open>metadata/epochblockhashes.go\<close>

text \<open>\<^verbatim>\<open>reflect.DeepEqual\<close> of a \<^verbatim>\<open>[]byte\<close> and a \<^verbatim>\<open>common.Hash\<close>: values of distinct types are never
  deeply equal.\<close>

definition DeepEqual_slice_Hash :: "bytes \<Rightarrow> Hash \<Rightarrow> bool" where
  "DeepEqual_slice_Hash stored headerHash = False"

definition AddHeaderHashBySlotNumber :: "DevConfig \<Rightarrow> Hash \<Rightarrow> u64 \<Rightarrow> EpochBlockHashes
    \<Rightarrow> (goerr, EpochBlockHashes) outcome" where
  "AddHeaderHashBySlotNumber cfg headerHash slotNumber e =
     (if slotNumber div BlocksPerEpoch cfg \<noteq> eb_Epoch e
      then Err ''SlotNumber doesn't belong to epoch''
      else
        let startSlotNumber = eb_Epoch e * BlocksPerEpoch cfg;
            i = unat (slotNumber - startSlotNumber)
        in and_then (index (eb_BlockHashesBySlotNumber e) i) (\<lambda>bh.
             if bh_SlotNumber bh \<noteq> slotNumber then Err ''Unexpected slot number''
             else if list_ex (\<lambda>h. DeepEqual_slice_Hash h headerHash) (bh_HeaderHashes bh)
             then Err ''Headerhash already exists''
             else Ok (e\<lparr>eb_BlockHashesBySlotNumber := (eb_BlockHashesBySlotNumber e)
                        [i := bh\<lparr>bh_HeaderHashes := bh_HeaderHashes bh @ [headerHash]\<rparr>]\<rparr>)))"

definition eb_Commit ::
    "'v Codec \<Rightarrow> EpochBlockHashes \<Rightarrow> 'v bucket \<Rightarrow> (goerr, 'v bucket) outcome" where
  "eb_Commit K e b = put_msg (pb_EpochBlockHashes K) (GetEpochBlockHashesKey (eb_Epoch e)) e b"

definition NewEpochBlockHashes :: "DevConfig \<Rightarrow> u64 \<Rightarrow> EpochBlockHashes" where
  "NewEpochBlockHashes cfg epoch =
     \<lparr>eb_Epoch = epoch,
      eb_BlockHashesBySlotNumber =
        map (\<lambda>i. \<lparr>bh_SlotNumber = epoch * BlocksPerEpoch cfg + of_nat i, bh_HeaderHashes = []\<rparr>)
          [0..<unat (BlocksPerEpoch cfg)]\<rparr>"

definition GetEpochBlockHashes ::
    "'v Codec \<Rightarrow> 'v DB \<Rightarrow> u64 \<Rightarrow> (goerr, EpochBlockHashes) outcome" where
  "GetEpochBlockHashes K db epoch =
     DB_load (pb_EpochBlockHashes K) db (GetEpochBlockHashesKey epoch)"

section \<open>The validator set\<close>

text \<open>The contract the stake processing relies on: the set is a list with no duplicates, adding
  makes a validator a member, removing makes it none, and neither touches the others.\<close>

locale validator_set =
  fixes members :: "'s \<Rightarrow> 'k list"
    and add :: "'k \<Rightarrow> 's \<Rightarrow> 's"
    and remove :: "'k \<Rightarrow> 's \<Rightarrow> 's"
  assumes distinct_add: "distinct (members s) \<Longrightarrow> distinct (members (add k s))"
    and distinct_remove: "distinct (members s) \<Longrightarrow> distinct (members (remove k s))"
    and set_add: "set (members (add k s)) = insert k (set (members s))"
    and set_remove: "distinct (members s) \<Longrightarrow>
      set (members (remove k s)) = set (members s) - {k}"
begin

definition updates :: "('k \<times> bool) list \<Rightarrow> 's \<Rightarrow> 's" where
  "updates us s = fold (\<lambda>(k, staked). if staked then add k else remove k) us s"

lemma distinct_updates: "distinct (members s) \<Longrightarrow> distinct (members (updates us s))"
  unfolding updates_def
proof (induction us arbitrary: s)
  case (Cons u us)
  then show ?case by (cases u; cases "snd u") (auto simp: distinct_add distinct_remove)
qed simp

lemma set_updates:
  assumes "distinct (members s)" and "distinct (map fst us)"
  shows "set (members (updates us s)) =
    (set (members s) - fst ` set us) \<union> {k. (k, True) \<in> set us}"
  using assms unfolding updates_def
proof (induction us arbitrary: s)
  case (Cons u us)
  obtain k st where u: "u = (k, st)" by (cases u)
  have k: "k \<notin> fst ` set us" "(k, True) \<notin> set us" "(k, False) \<notin> set us"
    using Cons.prems(2) u by force+
  show ?case
    using Cons k u by (cases st) (auto simp: distinct_add distinct_remove set_add set_remove)
qed simp

end

interpretation validators: validator_set em_Validators AddValidators RemoveValidators
proof unfold_locales
  fix s k
  show "distinct (em_Validators s) \<Longrightarrow> distinct (em_Validators (AddValidators k s))"
    by (auto simp: AddValidators_def list_ex_iff)
  show "distinct (em_Validators s) \<Longrightarrow> distinct (em_Validators (RemoveValidators k s))"
    using distinct_remove_at [of "\<lambda>x. x" "em_Validators s"]
    by (auto simp: RemoveValidators_def split: option.splits)
  show "set (em_Validators (AddValidators k s)) = insert k (set (em_Validators s))"
    by (auto simp: AddValidators_def list_ex_iff)
  show "distinct (em_Validators s) \<Longrightarrow>
      set (em_Validators (RemoveValidators k s)) = set (em_Validators s) - {k}"
    using find_index_Some [of "\<lambda>v. k = v" "em_Validators s"]
      find_index_None [of "\<lambda>v. k = v" "em_Validators s"]
    by (auto simp: RemoveValidators_def set_remove_at_distinct split: option.splits)
qed

section \<open>Every validator is assigned to one slot\<close>

text \<open>What slot \<open>j\<close> holds after \<open>k\<close> rounds.\<close>

definition slot_after :: "nat \<Rightarrow> nat \<Rightarrow> nat \<Rightarrow> nat \<Rightarrow> SlotInfo option" where
  "slot_after bpe len k j =
     (if 0 < k \<and> j < len
      then Some \<lparr>SlotLeader = of_nat j,
        Attestors = map (\<lambda>i. of_nat (i * bpe + j)) (filter (\<lambda>i. i * bpe + j < len) [1..<k])\<rparr>
      else None)"

lemma slot_after_Suc_beyond:
  "len \<le> k * bpe + j \<Longrightarrow> slot_after bpe len (Suc k) j = slot_after bpe len k j"
  by (cases "k = 0") (auto simp: slot_after_def)

lemma allot_slot_step:
  assumes "j < bpe" and "k * bpe + j < len" and "length slots = bpe"
    and "slots ! j = slot_after bpe len k j"
  shows "allot_slot bpe k j slots = Ok (slots[j := slot_after bpe len (Suc k) j])"
proof (cases "k = 0")
  case True
  then show ?thesis using assms by (simp add: allot_slot_def slot_after_def)
next
  case False
  then have "bpe \<le> k * bpe" by simp
  then have "j < len" using assms(1,2) by linarith
  then show ?thesis
    using assms False by (simp add: allot_slot_def slot_after_def index_def deref_def)
qed

lemma allot_round_prefix:
  assumes "n \<le> min bpe (len - k * bpe)"
  shows "fold_outcome (allot_slot bpe k) [0..<n] (map (slot_after bpe len k) [0..<bpe]) =
    Ok (map (\<lambda>j. if j < n then slot_after bpe len (Suc k) j else slot_after bpe len k j) [0..<bpe])"
  using assms
proof (induction n)
  case 0
  then show ?case by simp
next
  case (Suc n)
  define xs where "xs = map (\<lambda>j. if j < n then slot_after bpe len (Suc k) j
    else slot_after bpe len k j) [0..<bpe]"
  have IH: "fold_outcome (allot_slot bpe k) [0..<n] (map (slot_after bpe len k) [0..<bpe]) = Ok xs"
    using Suc by (simp add: xs_def)
  have n: "n < bpe" "k * bpe + n < len" using Suc.prems by auto
  have "allot_slot bpe k n xs = Ok (xs[n := slot_after bpe len (Suc k) n])"
    by (rule allot_slot_step) (use n in \<open>simp_all add: xs_def\<close>)
  moreover have "xs[n := slot_after bpe len (Suc k) n] =
      map (\<lambda>j. if j < Suc n then slot_after bpe len (Suc k) j else slot_after bpe len k j) [0..<bpe]"
    by (rule nth_equalityI) (auto simp: xs_def nth_list_update less_Suc_eq)
  ultimately show ?case using IH by (simp add: fold_outcome_append)
qed

lemma allot_round_Ok:
  "allot_round bpe len k (map (slot_after bpe len k) [0..<bpe]) =
    Ok (map (slot_after bpe len (Suc k)) [0..<bpe])"
proof -
  have "(if j < min bpe (len - k * bpe) then slot_after bpe len (Suc k) j
      else slot_after bpe len k j) = slot_after bpe len (Suc k) j" if "j < bpe" for j
    using that slot_after_Suc_beyond [of len k bpe j] by auto
  then have "map (\<lambda>j. if j < min bpe (len - k * bpe) then slot_after bpe len (Suc k) j
      else slot_after bpe len k j) [0..<bpe] = map (slot_after bpe len (Suc k)) [0..<bpe]"
    by (intro map_cong) auto
  then show ?thesis unfolding allot_round_def by (simp only: allot_round_prefix [OF order_refl])
qed

lemma allot_rounds_Ok:
  "fold_outcome (allot_round bpe len) [0..<k] (replicate bpe None) =
    Ok (map (slot_after bpe len k) [0..<bpe])"
proof (induction k)
  case 0
  have "map (slot_after bpe len 0) [0..<bpe] = replicate bpe None"
    by (rule nth_equalityI) (simp_all add: slot_after_def)
  then show ?case by simp
next
  case (Suc k)
  then show ?case by (simp add: fold_outcome_append allot_round_Ok)
qed

lemma AllotSlots_Ok:
  assumes "shuffle seed (em_Validators e) \<noteq> []"
  shows "AllotSlots cfg shuffle seed epoch h e =
    Ok (e\<lparr>em_Epoch := epoch, em_PrevSlotLastBlockHeaderHash := h,
        em_Validators := shuffle seed (em_Validators e),
        em_SlotInfo := (let bpe = unat (BlocksPerEpoch cfg);
                            len = length (shuffle seed (em_Validators e))
          in map (slot_after bpe len ((len + bpe - 1) div bpe)) [0..<bpe])\<rparr>)"
  using assms by (simp add: AllotSlots_def Let_def allot_rounds_Ok)

text \<open>The validator indices of a slot.\<close>

definition slot_indices :: "SlotInfo option \<Rightarrow> u64 list" where
  "slot_indices p = (case p of None \<Rightarrow> [] | Some si \<Rightarrow> SlotLeader si # Attestors si)"

lemma residue_class_list:
  assumes "j < bpe" and "len \<le> k * bpe"
  shows "filter (\<lambda>v. v mod bpe = j) [0..<len] =
    map (\<lambda>i. i * bpe + j) (filter (\<lambda>i. i * bpe + j < len) [0..<k])"
proof (rule sorted_distinct_set_unique)
  have mono: "strict_mono (\<lambda>i. i * bpe + j)" using assms(1) by (auto simp: strict_mono_def)
  show "sorted (map (\<lambda>i. i * bpe + j) (filter (\<lambda>i. i * bpe + j < len) [0..<k]))"
    using mono by (auto simp: sorted_map intro!: sorted_wrt_filter
      sorted_wrt_mono_rel [OF _ sorted_wrt_upt])
  show "distinct (map (\<lambda>i. i * bpe + j) (filter (\<lambda>i. i * bpe + j < len) [0..<k]))"
    using assms(1) by (auto simp: distinct_map inj_on_def)
  have "v div bpe < k" if "v < len" for v
    using that assms by (intro less_mult_imp_div_less) linarith
  then show "set (filter (\<lambda>v. v mod bpe = j) [0..<len]) =
      set (map (\<lambda>i. i * bpe + j) (filter (\<lambda>i. i * bpe + j < len) [0..<k]))"
    using assms(1) by (auto simp: image_iff) (metis div_mult_mod_eq)
qed (auto intro!: sorted_wrt_filter)

lemma round_up_div: "0 < bpe \<Longrightarrow> len \<le> (len + bpe - 1) div bpe * (bpe :: nat)"
  using div_mult_mod_eq [of "len + bpe - 1" bpe] mod_less_divisor [of bpe "len + bpe - 1"]
  by linarith

lemma slot_indices_after:
  assumes "0 < bpe" and "0 < len" and "j < bpe"
  shows "slot_indices (slot_after bpe len ((len + bpe - 1) div bpe) j) =
    map of_nat (filter (\<lambda>v. v mod bpe = j) [0..<len])"
proof -
  define k where "k = (len + bpe - 1) div bpe"
  have k: "0 < k" using assms by (simp add: k_def div_greater_zero_iff)
  have f: "filter (\<lambda>v. v mod bpe = j) [0..<len] =
      map (\<lambda>i. i * bpe + j) (filter (\<lambda>i. i * bpe + j < len) (0 # [1..<k]))"
    using residue_class_list [OF assms(3) round_up_div [OF assms(1)]] k
    by (simp add: k_def upt_conv_Cons)
  have "len \<le> j \<Longrightarrow> filter (\<lambda>i. i * bpe + j < len) [1..<k] = []"
    by (auto simp: filter_empty_conv)
  then show ?thesis
    using k f unfolding k_def [symmetric] by (auto simp: slot_indices_def slot_after_def)
qed

lemma count_list_distinct: "distinct xs \<Longrightarrow> count_list xs x = (if x \<in> set xs then 1 else 0)"
  by (induction xs) auto

text \<open>C18. Slot allotment with at least one validator never fails, keeps the validators up to order,
  makes one entry a slot, and assigns every validator exactly once: the validator with index \<open>v\<close> is
  a member of slot \<open>v mod BlocksPerEpoch\<close> and of no other.\<close>

theorem AllotSlots_assigns_once:
  assumes "mset (shuffle seed (em_Validators e)) = mset (em_Validators e)"
    and "em_Validators e \<noteq> []" and "0 < BlocksPerEpoch cfg"
    and "length (em_Validators e) < 2 ^ 64"
  shows "\<exists>e'. AllotSlots cfg shuffle seed epoch h e = Ok e' \<and>
    mset (em_Validators e') = mset (em_Validators e) \<and>
    length (em_SlotInfo e') = unat (BlocksPerEpoch cfg) \<and>
    (\<forall>v < length (em_Validators e). \<forall>j < unat (BlocksPerEpoch cfg).
      count_list (slot_indices (em_SlotInfo e' ! j)) (of_nat v) =
        (if j = v mod unat (BlocksPerEpoch cfg) then 1 else 0))"
proof -
  define bpe where "bpe = unat (BlocksPerEpoch cfg)"
  define len where "len = length (shuffle seed (em_Validators e))"
  have len: "len = length (em_Validators e)" using assms(1) by (metis len_def size_mset)
  have ne: "shuffle seed (em_Validators e) \<noteq> []" using assms(1,2) by (metis mset_zero_iff)
  have pos: "0 < bpe" "0 < len"
    using assms(2,3) by (simp_all add: bpe_def len word_less_nat_alt)
  have inj: "inj_on (of_nat :: nat \<Rightarrow> u64) {0..<len}"
    using assms(4) len by (auto simp: inj_on_def of_nat_inverse dest!: arg_cong [of _ _ unat]
      simp: unat_of_nat)
  have once: "count_list (map (of_nat :: nat \<Rightarrow> u64) (filter (\<lambda>v. v mod bpe = j) [0..<len])) (of_nat v)
      = (if j = v mod bpe then 1 else 0)" if "v < len" for v j
  proof -
    have "distinct (map (of_nat :: nat \<Rightarrow> u64) (filter (\<lambda>v. v mod bpe = j) [0..<len]))"
      using inj by (auto simp: distinct_map intro: inj_on_subset)
    moreover have "of_nat v \<in> set (map (of_nat :: nat \<Rightarrow> u64) (filter (\<lambda>v. v mod bpe = j) [0..<len]))
        \<longleftrightarrow> v mod bpe = j"
      using inj_on_image_mem_iff [OF inj, of v "set (filter (\<lambda>v. v mod bpe = j) [0..<len])"] that
      by (auto simp: subset_iff)
    ultimately show ?thesis by (simp only: count_list_distinct) simp
  qed
  show ?thesis
    using AllotSlots_Ok [where shuffle = shuffle and seed = seed and e = e and cfg = cfg, OF ne]
      assms(1) pos once slot_indices_after [of bpe len]
    by (simp add: Let_def flip: bpe_def len_def len)
qed

text \<open>A small configuration and validator set on which the witnesses evaluate.\<close>

definition small_config :: DevConfig where
  "small_config = GetDevConfig\<lparr>BlocksPerEpoch := 3\<rparr>"

definition four_validators :: EpochMetaData where
  "four_validators = NewEpochMetaData 0 zero_hash [[1], [2], [3], [4]]"

theorem AllotSlots_assigns_once_witness:
  "\<exists>e'. AllotSlots small_config (\<lambda>_. rev) 7 1 zero_hash four_validators = Ok e' \<and>
    mset (em_Validators e') = {#[1], [2], [3], [4]#} \<and>
    count_list (slot_indices (em_SlotInfo e' ! 0)) 3 = 1 \<and>
    count_list (slot_indices (em_SlotInfo e' ! 1)) 3 = 0"
proof -
  have v: "em_Validators four_validators = [[1], [2], [3], [4]]"
    by (simp add: four_validators_def NewEpochMetaData_def)
  have bpe: "BlocksPerEpoch small_config = 3" by (simp add: small_config_def)
  obtain e' where e': "AllotSlots small_config (\<lambda>_. rev) 7 1 zero_hash four_validators = Ok e'"
    "mset (em_Validators e') = mset [[1], [2], [3], [4]]"
    and c: "\<forall>v < 4. \<forall>j < 3. count_list (slot_indices (em_SlotInfo e' ! j)) (of_nat v) =
        (if j = v mod 3 then 1 else 0)"
    using AllotSlots_assigns_once [of "\<lambda>_. rev" 7 four_validators small_config 1 zero_hash]
    by (auto simp: v bpe)
  show ?thesis using e' c [rule_format, of 3 0] c [rule_format, of 3 1] by auto
qed

text \<open>C34. With fewer validators than slots in an epoch the allotment leaves the slots past the last
  validator nil, and asking for the validators of such a slot panics.\<close>

theorem AllotSlots_leaves_nil_slots:
  assumes "mset (shuffle seed (em_Validators e)) = mset (em_Validators e)"
    and "em_Validators e \<noteq> []"
    and "length (em_Validators e) \<le> unat (slot mod BlocksPerEpoch cfg)"
    and "0 < BlocksPerEpoch cfg"
  shows "\<exists>e'. AllotSlots cfg shuffle seed epoch h e = Ok e' \<and>
    em_SlotInfo e' ! unat (slot mod BlocksPerEpoch cfg) = None \<and>
    NewSlotValidatorsMetaData cfg slot e' = Panic"
proof -
  have ne: "shuffle seed (em_Validators e) \<noteq> []" using assms(1,2) by (metis mset_zero_iff)
  have len: "length (shuffle seed (em_Validators e)) = length (em_Validators e)"
    using assms(1) by (metis size_mset)
  have j: "unat (slot mod BlocksPerEpoch cfg) < unat (BlocksPerEpoch cfg)"
    using assms(4) by (simp add: unat_mod word_less_nat_alt)
  show ?thesis
    using AllotSlots_Ok [where shuffle = shuffle and seed = seed and e = e and cfg = cfg, OF ne]
      j assms(3)
    by (simp add: Let_def len slot_after_def NewSlotValidatorsMetaData_def slot_info_def index_def
        deref_def)
qed

theorem AllotSlots_leaves_nil_slots_witness:
  "\<exists>e'. AllotSlots GetDevConfig (\<lambda>_. rev) 7 1 zero_hash four_validators = Ok e' \<and>
    NewSlotValidatorsMetaData GetDevConfig 150 e' = Panic"
proof -
  have v: "em_Validators four_validators = [[1], [2], [3], [4]]"
    by (simp add: four_validators_def NewEpochMetaData_def)
  have bpe: "BlocksPerEpoch GetDevConfig = 100" by (simp add: GetDevConfig_def)
  show ?thesis
    using AllotSlots_leaves_nil_slots [of "\<lambda>_. rev" 7 four_validators 150 GetDevConfig 1 zero_hash]
    by (auto simp: v bpe)
qed

section \<open>Which record an epoch is read from\<close>





section \<open>Block hashes of an epoch\<close>

text \<open>The duplicate check of \<^verbatim>\<open>AddHeaderHashBySlotNumber\<close> never fires: adding to a fresh epoch
  record the hash of any slot of the epoch succeeds twice, and the hash is then stored twice.\<close>

theorem AddHeaderHash_duplicates:
  assumes "slot div BlocksPerEpoch cfg = epoch" and "0 < BlocksPerEpoch cfg"
  shows "\<exists>e1 e2. AddHeaderHashBySlotNumber cfg h slot (NewEpochBlockHashes cfg epoch) = Ok e1 \<and>
    AddHeaderHashBySlotNumber cfg h slot e1 = Ok e2 \<and>
    bh_HeaderHashes (eb_BlockHashesBySlotNumber e2 ! unat (slot mod BlocksPerEpoch cfg)) = [h, h]"
proof -
  define i where "i = unat (slot mod BlocksPerEpoch cfg)"
  have i: "i < unat (BlocksPerEpoch cfg)"
    using assms(2) by (simp add: i_def unat_mod word_less_nat_alt)
  have m: "slot - epoch * BlocksPerEpoch cfg = slot mod BlocksPerEpoch cfg"
    using assms(1) by (auto simp: minus_div_mult_eq_mod)
  have s: "epoch * BlocksPerEpoch cfg + of_nat i = slot"
    using m by (auto simp: i_def algebra_simps)
  show ?thesis
    using i s by (simp add: AddHeaderHashBySlotNumber_def NewEpochBlockHashes_def Let_def assms(1)
        index_def m DeepEqual_slice_Hash_def list_ex_iff flip: i_def)
qed

theorem AddHeaderHash_duplicates_witness:
  "\<exists>e1 e2. AddHeaderHashBySlotNumber GetDevConfig zero_hash 205 (NewEpochBlockHashes GetDevConfig 2)
      = Ok e1 \<and> AddHeaderHashBySlotNumber GetDevConfig zero_hash 205 e1 = Ok e2"
proof -
  have "(205::u64) div BlocksPerEpoch GetDevConfig = 2" "0 < BlocksPerEpoch GetDevConfig"
    by (simp_all add: GetDevConfig_def)
  from AddHeaderHash_duplicates [OF this, of zero_hash] show ?thesis by blast
qed

end
