(* ===== verification/Zond_StateContext.thy ===== *)
theory Zond_StateContext
  imports Zond_Epoch
begin

text \<open>
  The context a block is processed in (\<^verbatim>\<open>state/statecontext.go\<close>): the flags of the slot's
  validators, the stake they back the block with, and the finalization of a path of blocks.
\<close>

section \<open>The context\<close>

record 'v StateContext =
  sc_db :: "'v DB"
  sc_slotNumber :: u64
  sc_blockProposer :: bytes
  sc_finalizedHeaderHash :: Hash
  sc_parentBlockHeaderHash :: Hash
  sc_blockHeaderHash :: Hash
  sc_partialBlockSigningHash :: Hash
  sc_blockSigningHash :: Hash
  sc_currentBlockTotalStakeAmount :: int
  sc_validatorsFlag :: "string \<Rightarrow> bool option"
  sc_epochMetaData :: EpochMetaData
  sc_epochBlockHashes :: EpochBlockHashes
  sc_mainChainMetaData :: MainChainMetaData
  sc_totalTransactionFee :: u64

definition AddTransactionFee :: "u64 \<Rightarrow> 'v StateContext \<Rightarrow> 'v StateContext" where
  "AddTransactionFee fee s = s\<lparr>sc_totalTransactionFee := sc_totalTransactionFee s + fee\<rparr>"

definition SetPartialBlockSigningHash :: "Hash \<Rightarrow> 'v StateContext \<Rightarrow> 'v StateContext" where
  "SetPartialBlockSigningHash p s = s\<lparr>sc_partialBlockSigningHash := p\<rparr>"

definition processValidatorStakeAmount :: "DevConfig \<Rightarrow> int \<Rightarrow> 'v StateContext
    \<Rightarrow> (goerr, 'v StateContext) outcome" where
  "processValidatorStakeAmount cfg stakeBalance s =
     (let requiredStakeAmount = big_NewInt_int64 (StakeAmount cfg) in
      if stakeBalance < requiredStakeAmount then Err ''Invalid stake balance''
      else Ok (s\<lparr>sc_currentBlockTotalStakeAmount :=
                   sc_currentBlockTotalStakeAmount s + requiredStakeAmount\<rparr>))"

definition ProcessAttestorsFlag :: "DevConfig \<Rightarrow> bytes \<Rightarrow> int \<Rightarrow> 'v StateContext
    \<Rightarrow> (goerr, 'v StateContext) outcome" where
  "ProcessAttestorsFlag cfg attestorDilithiumPK stakeBalance s =
     (if sc_slotNumber s = 0 then Ok s
      else
        let str = BytesToHexStr attestorDilithiumPK in
        case sc_validatorsFlag s str of
          None \<Rightarrow> Err ''attestor is not assigned to attest at this slot number''
        | Some True \<Rightarrow> Err ''attestor already attested for this slot number''
        | Some False \<Rightarrow>
            and_then (processValidatorStakeAmount cfg stakeBalance s) (\<lambda>s1.
              Ok (s1\<lparr>sc_validatorsFlag := (sc_validatorsFlag s1)(str \<mapsto> True)\<rparr>)))"

definition ProcessBlockProposerFlag :: "DevConfig \<Rightarrow> bytes \<Rightarrow> int \<Rightarrow> 'v StateContext
    \<Rightarrow> (goerr, 'v StateContext) outcome" where
  "ProcessBlockProposerFlag cfg blockProposerDilithiumPK stakeBalance s =
     (if sc_slotNumber s = 0 then Ok s
      else
        and_then (slot_info cfg (sc_slotNumber s) (sc_epochMetaData s)) (\<lambda>slotInfo.
        and_then (index (em_Validators (sc_epochMetaData s)) (unat (SlotLeader slotInfo)))
          (\<lambda>slotLeader.
        if slotLeader \<noteq> blockProposerDilithiumPK then Err ''unexpected block proposer''
        else
          let str = BytesToHexStr blockProposerDilithiumPK in
          case sc_validatorsFlag s str of
            None \<Rightarrow> Err ''block proposer is not assigned to this slot number''
          | Some True \<Rightarrow> Err ''block proposer has already been processed''
          | Some False \<Rightarrow>
              and_then (processValidatorStakeAmount cfg stakeBalance s) (\<lambda>s1.
                Ok (s1\<lparr>sc_validatorsFlag := (sc_validatorsFlag s1)(str \<mapsto> True)\<rparr>)))))"

definition PrepareValidators :: "bytes \<Rightarrow> 'v StateContext \<Rightarrow> 'v StateContext" where
  "PrepareValidators dilithiumPK s =
     s\<lparr>sc_validatorsFlag := (sc_validatorsFlag s)(BytesToHexStr dilithiumPK \<mapsto> False)\<rparr>"

text \<open>The flags of a slot's validators, all unset: first the attestors', then the leader's.\<close>

definition flag_attestors :: "EpochMetaData \<Rightarrow> u64 list \<Rightarrow> (goerr, string \<Rightarrow> bool option) outcome" where
  "flag_attestors e attestors =
     fold_outcome (\<lambda>attestorsIndex flags.
       and_then (index (em_Validators e) (unat attestorsIndex)) (\<lambda>pk.
         Ok (flags(BytesToHexStr pk \<mapsto> False)))) attestors Map.empty"

definition slot_flags :: "DevConfig \<Rightarrow> u64 \<Rightarrow> EpochMetaData
    \<Rightarrow> (goerr, string \<Rightarrow> bool option) outcome" where
  "slot_flags cfg slotNumber e =
     (if slotNumber > 0
      then and_then (slot_info cfg slotNumber e) (\<lambda>slotInfo.
           and_then (flag_attestors e (Attestors slotInfo)) (\<lambda>flags.
           and_then (index (em_Validators e) (unat (SlotLeader slotInfo))) (\<lambda>pk.
             Ok (flags(BytesToHexStr pk \<mapsto> False)))))
      else Ok Map.empty)"

definition NewStateContext :: "'v Codec \<Rightarrow> DevConfig \<Rightarrow> 'v DB \<Rightarrow> u64 \<Rightarrow> bytes \<Rightarrow> Hash \<Rightarrow> Hash \<Rightarrow> Hash
    \<Rightarrow> Hash \<Rightarrow> Hash \<Rightarrow> EpochMetaData \<Rightarrow> (goerr, 'v StateContext) outcome" where
  "NewStateContext K cfg db slotNumber blockProposer finalizedHeaderHash parentBlockHeaderHash
     blockHeaderHash partialBlockSigningHash blockSigningHash epochMetaData =
     and_then (GetMainChainMetaData K db) (\<lambda>mainChainMetaData.
       let epoch = slotNumber div BlocksPerEpoch cfg in
       and_then (case GetEpochBlockHashes K db epoch of
                   Err _ \<Rightarrow> Ok (NewEpochBlockHashes cfg epoch) | r \<Rightarrow> r) (\<lambda>epochBlockHashes.
       and_then (slot_flags cfg slotNumber epochMetaData) (\<lambda>validatorsFlag.
         Ok \<lparr>sc_db = db, sc_slotNumber = slotNumber, sc_blockProposer = blockProposer,
             sc_finalizedHeaderHash = finalizedHeaderHash,
             sc_parentBlockHeaderHash = parentBlockHeaderHash,
             sc_blockHeaderHash = blockHeaderHash,
             sc_partialBlockSigningHash = partialBlockSigningHash,
             sc_blockSigningHash = blockSigningHash,
             sc_currentBlockTotalStakeAmount = 0,
             sc_validatorsFlag = validatorsFlag,
             sc_epochMetaData = epochMetaData, sc_epochBlockHashes = epochBlockHashes,
             sc_mainChainMetaData = mainChainMetaData, sc_totalTransactionFee = 0\<rparr>)))"

section \<open>Finalization\<close>

text \<open>
  The body of the write transaction of \<^verbatim>\<open>Finalize\<close>, oldest block first: the block's bucket is
  copied into the main bucket, the parent must be the block's parent, and the parent is stored
  with the block as its finalized child. A missing block bucket is a nil pointer.
\<close>

fun finalize_blocks :: "'v Codec \<Rightarrow> 'v DB \<Rightarrow> BlockMetaData list \<Rightarrow> BlockMetaData \<Rightarrow> 'v bucket
    \<Rightarrow> (goerr, 'v bucket) outcome" where
  "finalize_blocks K db [] parent mainBucket = Ok mainBucket"
| "finalize_blocks K db (bm # bms) parent mainBucket =
     and_then (deref (db (GetBlockBucketName (HeaderHash bm)))) (\<lambda>blockBucket.
       if HeaderHash parent \<noteq> ParentHeaderHash bm
       then Err ''unexpected error parent block header hash not matching''
       else and_then (bm_Commit K (UpdateFinalizedChildHeaderHash (HeaderHash bm) parent)
                        (mainBucket ++ blockBucket))
              (finalize_blocks K db bms bm))"

definition Finalize :: "'v Codec \<Rightarrow> BlockMetaData list \<Rightarrow> 'v StateContext
    \<Rightarrow> (goerr, 'v StateContext) outcome" where
  "Finalize K path s =
     (if path = [] then Panic
      else
        and_then (GetBlockMetaData K (sc_db s) (ParentHeaderHash (last path))) (\<lambda>parent.
        and_then (deref (sc_db s ''DB'')) (\<lambda>mainBucket.
        and_then (finalize_blocks K (sc_db s) (rev path) parent mainBucket) (\<lambda>mainBucket1.
          let bm = hd path;
              m = UpdateFinalizedBlockData (HeaderHash bm) (bm_SlotNumber bm)
                    (sc_mainChainMetaData s)
          in and_then (mc_Commit K m mainBucket1) (\<lambda>mainBucket2.
               Ok (s\<lparr>sc_db := with_main mainBucket2 (sc_db s),
                     sc_mainChainMetaData := m\<rparr>))))))"

section \<open>Each validator's stake counts once\<close>

inductive stake_step :: "DevConfig \<Rightarrow> 'v StateContext \<Rightarrow> 'v StateContext \<Rightarrow> bool" for cfg where
  attest: "ProcessAttestorsFlag cfg pk stake s = Ok s' \<Longrightarrow> stake_step cfg s s'"
| propose: "ProcessBlockProposerFlag cfg pk stake s = Ok s' \<Longrightarrow> stake_step cfg s s'"

definition stake_inv :: "DevConfig \<Rightarrow> 'v StateContext \<Rightarrow> bool" where
  "stake_inv cfg s \<longleftrightarrow>
     finite (dom (sc_validatorsFlag s)) \<and>
     sc_currentBlockTotalStakeAmount s =
       big_NewInt_int64 (StakeAmount cfg) * int (card {p. sc_validatorsFlag s p = Some True})"

lemma stake_inv_mark:
  assumes "stake_inv cfg s" and "sc_validatorsFlag s p = Some False"
    and "processValidatorStakeAmount cfg stake s = Ok s1"
  shows "stake_inv cfg (s1\<lparr>sc_validatorsFlag := (sc_validatorsFlag s1)(p \<mapsto> True)\<rparr>)"
proof -
  have fl: "sc_validatorsFlag s1 = sc_validatorsFlag s"
    and am: "sc_currentBlockTotalStakeAmount s1 =
      sc_currentBlockTotalStakeAmount s + big_NewInt_int64 (StakeAmount cfg)"
    using assms(3) by (auto simp: processValidatorStakeAmount_def Let_def split: if_splits)
  have "{q. ((sc_validatorsFlag s)(p \<mapsto> True)) q = Some True} =
      insert p {q. sc_validatorsFlag s q = Some True}"
    by auto
  moreover have "finite {q. sc_validatorsFlag s q = Some True}"
    using assms(1) by (auto simp: stake_inv_def dom_def elim: rev_finite_subset)
  ultimately have "card {q. ((sc_validatorsFlag s)(p \<mapsto> True)) q = Some True} =
      Suc (card {q. sc_validatorsFlag s q = Some True})"
    using assms(2) by simp
  then show ?thesis
    using assms(1) by (simp add: stake_inv_def fl am algebra_simps)
qed

lemma ProcessAttestorsFlag_Ok:
  assumes "ProcessAttestorsFlag cfg pk stake s = Ok s'" and "sc_slotNumber s \<noteq> 0"
  shows "sc_validatorsFlag s (BytesToHexStr pk) = Some False \<and>
    (\<exists>s1. processValidatorStakeAmount cfg stake s = Ok s1 \<and>
      s' = s1\<lparr>sc_validatorsFlag := (sc_validatorsFlag s1)(BytesToHexStr pk \<mapsto> True)\<rparr>)"
  using assms
  by (auto simp: ProcessAttestorsFlag_def Let_def outcome_simps split: option.splits bool.splits)

lemma ProcessBlockProposerFlag_Ok:
  assumes "ProcessBlockProposerFlag cfg pk stake s = Ok s'" and "sc_slotNumber s \<noteq> 0"
  shows "sc_validatorsFlag s (BytesToHexStr pk) = Some False \<and>
    (\<exists>s1. processValidatorStakeAmount cfg stake s = Ok s1 \<and>
      s' = s1\<lparr>sc_validatorsFlag := (sc_validatorsFlag s1)(BytesToHexStr pk \<mapsto> True)\<rparr>)"
  using assms
  by (auto simp: ProcessBlockProposerFlag_def Let_def outcome_simps
      split: option.splits bool.splits if_splits)

lemma stake_inv_step:
  assumes "stake_step cfg s s'" and "stake_inv cfg s"
  shows "stake_inv cfg s'"
  using assms(1)
proof cases
  case (attest pk stake)
  show ?thesis
  proof (cases "sc_slotNumber s = 0")
    case True
    then show ?thesis using attest assms(2) by (simp add: ProcessAttestorsFlag_def)
  next
    case False
    then show ?thesis using ProcessAttestorsFlag_Ok [OF attest] stake_inv_mark [OF assms(2)] by blast
  qed
next
  case (propose pk stake)
  show ?thesis
  proof (cases "sc_slotNumber s = 0")
    case True
    then show ?thesis using propose assms(2) by (simp add: ProcessBlockProposerFlag_def)
  next
    case False
    then show ?thesis
      using ProcessBlockProposerFlag_Ok [OF propose] stake_inv_mark [OF assms(2)] by blast
  qed
qed

lemma slot_flags_unset:
  assumes "slot_flags cfg slot e = Ok flags"
  shows "finite (dom flags) \<and> (\<forall>p. flags p \<noteq> Some True)"
proof -
  define I :: "(string \<Rightarrow> bool option) \<Rightarrow> bool" where
    "I = (\<lambda>f. finite (dom f) \<and> (\<forall>p. f p \<noteq> Some True))"
  have upd: "I f \<Longrightarrow> I (f(p \<mapsto> False))" for f p by (simp add: I_def)
  have loop: "I f" if "flag_attestors e as = Ok f" for as f
    by (rule fold_outcome_invariant [OF that [unfolded flag_attestors_def]])
      (auto simp: outcome_simps upd, simp add: I_def)
  have "I flags"
  proof (cases "slot > 0")
    case True
    then obtain as f pk where "flags = f(BytesToHexStr pk \<mapsto> False)" "flag_attestors e as = Ok f"
      using assms by (auto simp: slot_flags_def outcome_simps)
    then show ?thesis using loop upd by simp
  next
    case False
    then show ?thesis using assms by (auto simp: slot_flags_def I_def)
  qed
  then show ?thesis by (simp add: I_def)
qed

lemma stake_inv_NewStateContext:
  assumes "NewStateContext K cfg db slot pr fh ph bh pbs bs e = Ok s"
  shows "stake_inv cfg s"
proof -
  obtain flags where "slot_flags cfg slot e = Ok flags" "sc_validatorsFlag s = flags"
    "sc_currentBlockTotalStakeAmount s = 0"
    using assms by (auto simp: NewStateContext_def outcome_simps Let_def)
  then show ?thesis using slot_flags_unset [of cfg slot e flags] by (simp add: stake_inv_def)
qed

text \<open>C20. In the context of a new block, after any sequence of successful attestor and proposer
  checks the block's total stake is the stake amount times the number of validators marked: every
  validator counts once, however often it attests.\<close>

theorem stake_counts_once:
  assumes "NewStateContext K cfg db slot pr fh ph bh pbs bs e = Ok s0"
    and "(stake_step cfg)\<^sup>*\<^sup>* s0 s"
  shows "sc_currentBlockTotalStakeAmount s =
    big_NewInt_int64 (StakeAmount cfg) * int (card {p. sc_validatorsFlag s p = Some True})"
proof -
  have "stake_inv cfg s"
    using assms(2)
  proof (induction rule: rtranclp_induct)
    case base
    show ?case by (rule stake_inv_NewStateContext [OF assms(1)])
  next
    case (step y z)
    show ?case by (rule stake_inv_step [OF step(2,3)])
  qed
  then show ?thesis by (simp add: stake_inv_def)
qed

text \<open>A validator that was marked cannot be counted again in the same block, whatever its stake,
  neither as an attestor nor as the proposer, and a key that is not a validator of the slot is
  refused.\<close>

theorem stake_marked_refused:
  assumes "sc_slotNumber s \<noteq> 0" and "sc_validatorsFlag s (BytesToHexStr pk) \<noteq> Some False"
  shows "(\<forall>s'. ProcessAttestorsFlag cfg pk stake s \<noteq> Ok s') \<and>
    (\<forall>s'. ProcessBlockProposerFlag cfg pk stake s \<noteq> Ok s')"
  using ProcessAttestorsFlag_Ok [OF _ assms(1)] ProcessBlockProposerFlag_Ok [OF _ assms(1)] assms(2)
  by blast

text \<open>A slot with a leader and one attestor, on which the witnesses evaluate.\<close>

definition slot_epoch :: EpochMetaData where
  "slot_epoch = (NewEpochMetaData 0 zero_hash [[1], [2]])
     \<lparr>em_SlotInfo := [Some \<lparr>SlotLeader = 0, Attestors = []\<rparr>,
        Some \<lparr>SlotLeader = 0, Attestors = [1]\<rparr>]\<rparr>"

definition chain_db :: "wire DB" where
  "chain_db = [''DB'' \<mapsto> [GetMainChainMetaDataKey \<mapsto>
     WMainChainMetaData (NewMainChainMetaData (replicate 32 0) 0 (replicate 32 0) 0)]]"

definition slot_context :: "(goerr, wire StateContext) outcome" where
  "slot_context = NewStateContext wire_codec GetDevConfig chain_db 1 [1] zero_hash zero_hash zero_hash
     zero_hash zero_hash slot_epoch"

theorem stake_counts_once_witness:
  "\<exists>s0 s. slot_context = Ok s0 \<and> ProcessAttestorsFlag GetDevConfig [2] 20000000000000 s0 = Ok s \<and>
     sc_currentBlockTotalStakeAmount s = big_NewInt_int64 (StakeAmount GetDevConfig) *
       int (card {p. sc_validatorsFlag s p = Some True})"
proof -
  have "is_ok (and_then slot_context (ProcessAttestorsFlag GetDevConfig [2] 20000000000000))"
    by code_simp
  then obtain s0 s where s: "slot_context = Ok s0"
    "ProcessAttestorsFlag GetDevConfig [2] 20000000000000 s0 = Ok s"
    by (auto simp: is_ok_iff outcome_simps)
  from s(2) have "(stake_step GetDevConfig)\<^sup>*\<^sup>* s0 s" by (blast intro: stake_step.attest)
  from stake_counts_once [OF s(1) [unfolded slot_context_def] this] s show ?thesis by blast
qed

theorem stake_marked_refused_witness:
  "\<exists>s. and_then slot_context (ProcessAttestorsFlag GetDevConfig [2] 20000000000000) = Ok s \<and>
     \<not> is_ok (ProcessAttestorsFlag GetDevConfig [2] 20000000000000 s)"
proof -
  have "(case and_then slot_context (ProcessAttestorsFlag GetDevConfig [2] 20000000000000) of
      Ok s \<Rightarrow> sc_slotNumber s \<noteq> 0 \<and> sc_validatorsFlag s (BytesToHexStr [2]) \<noteq> Some False
    | _ \<Rightarrow> False)"
    by code_simp
  then obtain s where s: "and_then slot_context
      (ProcessAttestorsFlag GetDevConfig [2] 20000000000000) = Ok s"
    "sc_slotNumber s \<noteq> 0" "sc_validatorsFlag s (BytesToHexStr [2]) \<noteq> Some False"
    by (auto split: outcome.splits)
  from stake_marked_refused [OF s(2,3), of GetDevConfig 20000000000000] s(1)
  show ?thesis by (auto simp: is_ok_iff)
qed

section \<open>What finalization stores\<close>

text \<open>A path of blocks, oldest first, each the child of the one before; its block buckets exist and
  hold no block metadata.\<close>

fun linked :: "BlockMetaData \<Rightarrow> BlockMetaData list \<Rightarrow> bool" where
  "linked p [] \<longleftrightarrow> True"
| "linked p (bm # bms) \<longleftrightarrow> HeaderHash p = ParentHeaderHash bm \<and> linked bm bms"

definition block_buckets_ok :: "'v DB \<Rightarrow> BlockMetaData list \<Rightarrow> bool" where
  "block_buckets_ok db bms \<longleftrightarrow>
     (\<forall>bm\<in>set bms. \<exists>bb. db (GetBlockBucketName (HeaderHash bm)) = Some bb \<and>
        (\<forall>h. bb (GetBlockMetaDataKey h) = None))"

lemma meta_key_inject [simp]: "GetBlockMetaDataKey h = GetBlockMetaDataKey h' \<longleftrightarrow> h = h'"
  by (simp add: GetBlockMetaDataKey_def)

lemma HeaderHash_finalized_child [simp]:
  "HeaderHash (UpdateFinalizedChildHeaderHash h bm) = HeaderHash bm"
  by (simp add: HeaderHash_def UpdateFinalizedChildHeaderHash_def)

lemma bm_Commit_bucket:
  assumes "bm_Commit K bm b = Ok b'" and "h \<noteq> HeaderHash bm"
  shows "b' (GetBlockMetaDataKey h) = b (GetBlockMetaDataKey h)"
  using assms by (auto simp: bm_Commit_def put_msg_def outcome_simps bucket_store.get_put_other)

lemma finalize_blocks_frame:
  assumes "finalize_blocks K db bms p b = Ok b'" and "block_buckets_ok db bms"
    and "h \<notin> HeaderHash ` set (p # bms)"
  shows "b' (GetBlockMetaDataKey h) = b (GetBlockMetaDataKey h)"
  using assms
proof (induction bms arbitrary: p b)
  case (Cons bm bms)
  obtain bb b1 where bb: "db (GetBlockBucketName (HeaderHash bm)) = Some bb"
    "\<And>h. bb (GetBlockMetaDataKey h) = None"
    and b1: "bm_Commit K (UpdateFinalizedChildHeaderHash (HeaderHash bm) p) (b ++ bb) = Ok b1"
    "finalize_blocks K db bms bm b1 = Ok b'"
    using Cons.prems(1,2) by (auto simp: outcome_simps block_buckets_ok_def split: if_splits)
  have "b' (GetBlockMetaDataKey h) = b1 (GetBlockMetaDataKey h)"
    by (rule Cons.IH [OF b1(2)]) (use Cons.prems in \<open>auto simp: block_buckets_ok_def\<close>)
  also have "\<dots> = b (GetBlockMetaDataKey h)"
    using bm_Commit_bucket [OF b1(1), of h] Cons.prems(3) bb(2) by (simp add: map_add_def)
  finally show ?case .
qed simp

lemma DB_load_with_main_cong:
  "b k = b' k \<Longrightarrow> DB_load c (with_main b db) k = DB_load c (with_main b' db) k"
  by (simp add: DB_load_def DB_Get_with_main)

lemma finalize_blocks_Ok:
  assumes "roundtrips (\<lambda>_. True) (pb_BlockMetaData K)" and "linked p bms"
    and "block_buckets_ok db bms" and "distinct (map HeaderHash (p # bms))"
  shows "\<exists>b'. finalize_blocks K db bms p b = Ok b' \<and>
    (\<forall>i < length bms. DB_load (pb_BlockMetaData K) (with_main b' db)
       (GetBlockMetaDataKey (HeaderHash ((p # bms) ! i))) =
         Ok (UpdateFinalizedChildHeaderHash (HeaderHash (bms ! i)) ((p # bms) ! i)))"
  using assms(2-)
proof (induction bms arbitrary: p b)
  case (Cons bm bms)
  define p' where "p' = UpdateFinalizedChildHeaderHash (HeaderHash bm) p"
  obtain bb where bb: "db (GetBlockBucketName (HeaderHash bm)) = Some bb"
    using Cons.prems(2) by (auto simp: block_buckets_ok_def)
  obtain b1 where b1: "bm_Commit K p' (b ++ bb) = Ok b1"
    unfolding bm_Commit_def using put_msg_total [OF assms(1)] by blast
  have ok: "block_buckets_ok db bms" using Cons.prems(2) by (simp add: block_buckets_ok_def)
  obtain b' where b': "finalize_blocks K db bms bm b1 = Ok b'"
    and IH: "\<forall>i < length bms. DB_load (pb_BlockMetaData K) (with_main b' db)
       (GetBlockMetaDataKey (HeaderHash ((bm # bms) ! i))) =
         Ok (UpdateFinalizedChildHeaderHash (HeaderHash (bms ! i)) ((bm # bms) ! i))"
    using Cons.IH [OF _ ok, of bm b1] Cons.prems(1,3) by auto
  have "DB_load (pb_BlockMetaData K) (with_main b1 db) (GetBlockMetaDataKey (HeaderHash p)) = Ok p'"
    using put_msg_roundtrip [OF assms(1) TrueI b1 [unfolded bm_Commit_def]] by (simp add: p'_def)
  moreover have "b' (GetBlockMetaDataKey (HeaderHash p)) = b1 (GetBlockMetaDataKey (HeaderHash p))"
    by (rule finalize_blocks_frame [OF b' ok]) (use Cons.prems(3) in auto)
  ultimately have "DB_load (pb_BlockMetaData K) (with_main b' db)
      (GetBlockMetaDataKey (HeaderHash p)) = Ok p'"
    using DB_load_with_main_cong by metis
  then have "\<forall>i < length (bm # bms). DB_load (pb_BlockMetaData K) (with_main b' db)
       (GetBlockMetaDataKey (HeaderHash ((p # bm # bms) ! i))) =
         Ok (UpdateFinalizedChildHeaderHash (HeaderHash ((bm # bms) ! i)) ((p # bm # bms) ! i))"
    using IH by (auto simp: less_Suc_eq_0_disj p'_def)
  then show ?case using b1 b' bb Cons.prems(1) by (simp add: deref_def p'_def)
qed simp

text \<open>C17. Finalizing a linked path with distinct header hashes succeeds. Afterwards the main chain
  record names the newest block of the path as finalized, and every block from the parent of the
  oldest one on is stored with its successor as its finalized child.\<close>

theorem Finalize_links:
  assumes "codec_ok K" and "path \<noteq> []"
    and "GetBlockMetaData K (sc_db s) (ParentHeaderHash (last path)) = Ok p"
    and "linked p (rev path)" and "block_buckets_ok (sc_db s) path"
    and "distinct (map HeaderHash (p # rev path))"
  shows "\<exists>s'. Finalize K path s = Ok s' \<and>
    (\<exists>m. GetMainChainMetaData K (sc_db s') = Ok m \<and> sc_mainChainMetaData s' = m \<and>
       FinalizedBlockHeaderHash m = HeaderHash (hd path) \<and>
       mc_FinalizedBlockSlotNumber m = bm_SlotNumber (hd path) \<and>
       LastBlockHeaderHash m = LastBlockHeaderHash (sc_mainChainMetaData s)) \<and>
    (\<forall>i < length path. GetBlockMetaData K (sc_db s') (HeaderHash ((p # rev path) ! i)) =
       Ok (UpdateFinalizedChildHeaderHash (HeaderHash (rev path ! i)) ((p # rev path) ! i)))"
proof -
  have rt: "roundtrips (\<lambda>_. True) (pb_BlockMetaData K)"
    and rm: "roundtrips (\<lambda>_. True) (pb_MainChainMetaData K)"
    using assms(1) by (simp_all add: codec_ok_def)
  obtain b where b: "sc_db s ''DB'' = Some b"
    using assms(3) by (auto simp: GetBlockMetaData_def DB_load_def DB_Get_def outcome_simps)
  have ok: "block_buckets_ok (sc_db s) (rev path)"
    using assms(5) by (simp add: block_buckets_ok_def)
  obtain b1 where b1: "finalize_blocks K (sc_db s) (rev path) p b = Ok b1"
    and children: "\<forall>i < length path. DB_load (pb_BlockMetaData K) (with_main b1 (sc_db s))
       (GetBlockMetaDataKey (HeaderHash ((p # rev path) ! i))) =
         Ok (UpdateFinalizedChildHeaderHash (HeaderHash (rev path ! i)) ((p # rev path) ! i))"
    using finalize_blocks_Ok [OF rt assms(4) ok assms(6)] by auto
  define m where "m = UpdateFinalizedBlockData (HeaderHash (hd path)) (bm_SlotNumber (hd path))
    (sc_mainChainMetaData s)"
  obtain b2 where b2: "mc_Commit K m b1 = Ok b2"
    unfolding mc_Commit_def using put_msg_total [OF rm] by blast
  note put = b2 [unfolded mc_Commit_def]
  define s' where "s' = s\<lparr>sc_db := with_main b2 (sc_db s), sc_mainChainMetaData := m\<rparr>"
  have fin: "Finalize K path s = Ok s'"
    using assms(2,3) b b1 b2 by (simp add: Finalize_def deref_def Let_def s'_def m_def)
  have main: "GetMainChainMetaData K (sc_db s') = Ok m"
    using put_msg_roundtrip [OF rm TrueI put] by (simp add: GetMainChainMetaData_def s'_def)
  have keep: "GetBlockMetaData K (sc_db s') h =
      DB_load (pb_BlockMetaData K) (with_main b1 (sc_db s)) (GetBlockMetaDataKey h)" for h
    using DB_load_key_other [of _ KMainChain, simplified, OF put, of "KBlockMetaData h"]
    by (simp add: GetBlockMetaData_def s'_def)
  have "FinalizedBlockHeaderHash m = HeaderHash (hd path)"
    by (simp add: m_def UpdateFinalizedBlockData_def FinalizedBlockHeaderHash_def HeaderHash_def)
  then show ?thesis
    using fin main keep children
    by (auto simp: s'_def m_def UpdateFinalizedBlockData_def LastBlockHeaderHash_def)
qed

definition finalize_db :: "wire DB" where
  "finalize_db = two_block_db(GetBlockBucketName (replicate 32 2) \<mapsto> Map.empty)"

definition finalize_block :: BlockMetaData where
  "finalize_block = NewBlockMetaData (replicate 32 1) (replicate 32 2) 2 [] []"

definition finalize_parent :: BlockMetaData where
  "finalize_parent = NewBlockMetaData (replicate 32 0) (replicate 32 1) 1 [] []"

definition finalize_context :: "wire StateContext" where
  "finalize_context =
     \<lparr>sc_db = finalize_db, sc_slotNumber = 3, sc_blockProposer = [], sc_finalizedHeaderHash = [],
      sc_parentBlockHeaderHash = [], sc_blockHeaderHash = [], sc_partialBlockSigningHash = [],
      sc_blockSigningHash = [], sc_currentBlockTotalStakeAmount = 0, sc_validatorsFlag = Map.empty,
      sc_epochMetaData = slot_epoch, sc_epochBlockHashes = NewEpochBlockHashes GetDevConfig 0,
      sc_mainChainMetaData = NewMainChainMetaData (replicate 32 1) 1 (replicate 32 2) 2,
      sc_totalTransactionFee = 0\<rparr>"

theorem Finalize_links_witness:
  "\<exists>s'. Finalize wire_codec [finalize_block] finalize_context = Ok s' \<and>
    GetBlockMetaData wire_codec (sc_db s') (HeaderHash finalize_parent) =
      Ok (UpdateFinalizedChildHeaderHash (HeaderHash finalize_block) finalize_parent)"
proof -
  have p: "GetBlockMetaData wire_codec (sc_db finalize_context)
      (ParentHeaderHash (last [finalize_block])) = Ok finalize_parent"
    by code_simp
  have l: "linked finalize_parent (rev [finalize_block])" by code_simp
  have h: "HeaderHash finalize_block = replicate 32 2"
    by (simp add: HeaderHash_def finalize_block_def NewBlockMetaData_def)
  have b: "block_buckets_ok (sc_db finalize_context) [finalize_block]"
    by (simp add: block_buckets_ok_def finalize_context_def finalize_db_def h)
  have d: "distinct (map HeaderHash (finalize_parent # rev [finalize_block]))" by code_simp
  from Finalize_links [OF codec_ok_wire _ p l b d] show ?thesis by auto
qed

end
