(* ===== verification/Zond_Block.thy ===== *)
theory Zond_Block
  imports Zond_StateContext
begin

text \<open>
  Blocks (\<^verbatim>\<open>block/block.go\<close>, \<^verbatim>\<open>block/rewards/reward.go\<close>): the header accessors, the byte strings
  that are hashed and signed, the constructor, attesting and signing, the choice of the blocks to
  finalize, and the lookup of stored blocks. \<^verbatim>\<open>Block.header\<close> wraps the same message as
  \<^verbatim>\<open>pbData.Header\<close>, so a block is one record.
\<close>

section \<open>Headers and accessors\<close>

definition hdr_Number :: "BlockHeader \<Rightarrow> int" where
  "hdr_Number h = big_NewInt_int64 (hd_SlotNumber h)"

definition hdr_Hash :: "BlockHeader \<Rightarrow> Hash" where
  "hdr_Hash h = BytesToHash (hd_Hash h)"

definition hdr_ParentHash :: "BlockHeader \<Rightarrow> Hash" where
  "hdr_ParentHash h = BytesToHash (hd_ParentHash h)"

definition hdr_BaseFee :: "BlockHeader \<Rightarrow> int" where
  "hdr_BaseFee h = big_NewInt_int64 (hd_BaseFee h)"

definition hdr_GasUsed :: "BlockHeader \<Rightarrow> int" where
  "hdr_GasUsed h = big_NewInt_int64 (hd_GasUsed h)"

definition hdr_Timestamp :: "BlockHeader \<Rightarrow> int" where
  "hdr_Timestamp h = big_NewInt_int64 (hd_TimestampSeconds h)"

definition hdr_Root :: "BlockHeader \<Rightarrow> Hash" where
  "hdr_Root h = BytesToHash (hd_Root h)"

definition blk_Hash :: "Block \<Rightarrow> Hash" where
  "blk_Hash b = hdr_Hash (blk_Header b)"


definition blk_SlotNumber :: "Block \<Rightarrow> u64" where
  "blk_SlotNumber b = hd_SlotNumber (blk_Header b)"


definition Minter :: "Crypto \<Rightarrow> Block \<Rightarrow> (goerr, Address) outcome" where
  "Minter C b =
     and_then (index (blk_ProtocolTransactions b) 0) (\<lambda>ptx.
       Ok (GetDilithiumAddressFromUnSizedPK C (ptx_Pk ptx)))"

definition GetBlockProposer :: "Crypto \<Rightarrow> Block \<Rightarrow> (goerr, Address) outcome" where
  "GetBlockProposer C b =
     and_then (index (blk_ProtocolTransactions b) 0) (\<lambda>tx.
       Ok (GetAddressFromUnSizedPK C (ptx_Pk tx)))"

section \<open>Hashes\<close>

text \<open>\<^verbatim>\<open>binary.Write\<close> of a \<^verbatim>\<open>*big.Int\<close> writes nothing: the type has no fixed size, the call returns an
  error, and the error is dropped.\<close>

definition binary_Write_bigInt :: "int \<Rightarrow> bytes" where
  "binary_Write_bigInt x = []"

fun tx_hashes :: "Transaction list \<Rightarrow> (goerr, bytes) outcome" where
  "tx_hashes [] = Ok []"
| "tx_hashes (pbData # txs) =
     and_then (deref (ProtoToTransaction pbData)) (\<lambda>tx.
     and_then (tx_hashes txs) (\<lambda>hs. Ok (tx_Hash tx @ hs)))"

definition partialBlockHashableBytes :: "Crypto \<Rightarrow> Block \<Rightarrow> (goerr, bytes) outcome" where
  "partialBlockHashableBytes C b =
     (let h = blk_Header b in
      and_then (tx_hashes (blk_Transactions b)) (\<lambda>txHashes.
      and_then (index (blk_ProtocolTransactions b) 0) (\<lambda>ptx.
      and_then (deref (ProtoToProtocolTransaction ptx)) (\<lambda>coinBaseTx.
      and_then (ptx_GetUnsignedHash C coinBaseTx) (\<lambda>unsignedHash.
        Ok (be64 (hd_TimestampSeconds h) @ be64 (big_Uint64 (hdr_Number h))
              @ binary_Write_bigInt (hdr_BaseFee h) @ be64 (hd_GasLimit h)
              @ binary_Write_bigInt (hdr_GasUsed h) @ hdr_ParentHash h
              @ txHashes @ unsignedHash))))))"

definition PartialBlockSigningHash :: "Crypto \<Rightarrow> Block \<Rightarrow> (goerr, Hash) outcome" where
  "PartialBlockSigningHash C b =
     and_then (partialBlockHashableBytes C b) (\<lambda>tmp. Ok (BytesToHash (sha256 C tmp)))"

text \<open>The hash a protocol transaction has in a block with this partial hash.\<close>

definition ptx_hash_in :: "Crypto \<Rightarrow> Hash \<Rightarrow> ProtocolTransaction \<Rightarrow> (goerr, Hash) outcome" where
  "ptx_hash_in C h protoTX =
     and_then (deref (ProtoToProtocolTransaction protoTX)) (\<lambda>tx.
     and_then (ptx_GetSigningHash C tx h) (\<lambda>m. Ok (ptx_TxHash C tx m)))"

fun attest_hashes :: "Crypto \<Rightarrow> Hash \<Rightarrow> ProtocolTransaction list \<Rightarrow> (goerr, bytes) outcome" where
  "attest_hashes C h [] = Ok []"
| "attest_hashes C h (ptx # ptxs) =
     and_then (ptx_hash_in C h ptx) (\<lambda>txHash.
     and_then (attest_hashes C h ptxs) (\<lambda>hs. Ok (txHash @ hs)))"

definition BlockSigningHash :: "Crypto \<Rightarrow> Block \<Rightarrow> (goerr, Hash) outcome" where
  "BlockSigningHash C b =
     and_then (partialBlockHashableBytes C b) (\<lambda>tmp.
     and_then (PartialBlockSigningHash C b) (\<lambda>partial.
     and_then (attest_hashes C partial (drop 1 (blk_ProtocolTransactions b))) (\<lambda>hs.
       Ok (BytesToHash (sha256 C (tmp @ hs))))))"

definition ComputeBlockHash :: "Crypto \<Rightarrow> Block \<Rightarrow> (goerr, Hash) outcome" where
  "ComputeBlockHash C b =
     and_then (BlockSigningHash C b) (\<lambda>blockSigningHash.
     and_then (index (blk_ProtocolTransactions b) 0) (\<lambda>ptx.
     and_then (ptx_hash_in C blockSigningHash ptx) (\<lambda>txHash.
       Ok (BytesToHash (sha256 C (blockSigningHash @ txHash))))))"

section \<open>Attesting and signing\<close>

definition blk_Attest :: "Crypto \<Rightarrow> (bytes \<Rightarrow> bytes) \<Rightarrow> bytes \<Rightarrow> u64 \<Rightarrow> u64 \<Rightarrow> Block
    \<Rightarrow> (goerr, ProtocolTransaction) outcome" where
  "blk_Attest C sign pk chainID attestorNonce b =
     (let attestTx = NewAttest chainID attestorNonce in
      and_then (PartialBlockSigningHash C b) (\<lambda>h.
        Ok (ptx_Sign C sign pk attestTx (Attest_GetSigningHash C attestTx h))))"

fun attest_known :: "Crypto \<Rightarrow> Hash \<Rightarrow> Hash \<Rightarrow> ProtocolTransaction list \<Rightarrow> (goerr, bool) outcome" where
  "attest_known C partial attestTxHash [] = Ok False"
| "attest_known C partial attestTxHash (protoTX # ptxs) =
     and_then (ptx_hash_in C partial protoTX) (\<lambda>h.
       if h = attestTxHash then Ok True else attest_known C partial attestTxHash ptxs)"

definition AddAttestTx :: "Crypto \<Rightarrow> ProtocolTransaction \<Rightarrow> Block \<Rightarrow> (goerr, Block) outcome" where
  "AddAttestTx C attestTx b =
     and_then (PartialBlockSigningHash C b) (\<lambda>partial.
       let attestTxHash = ptx_TxHash C attestTx (Attest_GetSigningHash C attestTx partial) in
       if blk_ProtocolTransactions b = [] then Panic
       else and_then (attest_known C partial attestTxHash (tl (blk_ProtocolTransactions b)))
              (\<lambda>known. if known then Ok b
                else Ok (b\<lparr>blk_ProtocolTransactions :=
                            blk_ProtocolTransactions b @ [attestTx]\<rparr>)))"

definition SignByProposer :: "Crypto \<Rightarrow> (bytes \<Rightarrow> bytes) \<Rightarrow> bytes \<Rightarrow> Block \<Rightarrow> (goerr, Block) outcome"
  where
  "SignByProposer C sign pk b =
     and_then (BlockSigningHash C b) (\<lambda>blockSigningHash.
     and_then (index (blk_ProtocolTransactions b) 0) (\<lambda>ptx.
     and_then (deref (ProtoToProtocolTransaction ptx)) (\<lambda>coinBaseTx.
     and_then (ptx_GetSigningHash C coinBaseTx blockSigningHash) (\<lambda>message.
       let b1 = b\<lparr>blk_ProtocolTransactions := (blk_ProtocolTransactions b)
                    [0 := ptx_Sign C sign pk coinBaseTx message]\<rparr>
       in and_then (ComputeBlockHash C b1) (\<lambda>blockHash.
            Ok (b1\<lparr>blk_Header := (blk_Header b1)\<lparr>hd_Hash := blockHash\<rparr>\<rparr>))))))"

section \<open>Construction\<close>

definition GetBlockReward :: "DevConfig \<Rightarrow> u64" where
  "GetBlockReward cfg = 5 * ShorPerQuanta cfg"

definition GetAttestorReward :: "DevConfig \<Rightarrow> u64" where
  "GetAttestorReward cfg = 2 * ShorPerQuanta cfg"

definition NewBlock :: "DevConfig \<Rightarrow> u64 \<Rightarrow> u64 \<Rightarrow> bytes \<Rightarrow> u64 \<Rightarrow> Hash \<Rightarrow> Transaction list
    \<Rightarrow> ProtocolTransaction list \<Rightarrow> u64 \<Rightarrow> Block" where
  "NewBlock cfg chainId timestamp proposerDilithiumPK slotNumber parentHeaderHash txs protocolTxs
     signerNonce =
     (let feeReward = fold (\<lambda>tx fee. fee + tx_Gas tx * tx_GasPrice tx) txs 0;
          coinBase = NewCoinBase chainId proposerDilithiumPK (GetBlockReward cfg)
                       (GetAttestorReward cfg) feeReward signerNonce
      in \<lparr>blk_Header =
            \<lparr>hd_SlotNumber = slotNumber, hd_Hash = [], hd_ParentHash = parentHeaderHash,
             hd_BaseFee = 0, hd_GasLimit = BlockGasLimit cfg, hd_GasUsed = 0,
             hd_TimestampSeconds = timestamp, hd_Root = [], hd_TransactionsRoot = [],
             hd_ReceiptsRoot = [], hd_ProtocolTxBloom = [], hd_TxBloom = []\<rparr>,
          blk_ProtocolTransactions = coinBase # protocolTxs, blk_Transactions = txs\<rparr>)"

definition UpdateBloom :: "bytes \<Rightarrow> bytes \<Rightarrow> Block \<Rightarrow> Block" where
  "UpdateBloom protocolTxBloom txBloom b =
     b\<lparr>blk_Header := (blk_Header b)\<lparr>hd_ProtocolTxBloom := protocolTxBloom, hd_TxBloom := txBloom\<rparr>\<rparr>"

definition UpdateRoots :: "Hash \<Rightarrow> Block \<Rightarrow> Block" where
  "UpdateRoots trieRoot b = b\<lparr>blk_Header := (blk_Header b)\<lparr>hd_Root := trieRoot\<rparr>\<rparr>"

text \<open>The public keys of the block's stake transactions, each once, in order of first use.\<close>

fun pending_update :: "Transaction list \<Rightarrow> string list \<Rightarrow> bytes list" where
  "pending_update [] seen = []"
| "pending_update (tx # txs) seen =
     (case tx_Type tx of
        Some (Stake_payload a) \<Rightarrow>
          (if BytesToHexStr (tx_Pk tx) \<in> set seen then pending_update txs seen
           else tx_Pk tx # pending_update txs (BytesToHexStr (tx_Pk tx) # seen))
      | _ \<Rightarrow> pending_update txs seen)"

definition GetPendingValidatorsUpdate :: "Block \<Rightarrow> bytes list" where
  "GetPendingValidatorsUpdate b = pending_update (blk_Transactions b) []"

section \<open>Choosing what to finalize\<close>





section \<open>Stored blocks\<close>

definition GetBlock :: "'v Codec \<Rightarrow> 'v DB \<Rightarrow> Hash \<Rightarrow> (goerr, Block) outcome" where
  "GetBlock K db blockHeaderHash = DB_load (pb_Block K) db (GetBlockStorageKey blockHeaderHash)"

definition GetBlockByNumber :: "'v Codec \<Rightarrow> 'v DB \<Rightarrow> u64 \<Rightarrow> (goerr, Block) outcome" where
  "GetBlockByNumber K db slotNumber =
     and_then (DB_Get db (GetBlockHashStorageKeyBySlotNumber slotNumber)) (\<lambda>v.
       GetBlock K db (BytesToHash (unraw K v)))"

section \<open>What the block hash covers\<close>

text \<open>Change the fields of a block that no hash covers: base fee, gas used, the roots, the blooms
  and the header hash in the header, and the fee reward of the coinbase.\<close>

definition set_fee_reward :: "u64 \<Rightarrow> ProtocolTransaction \<Rightarrow> ProtocolTransaction" where
  "set_fee_reward f tx =
     (case ptx_Type tx of
        Some (CoinBase_payload b a _) \<Rightarrow> tx\<lparr>ptx_Type := Some (CoinBase_payload b a f)\<rparr>
      | _ \<Rightarrow> tx)"


lemma set_fee_reward_fields [simp]:
  "ptx_ChainId (set_fee_reward f tx) = ptx_ChainId tx"
  "ptx_Nonce (set_fee_reward f tx) = ptx_Nonce tx"
  "ptx_Pk (set_fee_reward f tx) = ptx_Pk tx"
  "ptx_Signature (set_fee_reward f tx) = ptx_Signature tx"
  "BlockProposerReward (set_fee_reward f tx) = BlockProposerReward tx"
  "AttestorReward (set_fee_reward f tx) = AttestorReward tx"
  by (simp_all add: set_fee_reward_def BlockProposerReward_def AttestorReward_def
      split: option.splits ptx_payload.splits)











section \<open>A signed block carries its hash\<close>

lemma ptx_Sign_same_key:
  assumes "ptx_Pk tx = pk"
  shows "ptx_GetUnsignedHash C (ptx_Sign C sign pk tx m) = ptx_GetUnsignedHash C tx"
    and "ptx_GetSigningHash C (ptx_Sign C sign pk tx m) h = ptx_GetSigningHash C tx h"
  using assms
  by (auto simp: ptx_Sign_def Let_def ptx_GetUnsignedHash_def ptx_GetSigningHash_def
      CoinBase_GetUnsignedHash_def CoinBase_GetSigningHash_def CoinBase_unsigned_bytes_def
      BlockProposerReward_def AttestorReward_def Attest_GetSigningHash_def
      split: option.splits ptx_payload.splits)

lemma ProtoToProtocolTransaction_Some:
  "ProtoToProtocolTransaction ptx = Some tx \<longleftrightarrow> tx = ptx \<and> ptx_Type ptx \<noteq> None"
  by (auto simp: ProtoToProtocolTransaction_def split: option.splits)

lemma ptx_Type_Sign [simp]: "ptx_Type (ptx_Sign C sign pk tx m) = ptx_Type tx"
  by (simp add: ptx_Sign_def Let_def)

lemma ProtoToProtocolTransaction_Sign:
  "ptx_Type tx \<noteq> None \<Longrightarrow>
    ProtoToProtocolTransaction (ptx_Sign C sign pk tx m) = Some (ptx_Sign C sign pk tx m)"
  by (auto simp: ProtoToProtocolTransaction_def ptx_Sign_def Let_def)

lemma index_0_Cons [simp]: "index (x # xs) 0 = Ok x"
  by (simp add: index_def)

lemma BlockSigningHash_resign:
  assumes "blk_ProtocolTransactions b = ptx # ptxs" and "ptx_Pk ptx = pk" and "ptx_Type ptx \<noteq> None"
  shows "BlockSigningHash C
      (b\<lparr>blk_Header := hdr, blk_ProtocolTransactions := ptx_Sign C sign pk ptx m # ptxs\<rparr>) =
    BlockSigningHash C (b\<lparr>blk_Header := hdr\<rparr>)"
proof -
  obtain y where "ptx_Type ptx = Some y" using assms(3) by blast
  then have "partialBlockHashableBytes C
      (b\<lparr>blk_Header := hdr, blk_ProtocolTransactions := ptx_Sign C sign pk ptx m # ptxs\<rparr>) =
    partialBlockHashableBytes C (b\<lparr>blk_Header := hdr\<rparr>)"
    using assms(1,2)
    by (simp add: partialBlockHashableBytes_def Let_def deref_def ptx_Sign_same_key(1)
        ProtoToProtocolTransaction_def)
  then show ?thesis
    using assms(1) by (simp add: BlockSigningHash_def PartialBlockSigningHash_def)
qed

lemma ComputeBlockHash_hash_field:
  "ComputeBlockHash C (b\<lparr>blk_Header := (blk_Header b)\<lparr>hd_Hash := h\<rparr>\<rparr>) = ComputeBlockHash C b"
  by (simp add: ComputeBlockHash_def BlockSigningHash_def PartialBlockSigningHash_def
      partialBlockHashableBytes_def Let_def hdr_Number_def hdr_BaseFee_def hdr_GasUsed_def
      hdr_ParentHash_def)

lemma BlockSigningHash_hash_field:
  "BlockSigningHash C (b\<lparr>blk_Header := (blk_Header b)\<lparr>hd_Hash := h\<rparr>\<rparr>) = BlockSigningHash C b"
  by (simp add: BlockSigningHash_def PartialBlockSigningHash_def
      partialBlockHashableBytes_def Let_def hdr_Number_def hdr_BaseFee_def hdr_GasUsed_def
      hdr_ParentHash_def)

lemma is_hash_ComputeBlockHash: "ComputeBlockHash C b = Ok h \<Longrightarrow> length h = 32"
  by (auto simp: ComputeBlockHash_def outcome_simps)

lemma SignByProposer_Ok:
  assumes "SignByProposer C sign pk b = Ok b'" and "blk_ProtocolTransactions b = ptx # ptxs"
  shows "\<exists>bsh m bh. BlockSigningHash C b = Ok bsh \<and> ptx_Type ptx \<noteq> None \<and>
    ptx_GetSigningHash C ptx bsh = (Ok m :: (goerr, Hash) outcome) \<and>
    ComputeBlockHash C (b\<lparr>blk_ProtocolTransactions := ptx_Sign C sign pk ptx m # ptxs\<rparr>) = Ok bh \<and>
    b' = b\<lparr>blk_ProtocolTransactions := ptx_Sign C sign pk ptx m # ptxs,
      blk_Header := (blk_Header b)\<lparr>hd_Hash := bh\<rparr>\<rparr>"
  using assms by (auto simp: SignByProposer_def outcome_simps Let_def ProtoToProtocolTransaction_Some)

text \<open>C26. A block signed by the owner of its coinbase key is self-consistent: its header hash is its
  block hash, and its first protocol transaction carries the signature over, and the hash of, its
  signing hash in this block, so that recomputing them from the signed block gives the same
  values.\<close>

theorem SignByProposer_consistent:
  assumes "SignByProposer C sign pk b = Ok b'"
    and "blk_ProtocolTransactions b = ptx # ptxs" and "ptx_Pk ptx = pk"
  shows "\<exists>bsh m. ComputeBlockHash C b' = Ok (blk_Hash b') \<and> BlockSigningHash C b' = Ok bsh \<and>
    ptx_GetSigningHash C (hd (blk_ProtocolTransactions b')) bsh =
      (Ok m :: (goerr, Hash) outcome) \<and>
    ptx_Signature (hd (blk_ProtocolTransactions b')) = sign m \<and>
    ptx_Hash (hd (blk_ProtocolTransactions b')) =
      ptx_TxHash C (hd (blk_ProtocolTransactions b')) (BytesToHash m)"
proof -
  obtain bsh m bh where *: "BlockSigningHash C b = Ok bsh" "ptx_Type ptx \<noteq> None"
    "ptx_GetSigningHash C ptx bsh = (Ok m :: (goerr, Hash) outcome)"
    "ComputeBlockHash C (b\<lparr>blk_ProtocolTransactions := ptx_Sign C sign pk ptx m # ptxs\<rparr>) = Ok bh"
    and b': "b' = b\<lparr>blk_ProtocolTransactions := ptx_Sign C sign pk ptx m # ptxs,
      blk_Header := (blk_Header b)\<lparr>hd_Hash := bh\<rparr>\<rparr>"
    using SignByProposer_Ok [OF assms(1,2)] by blast
  have "BlockSigningHash C b' = Ok bsh"
    using BlockSigningHash_resign [OF assms(2,3) *(2), where hdr = "blk_Header b"]
      BlockSigningHash_hash_field [where h = bh and b = "b\<lparr>blk_ProtocolTransactions :=
        ptx_Sign C sign pk ptx m # ptxs\<rparr>"] *(1)
    by (simp add: b')
  moreover have "ComputeBlockHash C b' = Ok (blk_Hash b')"
    using ComputeBlockHash_hash_field [where h = bh and b = "b\<lparr>blk_ProtocolTransactions :=
        ptx_Sign C sign pk ptx m # ptxs\<rparr>"] *(4) is_hash_ComputeBlockHash [OF *(4)]
    by (simp add: b' blk_Hash_def hdr_Hash_def)
  moreover have "ptx_GetSigningHash C (hd (blk_ProtocolTransactions b')) bsh =
      (Ok m :: (goerr, Hash) outcome)"
    using *(3) by (simp add: b' ptx_Sign_same_key(2) [OF assms(3)])
  ultimately show ?thesis
    by (auto simp: b' ptx_Sign_def Let_def ptx_Hash_def ptx_TxHash_def)
qed

text \<open>A block whose transactions all have a payload, with a coinbase in front, can be signed.\<close>

definition well_typed :: "Block \<Rightarrow> bool" where
  "well_typed b \<longleftrightarrow>
     (\<forall>tx\<in>set (blk_Transactions b). tx_Type tx \<noteq> None) \<and>
     (\<forall>ptx\<in>set (blk_ProtocolTransactions b). ptx_Type ptx \<noteq> None) \<and>
     (case blk_ProtocolTransactions b of [] \<Rightarrow> False
      | ptx # _ \<Rightarrow> (case ptx_Type ptx of Some (CoinBase_payload _ _ _) \<Rightarrow> True | _ \<Rightarrow> False))"

lemma tx_hashes_total: "\<forall>tx\<in>set txs. tx_Type tx \<noteq> None \<Longrightarrow> \<exists>hs. tx_hashes txs = Ok hs"
  by (induction txs) (auto simp: ProtoToTransaction_def deref_def)

lemma ptx_hash_in_total: "ptx_Type tx \<noteq> None \<Longrightarrow> \<exists>h'. ptx_hash_in C h tx = Ok h'"
  by (auto simp: ptx_hash_in_def ProtoToProtocolTransaction_def deref_def ptx_GetSigningHash_def
      split: ptx_payload.splits)

lemma attest_hashes_total:
  "\<forall>tx\<in>set txs. ptx_Type tx \<noteq> None \<Longrightarrow> \<exists>hs. attest_hashes C h txs = Ok hs"
proof (induction txs)
  case (Cons tx txs)
  then show ?case using ptx_hash_in_total [of tx C h] by auto
qed simp

lemma well_typed_Cons:
  assumes "well_typed b"
  obtains ptx ptxs b0 a0 f0 where "blk_ProtocolTransactions b = ptx # ptxs"
    "ptx_Type ptx = Some (CoinBase_payload b0 a0 f0)"
  using assms by (auto simp: well_typed_def split: list.splits option.splits ptx_payload.splits)

lemma ComputeBlockHash_total:
  assumes "well_typed b"
  shows "\<exists>bsh h. BlockSigningHash C b = Ok bsh \<and> ComputeBlockHash C b = Ok h"
proof -
  obtain ptx ptxs b0 a0 f0 where p: "blk_ProtocolTransactions b = ptx # ptxs"
    "ptx_Type ptx = Some (CoinBase_payload b0 a0 f0)"
    using well_typed_Cons [OF assms] .
  obtain hs where hs: "tx_hashes (blk_Transactions b) = Ok hs"
    using assms tx_hashes_total unfolding well_typed_def by blast
  obtain tmp where tmp: "partialBlockHashableBytes C b = Ok tmp"
    using p hs by (auto simp: partialBlockHashableBytes_def Let_def ProtoToProtocolTransaction_def
      deref_def ptx_GetUnsignedHash_def)
  obtain as where "attest_hashes C (BytesToHash (sha256 C tmp)) ptxs = Ok as"
    using assms p attest_hashes_total [of ptxs] unfolding well_typed_def by fastforce
  then obtain bsh where bsh: "BlockSigningHash C b = Ok bsh"
    using tmp p by (auto simp: BlockSigningHash_def PartialBlockSigningHash_def)
  obtain th where "ptx_hash_in C bsh ptx = Ok th" using ptx_hash_in_total [of ptx C bsh] p by auto
  then show ?thesis using bsh p by (auto simp: ComputeBlockHash_def)
qed

lemma SignByProposer_total:
  assumes "well_typed b"
  shows "\<exists>b'. SignByProposer C sign pk b = Ok b'"
proof -
  obtain ptx ptxs b0 a0 f0 where p: "blk_ProtocolTransactions b = ptx # ptxs"
    "ptx_Type ptx = Some (CoinBase_payload b0 a0 f0)"
    using well_typed_Cons [OF assms] .
  obtain bsh where bsh: "BlockSigningHash C b = Ok bsh" using ComputeBlockHash_total [OF assms] by blast
  obtain m where m: "(ptx_GetSigningHash C ptx bsh :: (goerr, Hash) outcome) = Ok m"
    using p by (auto simp: ptx_GetSigningHash_def)
  have "well_typed (b\<lparr>blk_ProtocolTransactions := ptx_Sign C sign pk ptx m # ptxs\<rparr>)"
    using assms p by (auto simp: well_typed_def)
  then obtain h where "ComputeBlockHash C
      (b\<lparr>blk_ProtocolTransactions := ptx_Sign C sign pk ptx m # ptxs\<rparr>) = Ok h"
    using ComputeBlockHash_total by blast
  then show ?thesis
    using p bsh m by (simp add: SignByProposer_def ProtoToProtocolTransaction_def deref_def Let_def)
qed

definition demo_block :: Block where
  "demo_block = NewBlock GetDevConfig 1 1000 [1, 2, 3, 4] 1 zero_hash [] [] 0"

theorem SignByProposer_consistent_witness:
  "\<exists>b'. SignByProposer witness_crypto (\<lambda>m. [0, 0, 0, 0, 1, 2, 3, 4]) [1, 2, 3, 4] demo_block = Ok b' \<and>
     ComputeBlockHash witness_crypto b' = Ok (blk_Hash b')"
proof -
  define ptx where "ptx = NewCoinBase 1 [1, 2, 3, 4] (GetBlockReward GetDevConfig)
    (GetAttestorReward GetDevConfig) 0 0"
  have p: "blk_ProtocolTransactions demo_block = ptx # []" "ptx_Pk ptx = [1, 2, 3, 4]"
    by (simp_all add: demo_block_def NewBlock_def ptx_def Let_def NewCoinBase_def)
  have "well_typed demo_block"
    by (simp add: well_typed_def demo_block_def NewBlock_def Let_def NewCoinBase_def)
  then obtain b' where b': "SignByProposer witness_crypto (\<lambda>m. [0, 0, 0, 0, 1, 2, 3, 4])
      [1, 2, 3, 4] demo_block = Ok b'"
    using SignByProposer_total by blast
  from SignByProposer_consistent [OF b' p] b' show ?thesis by auto
qed

section \<open>Attestations, stakers and the two-thirds rule\<close>

lemma partialBlockHashableBytes_append:
  assumes "blk_ProtocolTransactions b \<noteq> []"
  shows "partialBlockHashableBytes C (b\<lparr>blk_ProtocolTransactions := blk_ProtocolTransactions b @ xs\<rparr>) =
    partialBlockHashableBytes C b"
  using assms
  by (cases "blk_ProtocolTransactions b") (simp_all add: partialBlockHashableBytes_def Let_def)

lemma attest_known_append:
  assumes "attest_known C p h txs = Ok False"
  shows "attest_known C p h (txs @ [tx]) = and_then (ptx_hash_in C p tx) (\<lambda>h'. Ok (h' = h))"
  using assms
proof (induction txs)
  case Nil
  then show ?case by (cases "ptx_hash_in C p tx") auto
next
  case (Cons t ts)
  then show ?case by (auto simp: outcome_simps split: if_splits)
qed

text \<open>Adding an attestation leaves the partial signing hash that attestors sign unchanged, and
  adding it a second time changes nothing.\<close>

theorem AddAttestTx_idempotent:
  assumes "AddAttestTx C tx b = Ok b'" and "ptx_Type tx = Some Attest_payload"
  shows "PartialBlockSigningHash C b' = PartialBlockSigningHash C b \<and> AddAttestTx C tx b' = Ok b'"
proof -
  obtain partial known where p: "PartialBlockSigningHash C b = Ok partial"
    "blk_ProtocolTransactions b \<noteq> []"
    and k: "attest_known C partial (ptx_TxHash C tx (Attest_GetSigningHash C tx partial))
      (tl (blk_ProtocolTransactions b)) = Ok known"
    and b': "b' = (if known then b
      else b\<lparr>blk_ProtocolTransactions := blk_ProtocolTransactions b @ [tx]\<rparr>)"
    using assms(1) by (auto simp: AddAttestTx_def outcome_simps Let_def split: if_splits)
  have same: "PartialBlockSigningHash C b' = PartialBlockSigningHash C b"
    using b' p(2) by (simp add: PartialBlockSigningHash_def partialBlockHashableBytes_append)
  have "ptx_hash_in C partial tx = Ok (ptx_TxHash C tx (Attest_GetSigningHash C tx partial))"
    using assms(2) by (simp add: ptx_hash_in_def ProtoToProtocolTransaction_def deref_def
      ptx_GetSigningHash_def)
  then have "AddAttestTx C tx b' = Ok b'"
    using same p k b' attest_known_append [of C partial _ "tl (blk_ProtocolTransactions b)" tx]
    by (auto simp: AddAttestTx_def Let_def)
  then show ?thesis using same by simp
qed

theorem AddAttestTx_idempotent_witness:
  "\<exists>b'. AddAttestTx witness_crypto (NewAttest 1 2) demo_block = Ok b' \<and>
     AddAttestTx witness_crypto (NewAttest 1 2) b' = Ok b'"
proof -
  have "is_ok (AddAttestTx witness_crypto (NewAttest 1 2) demo_block)"
    by (simp add: AddAttestTx_def PartialBlockSigningHash_def partialBlockHashableBytes_def Let_def
      demo_block_def NewBlock_def NewCoinBase_def ProtoToProtocolTransaction_def deref_def
      ptx_GetUnsignedHash_def)
  then obtain b' where b': "AddAttestTx witness_crypto (NewAttest 1 2) demo_block = Ok b'"
    unfolding is_ok_iff by blast
  have "ptx_Type (NewAttest 1 2) = Some Attest_payload" by (simp add: NewAttest_def)
  from AddAttestTx_idempotent [OF b' this] b' show ?thesis by blast
qed

lemma pending_update_props:
  "distinct (pending_update txs seen) \<and>
   set (pending_update txs seen) =
     {tx_Pk tx |tx a. tx \<in> set txs \<and> tx_Type tx = Some (Stake_payload a)} -
     {pk. BytesToHexStr pk \<in> set seen}"
proof (induction txs arbitrary: seen)
  case (Cons tx txs)
  then show ?case by (auto split: option.splits tx_payload.splits)
qed simp

text \<open>The validators a block asks to update are the senders of its stake transactions, each
  once.\<close>

theorem GetPendingValidatorsUpdate_stakers:
  "distinct (GetPendingValidatorsUpdate b) \<and>
   set (GetPendingValidatorsUpdate b) =
     {tx_Pk tx |tx a. tx \<in> set (blk_Transactions b) \<and> tx_Type tx = Some (Stake_payload a)}"
  using pending_update_props [of "blk_Transactions b" "[]"]
  by (auto simp: GetPendingValidatorsUpdate_def)




end
