(* ===== verification/Zond_AccessList.thy ===== *)
theory Zond_AccessList
  imports Zond_Metadata
begin

text \<open>
  The access list of a transaction (\<^verbatim>\<open>core/state/access_list.go\<close>): a map from addresses to an index
  into a list of slot sets, or to -1 when no slot of the address was added. The additions and the
  deletions the journal uses to take them back are inverse to each other.
\<close>

section \<open>The list and its operations\<close>

record accessList =
  al_addresses :: "Address \<Rightarrow> int option"
  al_slots :: "Hash set list"

definition newAccessList :: accessList where
  "newAccessList = \<lparr>al_addresses = Map.empty, al_slots = []\<rparr>"

definition al_ContainsAddress :: "Address \<Rightarrow> accessList \<Rightarrow> bool" where
  "al_ContainsAddress address al \<longleftrightarrow> al_addresses al address \<noteq> None"

definition al_Contains :: "Address \<Rightarrow> Hash \<Rightarrow> accessList \<Rightarrow> (goerr, bool \<times> bool) outcome" where
  "al_Contains address slot al =
     (case al_addresses al address of
        None \<Rightarrow> Ok (False, False)
      | Some idx \<Rightarrow>
          if idx = -1 then Ok (True, False)
          else and_then (index (al_slots al) (nat idx)) (\<lambda>slotmap. Ok (True, slot \<in> slotmap)))"

definition al_Copy :: "accessList \<Rightarrow> accessList" where
  "al_Copy a = \<lparr>al_addresses = al_addresses a, al_slots = map (\<lambda>slotMap. slotMap) (al_slots a)\<rparr>"

definition al_AddAddress :: "Address \<Rightarrow> accessList \<Rightarrow> bool \<times> accessList" where
  "al_AddAddress address al =
     (if al_addresses al address \<noteq> None then (False, al)
      else (True, al\<lparr>al_addresses := (al_addresses al)(address \<mapsto> -1)\<rparr>))"

text \<open>The flags say whether the address and whether the slot is new.\<close>

definition al_AddSlot :: "Address \<Rightarrow> Hash \<Rightarrow> accessList
    \<Rightarrow> (goerr, (bool \<times> bool) \<times> accessList) outcome" where
  "al_AddSlot address slot al =
     (case al_addresses al address of
        None \<Rightarrow>
          Ok ((True, True), al\<lparr>al_addresses := (al_addresses al)(address \<mapsto> int (length (al_slots al))),
                               al_slots := al_slots al @ [{slot}]\<rparr>)
      | Some idx \<Rightarrow>
          if idx = -1
          then Ok ((False, True), al\<lparr>al_addresses := (al_addresses al)
                                       (address \<mapsto> int (length (al_slots al))),
                                    al_slots := al_slots al @ [{slot}]\<rparr>)
          else and_then (index (al_slots al) (nat idx)) (\<lambda>slotmap.
                 if slot \<notin> slotmap
                 then Ok ((False, True), al\<lparr>al_slots := (al_slots al)[nat idx := insert slot slotmap]\<rparr>)
                 else Ok ((False, False), al)))"

definition al_DeleteSlot :: "Address \<Rightarrow> Hash \<Rightarrow> accessList \<Rightarrow> (goerr, accessList) outcome" where
  "al_DeleteSlot address slot al =
     (case al_addresses al address of
        None \<Rightarrow> Panic
      | Some idx \<Rightarrow>
          if idx < 0 then Panic
          else and_then (index (al_slots al) (nat idx)) (\<lambda>slotmap.
            let slotmap1 = slotmap - {slot} in
            if slotmap1 = {}
            then Ok (al\<lparr>al_slots := take (nat idx) (al_slots al),
                        al_addresses := (al_addresses al)(address \<mapsto> -1)\<rparr>)
            else Ok (al\<lparr>al_slots := (al_slots al)[nat idx := slotmap1]\<rparr>)))"

definition al_DeleteAddress :: "Address \<Rightarrow> accessList \<Rightarrow> accessList" where
  "al_DeleteAddress address al = al\<lparr>al_addresses := (al_addresses al)(address := None)\<rparr>"

section \<open>Additions are undone by deletions\<close>

text \<open>Every index is -1 or in range, and no slot set is empty.\<close>

definition al_wf :: "accessList \<Rightarrow> bool" where
  "al_wf al \<longleftrightarrow>
     (\<forall>a i. al_addresses al a = Some i \<longrightarrow> i = -1 \<or> (0 \<le> i \<and> nat i < length (al_slots al))) \<and>
     (\<forall>m\<in>set (al_slots al). m \<noteq> {})"

lemma al_wf_new [simp]: "al_wf newAccessList"
  by (simp add: al_wf_def newAccessList_def)

lemma al_wf_AddAddress: "al_wf al \<Longrightarrow> al_wf (snd (al_AddAddress a al))"
  by (auto simp: al_wf_def al_AddAddress_def split: if_splits)

lemma al_AddAddress_undo:
  "al_AddAddress a al = (True, al') \<Longrightarrow> al_DeleteAddress a al' = al"
  by (auto simp: al_AddAddress_def al_DeleteAddress_def fun_upd_idem split: if_splits)

lemma al_AddSlot_total:
  assumes "al_wf al"
  shows "\<exists>fl al'. al_AddSlot a s al = Ok (fl, al')"
  using assms
  by (auto simp: al_AddSlot_def al_wf_def index_def split: option.splits)

lemma al_wf_new_slot:
  assumes "al_wf al"
  shows "al_wf (al\<lparr>al_addresses := (al_addresses al)(a \<mapsto> int (length (al_slots al))),
    al_slots := al_slots al @ [{s}]\<rparr>)"
  using assms unfolding al_wf_def
  by (auto simp: less_Suc_eq split: if_splits)

lemma al_wf_more_slot:
  assumes "al_wf al"
  shows "al_wf (al\<lparr>al_slots := (al_slots al)[i := insert s m]\<rparr>)"
  using assms unfolding al_wf_def
  by (auto dest!: set_update_subset_insert [THEN subsetD])

lemma al_wf_AddSlot:
  assumes "al_wf al" and "al_AddSlot a s al = Ok (fl, al')"
  shows "al_wf al'"
  using assms(2) al_wf_new_slot [OF assms(1)] al_wf_more_slot [OF assms(1)] assms(1)
  by (auto simp: al_AddSlot_def outcome_simps split: option.splits if_splits)

lemma al_AddSlot_flags:
  assumes "al_AddSlot a s al = Ok ((ac, sc), al')"
  shows "ac \<longleftrightarrow> al_addresses al a = None" and "ac \<Longrightarrow> sc" and "\<not> sc \<Longrightarrow> al' = al"
  using assms
  by (auto simp: al_AddSlot_def outcome_simps split: option.splits if_splits)

text \<open>Deleting an added slot gives the list before, with the address present when it was new.\<close>

lemma al_AddSlot_undo:
  assumes "al_wf al" and "al_AddSlot a s al = Ok ((ac, True), al')"
  shows "al_DeleteSlot a s al' =
    Ok (if ac then al\<lparr>al_addresses := (al_addresses al)(a \<mapsto> -1)\<rparr> else al)"
proof (cases "al_addresses al a")
  case None
  then show ?thesis
    using assms(2) by (auto simp: al_AddSlot_def al_DeleteSlot_def index_def)
next
  case (Some i)
  show ?thesis
  proof (cases "i = -1")
    case True
    then show ?thesis
      using assms(2) Some by (auto simp: al_AddSlot_def al_DeleteSlot_def index_def fun_upd_idem)
  next
    case False
    then have i: "0 \<le> i" "nat i < length (al_slots al)" using assms(1) Some by (auto simp: al_wf_def)
    have ne: "al_slots al ! nat i \<noteq> {}" using assms(1) i by (auto simp: al_wf_def)
    have "s \<notin> al_slots al ! nat i"
      and al': "al' = al\<lparr>al_slots := (al_slots al)[nat i := insert s (al_slots al ! nat i)]\<rparr>" and "\<not> ac"
      using assms(2) Some False i by (auto simp: al_AddSlot_def index_def split: if_splits)
    moreover have "\<not> al_slots al ! nat i \<subseteq> {s}" using ne \<open>s \<notin> al_slots al ! nat i\<close> by blast
    ultimately show ?thesis using Some i by (simp add: al_DeleteSlot_def index_def Let_def)
  qed
qed

lemma al_DeleteAddress_undo:
  "al_addresses al a = None \<Longrightarrow>
     al_DeleteAddress a (al\<lparr>al_addresses := (al_addresses al)(a \<mapsto> i)\<rparr>) = al"
  by (simp add: al_DeleteAddress_def fun_upd_idem)

lemma al_wf_DeleteAddress: "al_wf al \<Longrightarrow> al_wf (al_DeleteAddress a al)"
  by (auto simp: al_wf_def al_DeleteAddress_def split: if_splits)

end
