(* ===== verification/Zond_RLP.thy ===== *)
theory Zond_RLP
  imports Zond_Prelude
begin

text \<open>
  RLP (\<^verbatim>\<open>rlp/encode.go\<close>, \<^verbatim>\<open>rlp/encbuffer.go\<close>, \<^verbatim>\<open>rlp/raw.go\<close>): the encoder that writes the string data
  and the list headers apart and merges them at the end, and the readers of raw encodings. The
  encoder writes the textbook encoding, and the readers invert it. What the reflective dispatch of
  \<^verbatim>\<open>makeWriter\<close> distinguishes is a constructor of \<open>rlp_value\<close>; types with their own \<^verbatim>\<open>EncodeRLP\<close> and
  struct tags are not covered. Lengths are Go \<^verbatim>\<open>int\<close>s that are never negative, here naturals.
\<close>

section \<open>Sizes and headers\<close>

function intsize :: "u64 \<Rightarrow> nat" where
  "intsize i = (let i' = drop_bit 8 i in if i' = 0 then 1 else Suc (intsize i'))"
  by auto

lemma unat_drop8: "unat (drop_bit 8 (i :: u64)) = unat i div 256"
  by (simp add: drop_bit_eq_div unat_div)

termination intsize
proof (relation "measure unat")
  fix i i' :: u64
  assume "i' = drop_bit 8 i" "i' \<noteq> 0"
  then have "unat i div 256 \<noteq> 0" using unat_drop8 [of i] by (metis unat_eq_zero)
  then have "unat i div 256 < unat i" by (simp add: div_less_dividend)
  then show "(i', i) \<in> measure unat" using unat_drop8 [of i] \<open>i' = drop_bit 8 i\<close> by simp
qed simp

declare intsize.simps [simp del]

definition putint :: "u64 \<Rightarrow> bytes" where
  "putint i =
     (if i < 2 ^ 8 then [ucast i]
      else if i < 2 ^ 16 then [ucast (drop_bit 8 i), ucast i]
      else if i < 2 ^ 24 then [ucast (drop_bit 16 i), ucast (drop_bit 8 i), ucast i]
      else if i < 2 ^ 32
        then [ucast (drop_bit 24 i), ucast (drop_bit 16 i), ucast (drop_bit 8 i), ucast i]
      else if i < 2 ^ 40
        then [ucast (drop_bit 32 i), ucast (drop_bit 24 i), ucast (drop_bit 16 i),
              ucast (drop_bit 8 i), ucast i]
      else if i < 2 ^ 48
        then [ucast (drop_bit 40 i), ucast (drop_bit 32 i), ucast (drop_bit 24 i),
              ucast (drop_bit 16 i), ucast (drop_bit 8 i), ucast i]
      else if i < 2 ^ 56
        then [ucast (drop_bit 48 i), ucast (drop_bit 40 i), ucast (drop_bit 32 i),
              ucast (drop_bit 24 i), ucast (drop_bit 16 i), ucast (drop_bit 8 i), ucast i]
      else [ucast (drop_bit 56 i), ucast (drop_bit 48 i), ucast (drop_bit 40 i),
            ucast (drop_bit 32 i), ucast (drop_bit 24 i), ucast (drop_bit 16 i),
            ucast (drop_bit 8 i), ucast i])"

definition headsize :: "u64 \<Rightarrow> nat" where
  "headsize size1 = (if size1 < 56 then 1 else 1 + intsize size1)"

definition puthead :: "u8 \<Rightarrow> u8 \<Rightarrow> u64 \<Rightarrow> bytes" where
  "puthead smalltag largetag size1 =
     (if size1 < 56 then [smalltag + ucast size1]
      else (largetag + of_nat (length (putint size1))) # putint size1)"

text \<open>The shortest big-endian form of a number, with at least one byte.\<close>

fun be_len :: "nat \<Rightarrow> nat" where
  "be_len n = (if n < 256 then 1 else Suc (be_len (n div 256)))"

declare be_len.simps [simp del]

lemma intsize_be_len: "intsize i = be_len (unat i)"
proof (induction i rule: intsize.induct)
  case (1 i)
  have "drop_bit 8 i = 0 \<longleftrightarrow> unat i < 256"
    by (metis unat_drop8 unat_eq_zero div_eq_0_iff zero_neq_numeral)
  then show ?case
    using 1 by (simp add: intsize.simps [of i] be_len.simps [of "unat i"] Let_def unat_drop8)
qed

lemma be_len_range: "n < 256 ^ Suc k \<Longrightarrow> k = 0 \<or> 256 ^ k \<le> n \<Longrightarrow> be_len n = Suc k"
proof (induction k arbitrary: n)
  case 0
  then show ?case by (simp add: be_len.simps)
next
  case (Suc k)
  have lo: "256 ^ Suc k \<le> n" using Suc.prems(2) by simp
  have "(256::nat) \<le> 256 ^ Suc k" by simp
  then have n: "\<not> n < 256" using lo by linarith
  have "n div 256 < 256 ^ Suc k"
    using Suc.prems(1) by (simp add: less_mult_imp_div_less mult.commute)
  moreover have "256 ^ k \<le> n div 256"
    using div_le_mono [OF lo, of 256] by simp
  ultimately show ?case using Suc.IH [of "n div 256"] n by (simp add: be_len.simps [of n])
qed

lemma be_len_upper: "n < 256 ^ be_len n"
proof (induction n rule: be_len.induct)
  case (1 n)
  show ?case
  proof (cases "n < 256")
    case False
    then have "n div 256 < 256 ^ be_len (n div 256)" using 1 by simp
    then have "n < 256 * 256 ^ be_len (n div 256)" by (simp add: div_less_iff_less_mult mult.commute)
    then show ?thesis using False by (simp add: be_len.simps [of n])
  qed (simp add: be_len.simps)
qed

lemma be_len_pos [simp]: "0 < be_len n"
  by (subst be_len.simps) simp

lemma be_len_bound: "n < 256 ^ k \<Longrightarrow> 0 < k \<Longrightarrow> be_len n \<le> k"
proof (induction k arbitrary: n)
  case (Suc k)
  show ?case
  proof (cases "n < 256")
    case False
    have "n div 256 < 256 ^ k"
      using Suc.prems(1) by (simp add: less_mult_imp_div_less mult.commute)
    moreover have "0 < k" using False Suc.prems(1) by (cases k) auto
    ultimately show ?thesis using Suc.IH [of "n div 256"] False by (simp add: be_len.simps [of n])
  qed (simp add: be_len.simps)
qed simp

lemma be_nat_len_hd: "0 < n \<Longrightarrow> be_nat (be_len n) n ! 0 \<noteq> 0"
proof (induction n rule: be_len.induct)
  case (1 n)
  show ?case
  proof (cases "n < 256")
    case True
    then have "(of_nat n :: u8) \<noteq> 0"
      using 1(2) unat_byte_of_mod [of n] by (metis gr_implies_not0 mod_less unat_0)
    then show ?thesis using True by (simp add: be_len.simps [of n])
  next
    case False
    then have "be_nat (be_len (n div 256)) (n div 256) ! 0 \<noteq> 0" using 1(1) by simp
    then show ?thesis using False by (simp add: be_len.simps [of n] nth_append)
  qed
qed

lemma byte_at: "(ucast (drop_bit (8 * j) (i :: u64)) :: u8) = of_nat (unat i div 256 ^ j mod 256)"
proof -
  have "drop_bit (8 * j) (unat i) = unat i div 256 ^ j"
    by (simp add: drop_bit_eq_div power_mult)
  then have "unat (ucast (drop_bit (8 * j) i) :: u8) = unat i div 256 ^ j mod 256"
    by (simp only: unsigned_ucast_eq take_bit_eq_mod unat_drop_bit_eq) simp
  then show ?thesis by (simp add: word_unat_eq_iff unat_byte_of_mod)
qed

lemma ucast_byte: "(ucast (w :: u64) :: u8) = of_nat (unat w)"
  by (simp add: word_unat_eq_iff unsigned_ucast_eq take_bit_eq_mod unat_of_nat)

lemma ucast_byte_nat: "n < 2 ^ 64 \<Longrightarrow> (ucast (of_nat n :: u64) :: u8) = of_nat n"
  by (simp add: ucast_byte unat_of_nat)

lemma be_nat_unfold:
  "be_nat (Suc k) n = of_nat (n div 256 ^ k mod 256) # be_nat k (n mod 256 ^ k)"
proof (induction k arbitrary: n)
  case (Suc k)
  have "n div 256 div 256 ^ k mod 256 = n div 256 ^ Suc k mod 256"
    by (simp add: div_mult2_eq)
  moreover have "n div 256 mod 256 ^ k = n mod 256 ^ Suc k div 256"
    by (simp add: mod_mult2_eq)
  moreover have "n mod 256 ^ Suc k mod 256 = n mod 256"
    by (simp add: mod_mod_cancel)
  ultimately show ?case
    using Suc.IH [of "n div 256"] be_nat.simps(2) [of "Suc k" n] be_nat.simps(2) [of k "n mod 256 ^ Suc k"]
    by simp
qed simp

lemma be_nat_mod: "be_nat k (n mod 256 ^ k) = be_nat k n"
proof -
  have "be_nat k (nat_of_be (be_nat k n)) = be_nat k n" by (rule be_nat_nat_of_be) simp
  then show ?thesis by (simp add: nat_of_be_be_nat)
qed

lemma be_nat_digits:
  "be_nat k n = map (\<lambda>j. of_nat (n div 256 ^ j mod 256)) (rev [0..<k])"
  by (induction k) (simp_all add: be_nat_unfold be_nat_mod del: be_nat.simps(2))

lemma putint_digits: "putint i = map (\<lambda>j. ucast (drop_bit (8 * j) i)) (rev [0..<intsize i])"
proof -
  have le: "i < 2 ^ (8 * k) \<longleftrightarrow> unat i < 256 ^ k" if "k < 8" for k
  proof -
    have "k = 0 \<or> k = 1 \<or> k = 2 \<or> k = 3 \<or> k = 4 \<or> k = 5 \<or> k = 6 \<or> k = 7"
      using that by linarith
    then have "unat (2 ^ (8 * k) :: u64) = 256 ^ k" by (elim disjE) simp_all
    then show ?thesis by (simp add: word_less_nat_alt)
  qed
  have sz: "intsize i = Suc k" if "unat i < 256 ^ Suc k" "k = 0 \<or> \<not> unat i < 256 ^ k" for k
    using be_len_range [of "unat i" k] that by (auto simp: intsize_be_len)
  have top: "unat i < 256 ^ 8" using unat_bound [of i] by simp
  have mono: "unat i < 256 ^ l" if "unat i < 256 ^ k" "k \<le> l" for k l
    using that power_increasing [of k l "256 :: nat"] by linarith
  obtain k where k: "k < 8" "unat i < 256 ^ Suc k" "k = 0 \<or> \<not> unat i < 256 ^ k"
  proof -
    define m where "m = (LEAST l. unat i < 256 ^ Suc l)"
    have "unat i < 256 ^ Suc 7" using top by simp
    then have "unat i < 256 ^ Suc m" "m \<le> 7" unfolding m_def by (rule LeastI, rule Least_le)
    moreover have "m = 0 \<or> \<not> unat i < 256 ^ m"
      using not_less_Least [of "m - 1" "\<lambda>l. unat i < 256 ^ Suc l"] by (cases m) (auto simp: m_def)
    ultimately show ?thesis using that [of m] by auto
  qed
  have below: "i < 2 ^ (8 * l) \<longleftrightarrow> k < l" if "l < 8" "0 < l" for l
    using le [OF that(1)] that(2) mono [OF k(2), of l] mono [of l k] k(3) by (cases "k < l") auto
  have "k = 0 \<or> k = 1 \<or> k = 2 \<or> k = 3 \<or> k = 4 \<or> k = 5 \<or> k = 6 \<or> k = 7"
    using k(1) by linarith
  then show ?thesis
    using sz [OF k(2,3)] below [of 1] below [of 2] below [of 3] below [of 4] below [of 5] below [of 6]
      below [of 7]
    by (elim disjE) (simp_all add: putint_def upt_conv_Cons)
qed

lemma putint_be_nat: "putint i = be_nat (intsize i) (unat i)"
  by (simp add: putint_digits be_nat_digits byte_at)

lemma length_putint [simp]: "length (putint i) = intsize i"
  by (simp add: putint_be_nat)

lemma intsize_le_8: "intsize i \<le> 8"
  using be_len_bound [of "unat i" 8] unat_bound [of i] by (simp add: intsize_be_len)

lemma length_puthead: "length (puthead st lt size1) = headsize size1"
  by (simp add: puthead_def headsize_def)

section \<open>The encoder buffer\<close>

text \<open>
  \<^verbatim>\<open>str\<close> holds everything but list headers, \<^verbatim>\<open>lheads\<close> for each list the position of its header in
  \<^verbatim>\<open>str\<close> and its size, \<^verbatim>\<open>lhsize\<close> the bytes all headers will take. While a list is open its size field
  holds the value \<^verbatim>\<open>lhsize\<close> had when it was opened.
\<close>

record listhead =
  lh_offset :: nat
  lh_size :: nat

record encBuffer =
  buf_str :: bytes
  buf_lheads :: "listhead list"
  buf_lhsize :: nat

definition new_encBuffer :: encBuffer where
  "new_encBuffer = \<lparr>buf_str = [], buf_lheads = [], buf_lhsize = 0\<rparr>"

definition buf_size :: "encBuffer \<Rightarrow> nat" where
  "buf_size buf = length (buf_str buf) + buf_lhsize buf"

definition buf_append :: "bytes \<Rightarrow> encBuffer \<Rightarrow> encBuffer" where
  "buf_append b buf = buf\<lparr>buf_str := buf_str buf @ b\<rparr>"

definition lh_encode :: "listhead \<Rightarrow> bytes" where
  "lh_encode head = puthead 0xC0 0xF7 (of_nat (lh_size head))"

fun copy_heads :: "nat \<Rightarrow> listhead list \<Rightarrow> bytes \<Rightarrow> bytes" where
  "copy_heads strpos [] str = drop strpos str"
| "copy_heads strpos (head # heads) str =
     take (lh_offset head - strpos) (drop strpos str) @ lh_encode head @
       copy_heads (strpos + length (take (lh_offset head - strpos) (drop strpos str))) heads str"

definition makeBytes :: "encBuffer \<Rightarrow> bytes" where
  "makeBytes buf = copy_heads 0 (buf_lheads buf) (buf_str buf)"

definition writeBool :: "bool \<Rightarrow> encBuffer \<Rightarrow> encBuffer" where
  "writeBool b buf = buf_append (if b then [0x01] else [0x80]) buf"

definition writeUint64 :: "u64 \<Rightarrow> encBuffer \<Rightarrow> encBuffer" where
  "writeUint64 i buf =
     (if i = 0 then buf_append [0x80] buf
      else if i < 128 then buf_append [ucast i] buf
      else buf_append ((0x80 + of_nat (length (putint i))) # putint i) buf)"

definition encodeStringHeader :: "nat \<Rightarrow> encBuffer \<Rightarrow> encBuffer" where
  "encodeStringHeader size1 buf =
     (if size1 < 56 then buf_append [0x80 + of_nat size1] buf
      else buf_append ((0xB7 + of_nat (length (putint (of_nat size1)))) # putint (of_nat size1)) buf)"

definition writeBytes :: "bytes \<Rightarrow> encBuffer \<Rightarrow> encBuffer" where
  "writeBytes b buf =
     (if length b = 1 \<and> b ! 0 \<le> 0x7F then buf_append [b ! 0] buf
      else buf_append b (encodeStringHeader (length b) buf))"

text \<open>\<^verbatim>\<open>BitLen\<close> of a non-negative number; past 64 bits the number is written in its least number of bytes.\<close>

definition writeBigInt :: "nat \<Rightarrow> encBuffer \<Rightarrow> encBuffer" where
  "writeBigInt i buf =
     (if i < 2 ^ 64 then writeUint64 (of_nat i) buf
      else buf_append (be_nat (be_len i) i) (encodeStringHeader (be_len i) buf))"

definition buf_list :: "encBuffer \<Rightarrow> nat \<times> encBuffer" where
  "buf_list buf =
     (length (buf_lheads buf),
      buf\<lparr>buf_lheads := buf_lheads buf @ [\<lparr>lh_offset = length (buf_str buf), lh_size = buf_lhsize buf\<rparr>]\<rparr>)"

definition listEnd :: "nat \<Rightarrow> encBuffer \<Rightarrow> encBuffer" where
  "listEnd idx buf =
     (let lh = buf_lheads buf ! idx;
          sz = buf_size buf - lh_offset lh - lh_size lh
      in buf\<lparr>buf_lheads := (buf_lheads buf)[idx := lh\<lparr>lh_size := sz\<rparr>],
             buf_lhsize := (if sz < 56 then buf_lhsize buf + 1
                            else buf_lhsize buf + (1 + intsize (of_nat sz)))\<rparr>)"

section \<open>Encoding values\<close>

text \<open>What \<^verbatim>\<open>makeWriter\<close> distinguishes: raw values, big integers (nil or not), unsigned integers,
  booleans, strings and byte slices, byte arrays, slices, structs, and nil pointers with the byte
  that stands for them.\<close>

datatype rlp_value =
    RlpRaw bytes
  | RlpBigPtr "int option"
  | RlpUint u64
  | RlpBool bool
  | RlpBytes bytes
  | RlpByteArray bytes
  | RlpSlice "rlp_value list"
  | RlpStruct "rlp_value list"
  | RlpNil u8

definition ErrNegativeBigInt :: goerr where
  "ErrNegativeBigInt = ''rlp: cannot encode negative big.Int''"

definition writeByteArray :: "bytes \<Rightarrow> encBuffer \<Rightarrow> encBuffer" where
  "writeByteArray b buf =
     (if length b = 0 then buf_append [0x80] buf
      else if length b = 1
        then (if b ! 0 \<le> 0x7f then buf_append [b ! 0] buf else buf_append [0x81, b ! 0] buf)
      else buf_append b (encodeStringHeader (length b) buf))"

fun write_value :: "rlp_value \<Rightarrow> encBuffer \<Rightarrow> (goerr, encBuffer) outcome"
  and write_values :: "rlp_value list \<Rightarrow> encBuffer \<Rightarrow> (goerr, encBuffer) outcome" where
  "write_value (RlpRaw b) buf = Ok (buf_append b buf)"
| "write_value (RlpBigPtr None) buf = Ok (buf_append [0x80] buf)"
| "write_value (RlpBigPtr (Some i)) buf =
     (if i < 0 then Err ErrNegativeBigInt else Ok (writeBigInt (nat i) buf))"
| "write_value (RlpUint i) buf = Ok (writeUint64 i buf)"
| "write_value (RlpBool b) buf = Ok (writeBool b buf)"
| "write_value (RlpBytes b) buf = Ok (writeBytes b buf)"
| "write_value (RlpByteArray b) buf = Ok (writeByteArray b buf)"
| "write_value (RlpSlice vs) buf =
     (if vs = [] then Ok (buf_append [0xC0] buf)
      else case buf_list buf of (offset, buf1) \<Rightarrow>
        and_then (write_values vs buf1) (\<lambda>buf2. Ok (listEnd offset buf2)))"
| "write_value (RlpStruct vs) buf =
     (case buf_list buf of (offset, buf1) \<Rightarrow>
        and_then (write_values vs buf1) (\<lambda>buf2. Ok (listEnd offset buf2)))"
| "write_value (RlpNil b) buf = Ok (buf_append [b] buf)"
| "write_values [] buf = Ok buf"
| "write_values (v # vs) buf = and_then (write_value v buf) (write_values vs)"

definition EncodeToBytes :: "rlp_value \<Rightarrow> (goerr, bytes) outcome" where
  "EncodeToBytes v = and_then (write_value v new_encBuffer) (\<lambda>buf. Ok (makeBytes buf))"

section \<open>The textbook encoding\<close>

definition rlp_string :: "bytes \<Rightarrow> bytes" where
  "rlp_string b =
     (if length b = 1 \<and> b ! 0 \<le> 0x7F then b else puthead 0x80 0xB7 (of_nat (length b)) @ b)"

definition rlp_list :: "bytes \<Rightarrow> bytes" where
  "rlp_list payload = puthead 0xC0 0xF7 (of_nat (length payload)) @ payload"

definition rlp_nat :: "nat \<Rightarrow> bytes" where
  "rlp_nat n = rlp_string (if n = 0 then [] else be_nat (be_len n) n)"

primrec rlp_ref :: "rlp_value \<Rightarrow> bytes" where
  "rlp_ref (RlpRaw b) = b"
| "rlp_ref (RlpBigPtr x) = (case x of None \<Rightarrow> rlp_string [] | Some i \<Rightarrow> rlp_nat (nat i))"
| "rlp_ref (RlpUint i) = rlp_nat (unat i)"
| "rlp_ref (RlpBool b) = rlp_nat (if b then 1 else 0)"
| "rlp_ref (RlpBytes b) = rlp_string b"
| "rlp_ref (RlpByteArray b) = rlp_string b"
| "rlp_ref (RlpSlice vs) = rlp_list (concat (map rlp_ref vs))"
| "rlp_ref (RlpStruct vs) = rlp_list (concat (map rlp_ref vs))"
| "rlp_ref (RlpNil b) = [b]"

fun has_negative :: "rlp_value \<Rightarrow> bool" where
  "has_negative (RlpRaw b) = False"
| "has_negative (RlpBigPtr x) = (case x of None \<Rightarrow> False | Some i \<Rightarrow> i < 0)"
| "has_negative (RlpUint i) = False"
| "has_negative (RlpBool b) = False"
| "has_negative (RlpBytes b) = False"
| "has_negative (RlpByteArray b) = False"
| "has_negative (RlpSlice vs) = list_ex has_negative vs"
| "has_negative (RlpStruct vs) = list_ex has_negative vs"
| "has_negative (RlpNil b) = False"

section \<open>The buffer writes the textbook encoding\<close>

definition shift :: "nat \<Rightarrow> listhead \<Rightarrow> listhead" where
  "shift n h = h\<lparr>lh_offset := lh_offset h + n\<rparr>"

definition frag_ok :: "bytes \<Rightarrow> listhead list \<Rightarrow> bool" where
  "frag_ok s hs \<longleftrightarrow> sorted (map lh_offset hs) \<and> (\<forall>h\<in>set hs. lh_offset h \<le> length s)"

definition heads_size :: "listhead list \<Rightarrow> nat" where
  "heads_size hs = sum_list (map (\<lambda>h. length (lh_encode h)) hs)"

definition extend :: "bytes \<Rightarrow> listhead list \<Rightarrow> encBuffer \<Rightarrow> encBuffer" where
  "extend s hs buf =
     buf\<lparr>buf_str := buf_str buf @ s, buf_lheads := buf_lheads buf @ map (shift (length (buf_str buf))) hs,
         buf_lhsize := buf_lhsize buf + heads_size hs\<rparr>"

lemma lh_encode_shift [simp]: "lh_encode (shift n h) = lh_encode h"
  by (simp add: lh_encode_def shift_def)

lemma lh_offset_shift [simp]: "lh_offset (shift n h) = lh_offset h + n"
  by (simp add: shift_def)

lemma shift_shift: "shift n (shift m h) = shift (m + n) h"
  by (simp add: shift_def)

lemma copy_heads_shift:
  "copy_heads (length s1 + p) (map (shift (length s1)) hs) (s1 @ s2) = copy_heads p hs s2"
proof (induction hs arbitrary: p)
  case (Cons h hs)
  show ?case
    using Cons.IH [of "p + min (length s2 - p) (lh_offset h - p)"]
    by (simp add: add.assoc diff_add_assoc2)
qed simp

lemma copy_heads_suffix:
  assumes "p \<le> length s1" and "frag_ok s2 hs"
  shows "copy_heads p (map (shift (length s1)) hs) (s1 @ s2) = drop p s1 @ copy_heads 0 hs s2"
proof (cases hs)
  case (Cons h t)
  have "lh_offset h \<le> length s2" using assms(2) Cons by (simp add: frag_ok_def)
  then show ?thesis
    using assms(1) copy_heads_shift [of s1 "lh_offset h" t s2] Cons by simp
qed (use assms in simp)

lemma copy_heads_append:
  assumes "frag_ok s1 hs1" and "frag_ok s2 hs2" and "p \<le> length s1" and "\<forall>h\<in>set hs1. p \<le> lh_offset h"
  shows "copy_heads p (hs1 @ map (shift (length s1)) hs2) (s1 @ s2) =
    copy_heads p hs1 s1 @ copy_heads 0 hs2 s2"
  using assms
proof (induction hs1 arbitrary: p)
  case Nil
  then show ?case by (simp add: copy_heads_suffix)
next
  case (Cons h t)
  have o: "p \<le> lh_offset h" "lh_offset h \<le> length s1" "frag_ok s1 t" "\<forall>x\<in>set t. lh_offset h \<le> lh_offset x"
    using Cons.prems by (auto simp: frag_ok_def)
  then have "copy_heads (lh_offset h) (t @ map (shift (length s1)) hs2) (s1 @ s2) =
      copy_heads (lh_offset h) t s1 @ copy_heads 0 hs2 s2"
    using Cons.IH [OF _ Cons.prems(2)] by simp
  then show ?case using o by simp
qed

lemma length_copy_heads:
  assumes "frag_ok s hs" and "p \<le> length s" and "\<forall>h\<in>set hs. p \<le> lh_offset h"
  shows "p + length (copy_heads p hs s) = length s + heads_size hs"
  using assms
proof (induction hs arbitrary: p)
  case Nil
  then show ?case by (simp add: heads_size_def)
next
  case (Cons h t)
  have o: "p \<le> lh_offset h" "lh_offset h \<le> length s" "frag_ok s t" "\<forall>x\<in>set t. lh_offset h \<le> lh_offset x"
    using Cons.prems by (auto simp: frag_ok_def)
  then show ?case using Cons.IH [of "lh_offset h"] by (simp add: heads_size_def)
qed

lemma frag_ok_append:
  "frag_ok s1 hs1 \<Longrightarrow> frag_ok s2 hs2 \<Longrightarrow> frag_ok (s1 @ s2) (hs1 @ map (shift (length s1)) hs2)"
  by (auto simp: frag_ok_def sorted_append sorted_map comp_def sorted_wrt_map)

lemma extend_extend:
  "extend s2 hs2 (extend s1 hs1 buf) = extend (s1 @ s2) (hs1 @ map (shift (length s1)) hs2) buf"
  by (simp add: extend_def heads_size_def comp_def shift_shift add.commute)

lemma buf_append_extend: "buf_append b buf = extend b [] buf"
  by (simp add: buf_append_def extend_def heads_size_def)

text \<open>A value is written as a fragment, the same whatever the buffer held before.\<close>

definition writes_frag :: "(encBuffer \<Rightarrow> (goerr, encBuffer) outcome) \<Rightarrow> bytes \<Rightarrow> bool" where
  "writes_frag w out \<longleftrightarrow>
     (\<exists>s hs. frag_ok s hs \<and> copy_heads 0 hs s = out \<and> (\<forall>buf. w buf = Ok (extend s hs buf)))"

lemma writes_frag_append: "writes_frag (\<lambda>buf. Ok (buf_append b buf)) b"
  unfolding writes_frag_def buf_append_extend
  by (intro exI [of _ b] exI [of _ "[]"]) (simp add: frag_ok_def)

lemma writes_frag_ext: "(\<And>buf. w buf = Ok (buf_append b buf)) \<Longrightarrow> writes_frag w b"
  using writes_frag_append [of b] by (simp add: writes_frag_def)

lemma writes_frag_seq:
  assumes "writes_frag w1 out1" and "writes_frag w2 out2"
  shows "writes_frag (\<lambda>buf. and_then (w1 buf) w2) (out1 @ out2)"
proof -
  obtain s1 hs1 s2 hs2 where
    1: "frag_ok s1 hs1" "copy_heads 0 hs1 s1 = out1" "\<And>buf. w1 buf = Ok (extend s1 hs1 buf)" and
    2: "frag_ok s2 hs2" "copy_heads 0 hs2 s2 = out2" "\<And>buf. w2 buf = Ok (extend s2 hs2 buf)"
    using assms by (auto simp: writes_frag_def)
  show ?thesis unfolding writes_frag_def
    by (intro exI [of _ "s1 @ s2"] exI [of _ "hs1 @ map (shift (length s1)) hs2"])
      (simp add: 1 2 frag_ok_append copy_heads_append extend_extend)
qed

lemma headsize_nat:
  "n < 2 ^ 64 \<Longrightarrow> headsize (of_nat n) = (if n < 56 then 1 else 1 + intsize (of_nat n))"
  by (simp add: headsize_def word_less_nat_alt unat_of_nat)

lemma writes_frag_list:
  assumes "writes_frag w out" and "length out < 2 ^ 64"
  shows "writes_frag (\<lambda>buf. case buf_list buf of (offset, buf1) \<Rightarrow>
    and_then (w buf1) (\<lambda>buf2. Ok (listEnd offset buf2))) (rlp_list out)"
proof -
  obtain s hs where 1: "frag_ok s hs" "copy_heads 0 hs s = out" "\<And>buf. w buf = Ok (extend s hs buf)"
    using assms by (auto simp: writes_frag_def)
  let ?h = "\<lparr>lh_offset = 0, lh_size = length out\<rparr>"
  have len: "length out = length s + heads_size hs"
    using length_copy_heads [OF 1(1), of 0] 1(2) by simp
  have enc: "length (lh_encode ?h) = (if length out < 56 then 1 else 1 + intsize (of_nat (length out)))"
    using assms(2) by (simp add: lh_encode_def length_puthead headsize_nat)
  have "(case buf_list buf of (offset, buf1) \<Rightarrow>
      and_then (w buf1) (\<lambda>buf2. Ok (listEnd offset buf2))) = Ok (extend s (?h # hs) buf)" for buf
    using enc
    by (simp add: buf_list_def 1(3) listEnd_def extend_def buf_size_def nth_append heads_size_def
        len [unfolded heads_size_def] shift_def Let_def add.commute add.left_commute
        del: One_nat_def)
  moreover have "copy_heads 0 (?h # hs) s = rlp_list out"
    using 1(2) by (simp add: rlp_list_def lh_encode_def)
  moreover have "frag_ok s (?h # hs)" using 1(1) by (simp add: frag_ok_def)
  ultimately show ?thesis unfolding writes_frag_def by blast
qed

lemma puthead_string: "n < 2 ^ 64 \<Longrightarrow> encodeStringHeader n buf = buf_append (puthead 0x80 0xB7 (of_nat n)) buf"
  by (simp add: encodeStringHeader_def puthead_def word_less_nat_alt unat_of_nat ucast_byte_nat)

lemma buf_append_twice: "buf_append b (buf_append a buf) = buf_append (a @ b) buf"
  by (simp add: buf_append_def)

lemma writeBytes_append: "length b < 2 ^ 64 \<Longrightarrow> writeBytes b buf = buf_append (rlp_string b) buf"
  by (auto simp: writeBytes_def rlp_string_def puthead_string buf_append_twice length_Suc_conv)

lemma writeByteArray_append:
  "length b < 2 ^ 64 \<Longrightarrow> writeByteArray b buf = buf_append (rlp_string b) buf"
  by (auto simp: writeByteArray_def rlp_string_def puthead_string buf_append_twice length_Suc_conv
      puthead_def)

lemma rlp_nat_small:
  assumes "0 < n" and "n < 128"
  shows "rlp_nat n = [of_nat n]"
proof -
  have "(of_nat n :: u8) \<le> 0x7F" using assms by (simp add: word_le_nat_alt unat_of_nat)
  then show ?thesis using assms by (simp add: rlp_nat_def rlp_string_def be_len.simps [of n])
qed

lemma rlp_nat_large:
  assumes "128 \<le> n" and "be_len n < 56"
  shows "rlp_nat n = (0x80 + of_nat (be_len n)) # be_nat (be_len n) n"
proof -
  have "\<not> (of_nat n :: u8) \<le> 0x7F" if "n < 256"
    using that assms(1) by (simp add: word_le_nat_alt unat_of_nat)
  then have "\<not> (be_len n = 1 \<and> be_nat (be_len n) n ! 0 \<le> 0x7F)"
    by (cases "n < 256") (simp_all add: be_len.simps [of n])
  then show ?thesis
    using assms by (simp add: rlp_nat_def rlp_string_def puthead_def word_less_nat_alt unat_of_nat ucast_byte_nat)
qed

lemma writeUint64_large:
  assumes "128 \<le> unat i"
  shows "writeUint64 i buf = buf_append (rlp_nat (unat i)) buf"
proof -
  have b: "be_len (unat i) < 56" using intsize_le_8 [of i] by (simp add: intsize_be_len)
  have "i \<noteq> 0" "\<not> i < 128" using assms by (auto simp: word_less_nat_alt)
  then show ?thesis
    unfolding writeUint64_def rlp_nat_large [OF assms b] putint_be_nat intsize_be_len
    by (simp only: if_False length_be_nat)
qed

lemma writeUint64_append: "writeUint64 i buf = buf_append (rlp_nat (unat i)) buf"
proof (cases "i = 0")
  case True
  then show ?thesis by (simp add: writeUint64_def rlp_nat_def rlp_string_def puthead_def)
next
  case False
  then have p: "0 < unat i" by (simp add: unat_gt_0)
  show ?thesis
  proof (cases "unat i < 128")
    case True
    then have "i < 128" by (simp add: word_less_nat_alt)
    then show ?thesis using False by (simp add: writeUint64_def rlp_nat_small [OF p True])
  qed (simp add: writeUint64_large)
qed

lemma be_len_64: "be_len n < 2 ^ 64 \<Longrightarrow> 2 ^ 64 \<le> n \<Longrightarrow> writeBigInt n buf = buf_append (rlp_nat n) buf"
proof -
  assume a: "be_len n < 2 ^ 64" "2 ^ 64 \<le> n"
  have "\<not> n < 256" using a(2) by simp
  then have "be_len n \<noteq> 1" using be_len.simps [of n] be_len_pos [of "n div 256"] by simp
  moreover have "\<not> n < 2 ^ 64" "n \<noteq> 0" using a(2) by simp_all
  ultimately show ?thesis
    using puthead_string [OF a(1)]
    by (simp only: writeBigInt_def rlp_nat_def rlp_string_def buf_append_twice length_be_nat if_False simp_thms)
qed

lemma writeBigInt_append: "be_len n < 2 ^ 64 \<Longrightarrow> writeBigInt n buf = buf_append (rlp_nat n) buf"
proof (cases "n < 2 ^ 64")
  case True
  then show ?thesis by (simp add: writeBigInt_def writeUint64_append unat_of_nat)
qed (simp add: be_len_64)

lemma rlp_nat_length: "be_len n \<le> Suc (length (rlp_nat n))"
  by (auto simp: rlp_nat_def rlp_string_def be_len.simps [of 0])

lemma length_concat_member: "x \<in> set xs \<Longrightarrow> length (f x) \<le> length (concat (map f xs))"
  by (induction xs) auto

lemma length_rlp_list: "length payload \<le> length (rlp_list payload)"
  by (simp add: rlp_list_def)

lemma length_rlp_string: "length b \<le> length (rlp_string b)"
  by (simp add: rlp_string_def)

lemma writes_frag_values:
  assumes "\<And>v. v \<in> set vs \<Longrightarrow> writes_frag (write_value v) (rlp_ref v)"
  shows "writes_frag (write_values vs) (concat (map rlp_ref vs))"
  using assms
proof (induction vs)
  case Nil
  have "writes_frag (\<lambda>buf. Ok (buf_append [] buf)) []" by (rule writes_frag_append)
  then show ?case by (simp add: buf_append_def)
next
  case (Cons v vs)
  have "writes_frag (\<lambda>buf. and_then (write_value v buf) (write_values vs)) (rlp_ref v @ concat (map rlp_ref vs))"
    by (rule writes_frag_seq) (use Cons in auto)
  then show ?case by simp
qed

lemma writes_frag_listed:
  assumes "\<And>v. v \<in> set vs \<Longrightarrow> \<not> has_negative v \<Longrightarrow> length (rlp_ref v) < 2 ^ 64 - 1 \<Longrightarrow>
      writes_frag (write_value v) (rlp_ref v)"
    and "\<not> list_ex has_negative vs" and "length (rlp_list (concat (map rlp_ref vs))) < 2 ^ 64 - 1"
  shows "writes_frag (\<lambda>buf. case buf_list buf of (offset, buf1) \<Rightarrow>
    and_then (write_values vs buf1) (\<lambda>buf2. Ok (listEnd offset buf2))) (rlp_list (concat (map rlp_ref vs)))"
proof -
  have len: "length (concat (map rlp_ref vs)) < 2 ^ 64 - 1"
    using assms(3) length_rlp_list [of "concat (map rlp_ref vs)"] by linarith
  have "writes_frag (write_values vs) (concat (map rlp_ref vs))"
  proof (rule writes_frag_values)
    fix v assume v: "v \<in> set vs"
    then have "length (rlp_ref v) < 2 ^ 64 - 1"
      using len length_concat_member [OF v, of rlp_ref] by linarith
    then show "writes_frag (write_value v) (rlp_ref v)"
      using assms(1) [OF v] assms(2) v by (auto simp: list_ex_iff)
  qed
  then show ?thesis by (rule writes_frag_list) (use len in linarith)
qed

lemma write_value_frag:
  "\<not> has_negative v \<Longrightarrow> length (rlp_ref v) < 2 ^ 64 - 1 \<Longrightarrow> writes_frag (write_value v) (rlp_ref v)"
proof (induction v)
  case (RlpBigPtr x)
  show ?case
  proof (cases x)
    case None
    then show ?thesis by (simp add: writes_frag_ext rlp_string_def puthead_def)
  next
    case (Some i)
    have "be_len (nat i) < 2 ^ 64"
      using RlpBigPtr(2) rlp_nat_length [of "nat i"] Some by simp
    then show ?thesis
      using RlpBigPtr(1) Some by (simp add: writes_frag_ext writeBigInt_append)
  qed
next
  case (RlpBool b)
  have "rlp_nat 1 = [1]" "rlp_nat 0 = [0x80]"
    using rlp_nat_small [of 1] by (simp_all add: rlp_nat_def rlp_string_def puthead_def)
  then show ?case by (simp add: writes_frag_ext writeBool_def)
next
  case (RlpBytes b)
  then have "length b < 2 ^ 64" using length_rlp_string [of b] by simp
  then show ?case by (simp add: writes_frag_ext writeBytes_append)
next
  case (RlpByteArray b)
  then have "length b < 2 ^ 64" using length_rlp_string [of b] by simp
  then show ?case by (simp add: writes_frag_ext writeByteArray_append)
next
  case (RlpSlice vs)
  note w = writes_frag_listed [OF RlpSlice.IH, of vs]
  show ?case
  proof (cases "vs = []")
    case True
    then show ?thesis by (simp add: writes_frag_ext rlp_list_def puthead_def)
  next
    case False
    then have "write_value (RlpSlice vs) = (\<lambda>buf. case buf_list buf of (offset, buf1) \<Rightarrow>
        and_then (write_values vs buf1) (\<lambda>buf2. Ok (listEnd offset buf2)))"
      by (intro ext) simp
    then show ?thesis using w RlpSlice.prems by simp
  qed
next
  case (RlpStruct vs)
  have "write_value (RlpStruct vs) = (\<lambda>buf. case buf_list buf of (offset, buf1) \<Rightarrow>
      and_then (write_values vs buf1) (\<lambda>buf2. Ok (listEnd offset buf2)))"
    by (intro ext) simp
  then show ?case using writes_frag_listed [OF RlpStruct.IH, of vs] RlpStruct.prems by simp
qed (simp_all add: writes_frag_ext writeUint64_append)

lemma write_value_negative:
  "(has_negative v \<longrightarrow> write_value v buf = Err ErrNegativeBigInt) \<and>
   (\<not> has_negative v \<longrightarrow> is_ok (write_value v buf))"
  "(list_ex has_negative vs \<longrightarrow> write_values vs buf = Err ErrNegativeBigInt) \<and>
   (\<not> list_ex has_negative vs \<longrightarrow> is_ok (write_values vs buf))"
  by (induction v buf and vs buf rule: write_value_write_values.induct)
    (auto simp: is_ok_iff split: prod.splits)

text \<open>C37. The encoder, which writes the string data and the list headers apart and merges them at the
  end, produces the textbook encoding of every value; it fails exactly on a value that contains a
  negative big integer. (The encoding must fit the address space.)\<close>

theorem EncodeToBytes_textbook:
  assumes "length (rlp_ref v) < 2 ^ 64 - 1"
  shows "EncodeToBytes v = (if has_negative v then Err ErrNegativeBigInt else Ok (rlp_ref v))"
proof (cases "has_negative v")
  case True
  then show ?thesis using write_value_negative(1) [of v new_encBuffer] by (simp add: EncodeToBytes_def)
next
  case False
  obtain s hs where "copy_heads 0 hs s = rlp_ref v" "\<And>buf. write_value v buf = Ok (extend s hs buf)"
    using write_value_frag [OF False assms] by (auto simp: writes_frag_def)
  moreover have "map (shift 0) hs = hs" by (simp add: shift_def map_idI)
  ultimately show ?thesis
    using False by (simp add: EncodeToBytes_def makeBytes_def extend_def new_encBuffer_def)
qed

theorem EncodeToBytes_textbook_witness:
  "EncodeToBytes (RlpStruct [RlpBytes [0x63, 0x61, 0x74], RlpSlice [], RlpUint 1024]) =
     Ok [0xC8, 0x83, 0x63, 0x61, 0x74, 0xC0, 0x82, 0x04, 0x00]"
proof -
  have "rlp_ref (RlpStruct [RlpBytes [0x63, 0x61, 0x74], RlpSlice [], RlpUint 1024]) =
      [0xC8, 0x83, 0x63, 0x61, 0x74, 0xC0, 0x82, 0x04, 0x00]"
    by code_simp
  then show ?thesis
    using EncodeToBytes_textbook [of "RlpStruct [RlpBytes [0x63, 0x61, 0x74], RlpSlice [], RlpUint 1024]"]
    by simp
qed

section \<open>Reading raw encodings\<close>

datatype Kind = Byte | String | List

definition ErrUnexpectedEOF :: goerr where "ErrUnexpectedEOF = ''unexpected EOF''"
definition ErrCanonSize :: goerr where "ErrCanonSize = ''rlp: non-canonical size information''"
definition ErrCanonInt :: goerr where "ErrCanonInt = ''rlp: non-canonical integer format''"
definition ErrValueTooLarge :: goerr where
  "ErrValueTooLarge = ''rlp: value size exceeds available input length''"
definition ErrExpectedString :: goerr where "ErrExpectedString = ''rlp: expected String or Byte''"
definition ErrExpectedList :: goerr where "ErrExpectedList = ''rlp: expected List''"
definition errUintOverflow :: goerr where "errUintOverflow = ''rlp: uint overflow''"

text \<open>The cases of \<^verbatim>\<open>readSize\<close> on \<open>slen\<close> from 1 to 8 shift and add the bytes; \<open>slen\<close> is never 0.\<close>

definition readSize :: "bytes \<Rightarrow> u8 \<Rightarrow> (goerr, u64) outcome" where
  "readSize b slen =
     (if unat slen > length b then Err ErrUnexpectedEOF
      else let s = (if 1 \<le> slen \<and> slen \<le> 8
                    then of_nat (nat_of_be (take (unat slen) b)) else 0) :: u64
      in if s < 56 then Err ErrCanonSize
         else and_then (index b 0) (\<lambda>b0. if b0 = 0 then Err ErrCanonSize else Ok s))"

definition read_tag :: "u8 \<Rightarrow> bytes \<Rightarrow> (goerr, Kind \<times> u64 \<times> u64) outcome" where
  "read_tag b rest =
     (if b < 0x80 then Ok (Byte, 0, 1)
      else if b < 0xB8
        then (let cs = ucast (b - 0x80) :: u64 in
              if cs = 1 \<and> length rest > 0 \<and> rest ! 0 < 128 then Err ErrCanonSize
              else Ok (String, 1, cs))
      else if b < 0xC0
        then and_then (readSize rest (b - 0xB7)) (\<lambda>cs. Ok (String, ucast (b - 0xB7) + 1, cs))
      else if b < 0xF8 then Ok (List, 1, ucast (b - 0xC0))
      else and_then (readSize rest (b - 0xF7)) (\<lambda>cs. Ok (List, ucast (b - 0xF7) + 1, cs)))"

text \<open>The last test subtracts in \<^verbatim>\<open>uint64\<close>.\<close>

definition readKind :: "bytes \<Rightarrow> (goerr, Kind \<times> u64 \<times> u64) outcome" where
  "readKind buf =
     (case buf of
        [] \<Rightarrow> Err ErrUnexpectedEOF
      | b # rest \<Rightarrow>
          and_then (read_tag b rest) (\<lambda>(k, tagsize, contentsize).
            if contentsize > of_nat (length buf) - tagsize then Err ErrValueTooLarge
            else Ok (k, tagsize, contentsize)))"

definition Split :: "bytes \<Rightarrow> (goerr, Kind \<times> bytes \<times> bytes) outcome" where
  "Split b =
     and_then (readKind b) (\<lambda>(k, ts, cs).
       if unat (ts + cs) > length b \<or> unat ts > unat (ts + cs) then Panic
       else Ok (k, take (unat (ts + cs) - unat ts) (drop (unat ts) b), drop (unat (ts + cs)) b))"

definition SplitString :: "bytes \<Rightarrow> (goerr, bytes \<times> bytes) outcome" where
  "SplitString b =
     and_then (Split b) (\<lambda>(k, content, rest).
       if k = List then Err ErrExpectedString else Ok (content, rest))"

definition SplitUint64 :: "bytes \<Rightarrow> (goerr, u64 \<times> bytes) outcome" where
  "SplitUint64 b =
     and_then (SplitString b) (\<lambda>(content, rest).
       if length content = 0 then Ok (0, rest)
       else if length content = 1
         then (if content ! 0 = 0 then Err ErrCanonInt else Ok (ucast (content ! 0), rest))
       else if length content > 8 then Err errUintOverflow
       else (case readSize content (of_nat (length content)) of
               Err e \<Rightarrow> Err ErrCanonInt
             | Ok x \<Rightarrow> Ok (x, rest)
             | Panic \<Rightarrow> Panic | Loops \<Rightarrow> Loops))"

definition SplitList :: "bytes \<Rightarrow> (goerr, bytes \<times> bytes) outcome" where
  "SplitList b =
     and_then (Split b) (\<lambda>(k, content, rest).
       if k \<noteq> List then Err ErrExpectedList else Ok (content, rest))"

definition ListSize :: "u64 \<Rightarrow> u64" where
  "ListSize contentSize = of_nat (headsize contentSize) + contentSize"

definition IntSize :: "u64 \<Rightarrow> nat" where
  "IntSize x = (if x < 0x80 then 1 else 1 + intsize x)"

definition AppendUint64 :: "bytes \<Rightarrow> u64 \<Rightarrow> bytes" where
  "AppendUint64 b i =
     (if i = 0 then b @ [0x80]
      else if i < 128 then b @ [ucast i]
      else if i < 2 ^ 8 then b @ [0x81, ucast i]
      else if i < 2 ^ 16 then b @ [0x82, ucast (drop_bit 8 i), ucast i]
      else if i < 2 ^ 24 then b @ [0x83, ucast (drop_bit 16 i), ucast (drop_bit 8 i), ucast i]
      else if i < 2 ^ 32
        then b @ [0x84, ucast (drop_bit 24 i), ucast (drop_bit 16 i), ucast (drop_bit 8 i), ucast i]
      else if i < 2 ^ 40
        then b @ [0x85, ucast (drop_bit 32 i), ucast (drop_bit 24 i), ucast (drop_bit 16 i),
                  ucast (drop_bit 8 i), ucast i]
      else if i < 2 ^ 48
        then b @ [0x86, ucast (drop_bit 40 i), ucast (drop_bit 32 i), ucast (drop_bit 24 i),
                  ucast (drop_bit 16 i), ucast (drop_bit 8 i), ucast i]
      else if i < 2 ^ 56
        then b @ [0x87, ucast (drop_bit 48 i), ucast (drop_bit 40 i), ucast (drop_bit 32 i),
                  ucast (drop_bit 24 i), ucast (drop_bit 16 i), ucast (drop_bit 8 i), ucast i]
      else b @ [0x88, ucast (drop_bit 56 i), ucast (drop_bit 48 i), ucast (drop_bit 40 i),
                ucast (drop_bit 32 i), ucast (drop_bit 24 i), ucast (drop_bit 16 i),
                ucast (drop_bit 8 i), ucast i])"

text \<open>
  A step of no bytes would leave the loop where it is; the readers never make one on a slice that
  fits the address space (\<open>readKind_fits\<close>).
\<close>

lemma drop_shorter: "b \<noteq> [] \<Longrightarrow> n \<noteq> (0 :: u64) \<Longrightarrow> length b - unat n < length b"
  by (simp add: unat_gt_0)

function CountValues_loop :: "nat \<Rightarrow> bytes \<Rightarrow> (goerr, nat) outcome" where
  "CountValues_loop i b =
     (if b = [] then Ok i
      else case readKind b of
        Ok (k, tagsize, size1) \<Rightarrow>
          if tagsize + size1 = 0 then Loops
          else if unat (tagsize + size1) > length b then Panic
          else CountValues_loop (Suc i) (drop (unat (tagsize + size1)) b)
      | Err e \<Rightarrow> Err e | Panic \<Rightarrow> Panic | Loops \<Rightarrow> Loops)"
  by pat_completeness auto
termination by (relation "measure (\<lambda>(i, b). length b)") (auto simp: drop_shorter)

definition CountValues :: "bytes \<Rightarrow> (goerr, nat) outcome" where
  "CountValues b = CountValues_loop 0 b"

declare CountValues_loop.simps [simp del]

section \<open>The readers invert the encoder\<close>

lemma readSize_putint:
  assumes "56 \<le> n" and "n < 2 ^ 64"
  shows "readSize (putint (of_nat n) @ rest) (of_nat (intsize (of_nat n))) = Ok (of_nat n)"
proof -
  let ?l = "be_len n"
  have l: "intsize (of_nat n) = ?l" using assms(2) by (simp add: intsize_be_len unat_of_nat)
  have l8: "?l \<le> 8" using intsize_le_8 [of "of_nat n"] l by simp
  have u: "unat (of_nat ?l :: u8) = ?l" using l8 by (simp add: unat_of_nat)
  have p: "putint (of_nat n) = be_nat ?l n" using assms(2) by (simp add: putint_be_nat l unat_of_nat)
  have v: "nat_of_be (be_nat ?l n) = n" using be_len_upper [of n] by (simp add: nat_of_be_be_nat)
  have s: "(1 :: u8) \<le> of_nat ?l" "(of_nat ?l :: u8) \<le> 8"
    using l8 be_len_pos [of n] u by (simp_all add: word_le_nat_alt del: be_len_pos)
  have big: "\<not> (of_nat n :: u64) < 56" using assms by (simp add: word_less_nat_alt unat_of_nat)
  have hd: "be_nat ?l n ! 0 \<noteq> 0" using be_nat_len_hd [of n] assms(1) by simp
  have "index (be_nat ?l n @ rest) 0 = (Ok (be_nat ?l n ! 0) :: (goerr, u8) outcome)"
    by (simp add: index_def nth_append)
  then show ?thesis
    unfolding readSize_def l p u using s v big hd by (simp add: Let_def)
qed

text \<open>The two kinds of header: the tag and the size it announces.\<close>

lemma tag_small: "n < 56 \<Longrightarrow> t + 56 \<le> 256 \<Longrightarrow> unat (of_nat t + of_nat n :: u8) = t + n"
  by (simp add: unat_word_ariths unat_of_nat)

lemma ucast_small: "n < 256 \<Longrightarrow> (ucast (of_nat n :: u8) :: u64) = of_nat n"
  by (simp add: word_unat_eq_iff unat_of_nat unsigned_ucast_eq take_bit_eq_mod)

lemma room:
  assumes "t + n \<le> m" and "m < 2 ^ 64"
  shows "\<not> (of_nat n :: u64) > of_nat m - of_nat t"
proof -
  have "(of_nat m :: u64) - of_nat t = of_nat (m - t)" using assms(1) by (simp add: of_nat_diff)
  moreover have "unat (of_nat (m - t) :: u64) = m - t" "unat (of_nat n :: u64) = n"
    using assms by (simp_all only: unat_of_nat) simp_all
  ultimately show ?thesis using assms(1) by (simp only: word_less_nat_alt)
qed

lemma readKind_tag:
  assumes "buf = b # rest" and "read_tag b rest = Ok (k, of_nat t, of_nat n)"
    and "t + n \<le> length buf" and "length buf < 2 ^ 64"
  shows "readKind buf = Ok (k, of_nat t, of_nat n)"
  using assms room [OF assms(3,4)] by (simp add: readKind_def)

lemma Split_tag:
  assumes "buf = b # rest" and "read_tag b rest = Ok (k, of_nat t, of_nat n)"
    and "t + n \<le> length buf" and "length buf < 2 ^ 64"
  shows "Split buf = Ok (k, take n (drop t buf), drop (t + n) buf)"
proof -
  have "unat (of_nat t + of_nat n :: u64) = t + n" "unat (of_nat t :: u64) = t"
    using assms(3,4) by (simp_all add: unat_word_ariths unat_of_nat)
  then show ?thesis using readKind_tag [OF assms] assms(3) by (simp add: Split_def)
qed

lemma tag_byte:
  assumes "length b = 1" and "b ! 0 \<le> 0x7F"
  shows "read_tag (b ! 0) rest = Ok (Byte, of_nat 0, of_nat 1)"
  using assms(2) by (simp add: read_tag_def word_less_nat_alt word_le_nat_alt)

lemma tag_string:
  assumes "\<not> (length b = 1 \<and> b ! 0 \<le> 0x7F)" and "length b < 2 ^ 64"
  shows "\<exists>t ts. puthead 0x80 0xB7 (of_nat (length b)) = t # ts \<and>
    read_tag t (ts @ b @ rest) = Ok (String, of_nat (Suc (length ts)), of_nat (length b))"
proof (cases "length b < 56")
  case True
  have u: "unat (0x80 + of_nat (length b) :: u8) = 128 + length b"
    using tag_small [OF True, of 128] by simp
  have "\<not> ((of_nat (length b) :: u64) = 1 \<and> b ! 0 < 128)"
    using assms by (auto simp: word_unat_eq_iff unat_of_nat word_less_nat_alt word_le_nat_alt)
  then have "read_tag (0x80 + of_nat (length b)) (b @ rest) = Ok (String, 1, of_nat (length b))"
    using True u by (auto simp: read_tag_def word_less_nat_alt ucast_small nth_append Let_def unat_of_nat word_unat_eq_iff)
  then show ?thesis using True assms(2)
    by (simp add: puthead_def word_less_nat_alt unat_of_nat ucast_byte_nat)
next
  case False
  let ?l = "intsize (of_nat (length b))"
  have l: "?l \<le> 8" by (rule intsize_le_8)
  have l0: "0 < ?l" by (simp add: intsize_be_len)
  have u: "unat (0xB7 + of_nat ?l :: u8) = 0xB7 + ?l"
    using l tag_small [of ?l "0xB7"] by simp
  have "read_tag (0xB7 + of_nat ?l) (putint (of_nat (length b)) @ b @ rest) =
      Ok (String, of_nat (Suc ?l), of_nat (length b))"
    using False assms(2) u l l0 readSize_putint [of "length b" "b @ rest"]
    by (simp add: read_tag_def word_less_nat_alt ucast_small add.commute take_bit_eq_mod)
  then show ?thesis using False assms(2)
    by (simp add: puthead_def word_less_nat_alt unat_of_nat)
qed

lemma tag_list:
  assumes "length b < 2 ^ 64"
  shows "\<exists>t ts. puthead 0xC0 0xF7 (of_nat (length b)) = t # ts \<and>
    read_tag t (ts @ b @ rest) = Ok (List, of_nat (Suc (length ts)), of_nat (length b))"
proof (cases "length b < 56")
  case True
  have u: "unat (0xC0 + of_nat (length b) :: u8) = 0xC0 + length b"
    using tag_small [OF True, of "0xC0"] by simp
  then have "read_tag (0xC0 + of_nat (length b)) (b @ rest) = Ok (List, 1, of_nat (length b))"
    using True by (simp add: read_tag_def word_less_nat_alt ucast_small)
  then show ?thesis using True assms
    by (simp add: puthead_def word_less_nat_alt unat_of_nat ucast_byte_nat)
next
  case False
  let ?l = "intsize (of_nat (length b))"
  have l: "?l \<le> 8" by (rule intsize_le_8)
  have l0: "0 < ?l" by (simp add: intsize_be_len)
  have u: "unat (0xF7 + of_nat ?l :: u8) = 0xF7 + ?l"
    using l by (simp add: unat_word_ariths unat_of_nat)
  have "read_tag (0xF7 + of_nat ?l) (putint (of_nat (length b)) @ b @ rest) =
      Ok (List, of_nat (Suc ?l), of_nat (length b))"
    using False assms u l l0 readSize_putint [of "length b" "b @ rest"]
    by (simp add: read_tag_def word_less_nat_alt ucast_small add.commute take_bit_eq_mod)
  then show ?thesis using False assms
    by (simp add: puthead_def word_less_nat_alt unat_of_nat)
qed

text \<open>
  A value as the reader sees it: a list, or a string, which is of kind \<open>Byte\<close> when it is one byte
  below 128.
\<close>

definition rlp_item :: "Kind \<Rightarrow> bytes \<Rightarrow> bytes" where
  "rlp_item k c = (if k = List then rlp_list c else rlp_string c)"

definition item_kind :: "Kind \<Rightarrow> bytes \<Rightarrow> bool" where
  "item_kind k c = (k = List \<or> (k = Byte) = (length c = 1 \<and> c ! 0 \<le> 0x7F))"

lemma read_item:
  assumes k: "item_kind k c" and len: "length (rlp_item k c @ r) < 2 ^ 64"
  shows "\<exists>b rest t. rlp_item k c @ r = b # rest \<and> t + length c = length (rlp_item k c) \<and>
    drop t (rlp_item k c) = c \<and> read_tag b rest = Ok (k, of_nat t, of_nat (length c))"
proof (cases "k = List")
  case True
  then have "length c < 2 ^ 64" using len length_rlp_list [of c] by (simp add: rlp_item_def)
  from tag_list [OF this, of r] show ?thesis
    unfolding rlp_item_def rlp_list_def using True by auto
next
  case nl: False
  then have lc: "length c < 2 ^ 64" using len length_rlp_string [of c] by (simp add: rlp_item_def)
  show ?thesis
  proof (cases "length c = 1 \<and> c ! 0 \<le> 0x7F")
    case True
    then obtain b where "c = [b]" by (auto simp: length_Suc_conv)
    then show ?thesis using True nl k tag_byte [of c r]
      by (auto simp: rlp_item_def rlp_string_def item_kind_def)
  next
    case False
    then have "k = String" using k nl by (cases k) (auto simp: item_kind_def)
    then show ?thesis using tag_string [OF False lc, of r] False
      unfolding rlp_item_def rlp_string_def by auto
  qed
qed

lemma Split_item:
  assumes k: "item_kind k c" and len: "length (rlp_item k c @ r) < 2 ^ 64"
  shows "Split (rlp_item k c @ r) = Ok (k, c, r)"
proof -
  obtain b rest t where t: "rlp_item k c @ r = b # rest" "t + length c = length (rlp_item k c)"
      "drop t (rlp_item k c) = c" "read_tag b rest = Ok (k, of_nat t, of_nat (length c))"
    using read_item [OF assms] by blast
  have "Split (rlp_item k c @ r) = Ok (k, take (length c) (drop t (rlp_item k c @ r)),
      drop (t + length c) (rlp_item k c @ r))"
    by (rule Split_tag [OF t(1,4) _ len]) (use t(2) in simp)
  moreover have "drop t (rlp_item k c @ r) = c @ r" using t(2,3) by simp
  ultimately show ?thesis using t(2) by simp
qed

text \<open>Whatever is read fits the input, and is written back by the encoder.\<close>

lemma nat_of_be_upper: "nat_of_be bs < 256 ^ length bs"
proof -
  have "nat_of_be bs = nat_of_be bs mod 256 ^ length bs"
    using nat_of_be_be_nat [of "length bs" "nat_of_be bs"] by (simp add: be_nat_nat_of_be)
  then show ?thesis by (metis mod_less_divisor zero_less_numeral zero_less_power)
qed

lemma nat_of_be_lower: "bs ! 0 \<noteq> 0 \<Longrightarrow> bs \<noteq> [] \<Longrightarrow> 256 ^ (length bs - 1) \<le> nat_of_be bs"
proof (induction bs rule: rev_induct)
  case (snoc b bs)
  show ?case
  proof (cases "bs = []")
    case True
    then show ?thesis using snoc.prems by (simp add: nat_of_be_def unat_gt_0 Suc_le_eq)
  next
    case False
    then have "256 ^ (length bs - 1) \<le> nat_of_be bs" using snoc by (simp add: nth_append)
    moreover have "(256 :: nat) ^ length bs = 256 ^ (length bs - 1) * 256"
      using False by (cases bs) simp_all
    ultimately show ?thesis by (simp add: nat_of_be_snoc)
  qed
qed simp

lemma readSize_bytes:
  assumes "readSize b l = Ok n"
  shows "unat l \<le> length b \<and> 56 \<le> n \<and> take (unat l) b = putint n \<and> intsize n = unat l"
proof -
  let ?d = "take (unat l) b"
  let ?v = "nat_of_be ?d"
  have l: "unat l \<le> length b" "1 \<le> l \<and> l \<le> 8" "n = of_nat ?v" "\<not> n < 56" "b ! 0 \<noteq> 0"
    using assms(1) by (auto simp: readSize_def Let_def index_def outcome_simps split: if_splits)
  have l8: "0 < unat l" "unat l \<le> 8" using l(2) by (auto simp: word_le_nat_alt)
  have len: "length ?d = unat l" using l(1) by simp
  have "b \<noteq> []" using l(1) l8(1) by auto
  then have low: "256 ^ (unat l - 1) \<le> ?v" using nat_of_be_lower [of ?d] l8 l(1,5) by simp
  have up: "?v < 256 ^ unat l" using nat_of_be_upper [of ?d] len by simp
  have "(256 :: nat) ^ unat l \<le> 256 ^ 8" using l8(2) by (intro power_increasing) simp_all
  then have "?v < 2 ^ 64" using up by simp
  then have u: "unat n = ?v" using l(3) by (simp add: unat_of_nat)
  have "be_len ?v = Suc (unat l - 1)" using low up l8(1) by (intro be_len_range) simp_all
  then have i: "intsize n = unat l" using u l8(1) by (simp add: intsize_be_len)
  have "putint n = ?d" using be_nat_nat_of_be [OF len] by (simp add: putint_be_nat i u)
  then show ?thesis using l i by simp
qed

lemma unat_byte: "unat (b :: u8) < 256"
  using unsigned_less [of b] by simp

lemma unat_ucast_byte: "unat (ucast (b :: u8) :: u64) = unat b"
  using unat_byte [of b] by (simp add: unsigned_ucast_eq take_bit_eq_mod)

lemma puthead_short:
  assumes "length c < 56" and "unat b = t + length c"
  shows "puthead (of_nat t) lt (of_nat (length c)) = [b]"
proof -
  have "of_nat t + ucast (of_nat (length c) :: u64) = b"
    using assms by (simp add: ucast_byte_nat flip: of_nat_add) (metis of_nat_unat ucast_id)
  then show ?thesis using assms(1) by (simp add: puthead_def word_less_nat_alt unat_of_nat)
qed

lemma puthead_long:
  assumes "56 \<le> n" and "intsize n = l" and "unat b = t + l"
  shows "puthead st (of_nat t) n = b # putint n"
proof -
  have "of_nat t + of_nat l = b"
    using assms by (simp flip: of_nat_add) (metis of_nat_unat ucast_id)
  then show ?thesis using assms by (simp add: puthead_def leD)
qed

lemma unat_tag: "unat (ucast (b :: u8) + 1 :: u64) = Suc (unat b)"
  using unat_byte [of b] by (simp add: unat_word_ariths unat_ucast_byte)

lemma read_tag_fit:
  assumes "read_tag b rest = Ok (k, ts, cs)"
  shows "unat ts \<le> Suc (length rest)" and "0 < unat ts + unat cs"
    using assms readSize_bytes [of rest "b - 0xB7"] readSize_bytes [of rest "b - 0xF7"]
    by (auto simp: read_tag_def Let_def and_then_eq_Ok unat_tag split: if_splits)

lemma sub_byte: "t \<le> unat b \<Longrightarrow> unat ((b :: u8) - of_nat t) = unat b - t"
  using unat_byte [of b] by (simp add: unat_sub word_le_nat_alt unat_of_nat)

lemma read_long:
  assumes "readSize rest (b - of_nat t) = Ok cs" and "t \<le> unat b" and ts: "ts = (ucast (b - of_nat t) + 1 :: u64)"
    and c: "c = take (unat cs) (drop (unat ts) (b # rest))" "length c = unat cs"
  shows "56 \<le> length c \<and>
    take (unat ts + unat cs) (b # rest) = puthead st (of_nat t) (of_nat (length c)) @ c"
proof -
  have r: "unat (b - of_nat t) \<le> length rest" "56 \<le> cs"
      "take (unat (b - of_nat t)) rest = putint cs" "intsize cs = unat (b - of_nat t)"
    using readSize_bytes [OF assms(1)] by blast+
  have h: "puthead st (of_nat t) cs = b # putint cs"
    using puthead_long [OF r(2,4)] sub_byte [OF assms(2)] assms(2) by simp
  have u: "unat ts = Suc (unat (b - of_nat t))" unfolding ts by (rule unat_tag)
  have "take (unat ts + unat cs) (b # rest) = (b # putint cs) @ c"
    unfolding take_add c(1) u using r(3) by simp
  then show ?thesis using h r(2) c(2) by (simp add: word_le_nat_alt)
qed

lemma read_tag_inv:
  assumes ok: "read_tag b rest = Ok (k, ts, cs)"
    and fits: "unat ts + unat cs \<le> Suc (length rest)" "Suc (length rest) < 2 ^ 64"
    and c: "c = take (unat cs) (drop (unat ts) (b # rest))"
  shows "item_kind k c \<and> take (unat ts + unat cs) (b # rest) = rlp_item k c"
proof -
  have lc: "length c = unat cs" using fits c by simp
  consider (byte) "b < 0x80" "k = Byte" "ts = 0" "cs = 1"
    | (short) "\<not> b < 0x80" "b < 0xB8" "k = String" "ts = 1" "cs = ucast (b - 0x80)"
        "\<not> (cs = 1 \<and> 0 < length rest \<and> rest ! 0 < 128)"
    | (long) "\<not> b < 0xB8" "b < 0xC0" "k = String" "ts = ucast (b - 0xB7) + 1"
        "readSize rest (b - 0xB7) = Ok cs"
    | (shortl) "\<not> b < 0xC0" "b < 0xF8" "k = List" "ts = 1" "cs = ucast (b - 0xC0)"
    | (longl) "\<not> b < 0xF8" "k = List" "ts = ucast (b - 0xF7) + 1"
        "readSize rest (b - 0xF7) = Ok cs"
    using ok by (auto simp: read_tag_def Let_def and_then_eq_Ok split: if_splits)
  then show ?thesis
  proof cases
    case byte
    then show ?thesis using c
      by (simp add: item_kind_def rlp_item_def rlp_string_def word_less_nat_alt word_le_nat_alt)
  next
    case short
    have u: "unat b = 128 + length c" "length c < 56"
      using short lc sub_byte [of 128 b] by (auto simp: word_less_nat_alt unat_ucast_byte)
    have "\<not> (length c = 1 \<and> c ! 0 \<le> 0x7F)"
      using short c lc fits by (auto simp: word_unat_eq_iff word_less_nat_alt word_le_nat_alt)
    then show ?thesis using short(3,4) c lc puthead_short [OF u(2,1)]
      by (simp add: item_kind_def rlp_item_def rlp_string_def)
  next
    case long
    have "56 \<le> length c \<and>
        take (unat ts + unat cs) (b # rest) = puthead 0x80 (of_nat 183) (of_nat (length c)) @ c"
      by (rule read_long [OF _ _ _ c lc]) (use long in \<open>auto simp: word_less_nat_alt\<close>)
    then show ?thesis using long(3) by (auto simp: item_kind_def rlp_item_def rlp_string_def)
  next
    case shortl
    have u: "unat b = 192 + length c" "length c < 56"
      using shortl lc sub_byte [of 192 b] by (auto simp: word_less_nat_alt unat_ucast_byte)
    then show ?thesis using shortl(3,4) c lc puthead_short [OF u(2,1)]
      by (simp add: item_kind_def rlp_item_def rlp_list_def)
  next
    case longl
    have "56 \<le> length c \<and>
        take (unat ts + unat cs) (b # rest) = puthead 0xC0 (of_nat 247) (of_nat (length c)) @ c"
      by (rule read_long [OF _ _ _ c lc]) (use longl in \<open>auto simp: word_less_nat_alt\<close>)
    then show ?thesis using longl(2) by (simp add: item_kind_def rlp_item_def rlp_list_def)
  qed
qed

lemma readKind_fits:
  assumes "readKind b = Ok (k, ts, cs)" and "length b < 2 ^ 64"
  shows "unat ts + unat cs \<le> length b" and "unat (ts + cs) = unat ts + unat cs" and "ts + cs \<noteq> 0"
proof -
  obtain x rest where b: "b = x # rest" and t: "read_tag x rest = Ok (k, ts, cs)"
      and le: "\<not> of_nat (length b) - ts < cs"
    using assms(1) by (auto simp: readKind_def and_then_eq_Ok split: list.splits if_splits)
  note fit = read_tag_fit [OF t]
  have "unat ts \<le> length b" using fit(1) b by simp
  then have "ts \<le> of_nat (length b)" using assms(2) by (simp add: word_le_nat_alt unat_of_nat)
  then have "unat (of_nat (length b) - ts) = length b - unat ts"
    using assms(2) by (simp add: unat_sub unat_of_nat)
  then show s: "unat ts + unat cs \<le> length b" using le fit(1) b by (simp add: word_less_nat_alt)
  then show u: "unat (ts + cs) = unat ts + unat cs" using assms(2) by (simp add: unat_word_ariths)
  show "ts + cs \<noteq> 0" using u fit(2) by (metis unat_0 less_irrefl)
qed

lemma Split_inv:
  assumes "Split b = Ok (k, c, r)" and len: "length b < 2 ^ 64"
  shows "item_kind k c \<and> b = rlp_item k c @ r"
proof -
  obtain ts cs where kd: "readKind b = Ok (k, ts, cs)"
      and c: "c = take (unat (ts + cs) - unat ts) (drop (unat ts) b)" "r = drop (unat (ts + cs)) b"
    using assms(1) by (auto simp: Split_def and_then_eq_Ok split: if_splits)
  note fit = readKind_fits [OF kd len]
  obtain x rest where b: "b = x # rest" and t: "read_tag x rest = Ok (k, ts, cs)"
    using kd by (auto simp: readKind_def and_then_eq_Ok split: list.splits if_splits)
  have "item_kind k c \<and> take (unat ts + unat cs) (x # rest) = rlp_item k c"
    by (rule read_tag_inv [OF t]) (use fit c b len in auto)
  then show ?thesis using c(2) fit(2) b by (metis append_take_drop_id)
qed

lemma readSize_runs: "readSize b l \<noteq> Panic \<and> readSize b l \<noteq> Loops"
proof (cases "b = []")
  case True
  then show ?thesis by (cases "l = 0") (auto simp: readSize_def unat_gt_0)
qed (auto simp: readSize_def index_def Let_def outcome_simps split: if_splits)

lemma readKind_runs: "readKind b \<noteq> Panic \<and> readKind b \<noteq> Loops"
  by (auto simp: readKind_def read_tag_def readSize_runs Let_def outcome_simps
      split: list.splits if_splits)

lemma Split_runs:
  assumes "length b < 2 ^ 64"
  shows "Split b \<noteq> Panic \<and> Split b \<noteq> Loops"
proof (cases "readKind b")
  case (Ok x)
  obtain k ts cs where x: "x = (k, ts, cs)" by (cases x)
  show ?thesis using readKind_fits [OF Ok [unfolded x] assms] Ok x by (simp add: Split_def)
qed (use readKind_runs [of b] in \<open>auto simp: Split_def\<close>)

text \<open>C38. \<^verbatim>\<open>Split\<close> accepts exactly the canonical encodings: on a slice that fits the address space it
  never panics, and it returns a kind, a content and a rest if and only if the input is the
  encoding of that content as a list, or as a string (kind \<open>Byte\<close> for one byte below 128),
  followed by that rest.\<close>

theorem Split_canonical:
  assumes "length b < 2 ^ 64"
  shows "(Split b = Ok (k, c, r) \<longleftrightarrow> b = rlp_item k c @ r \<and> item_kind k c) \<and>
    Split b \<noteq> Panic \<and> Split b \<noteq> Loops"
  using Split_item [of k c r] Split_inv [of b k c r] Split_runs [of b] assms by blast

theorem Split_canonical_witness:
  "Split [0x83, 1, 2, 3, 9] = Ok (String, [1, 2, 3], [9]) \<and> Split [0x81, 5] \<noteq> Ok (String, [5], [])"
proof -
  have "[0x83, 1, 2, 3, 9] = rlp_item String [1, 2, 3] @ [9] \<and> item_kind String [1, 2, 3]"
    by (simp add: rlp_item_def rlp_string_def puthead_def item_kind_def)
  moreover have "\<not> item_kind String [5]" by (simp add: item_kind_def)
  ultimately show ?thesis
    using Split_canonical [of "[0x83, 1, 2, 3, 9]" String "[1, 2, 3]" "[9]"]
      Split_canonical [of "[0x81, 5]" String "[5]" "[]"] by simp
qed

text \<open>Numbers: the appending writer, the generic one and the reader agree.\<close>

lemma AppendUint64_putint:
  "\<not> i < 128 \<Longrightarrow> AppendUint64 b i = b @ (0x80 + of_nat (length (putint i))) # putint i"
  unfolding AppendUint64_def putint_def by (cases "i = 0") (simp_all del: length_putint)

lemma AppendUint64_rlp_nat: "AppendUint64 b i = b @ rlp_nat (unat i)"
proof -
  consider "i = 0" | "0 < unat i" "unat i < 128" | "128 \<le> unat i" by (metis not_less unat_gt_0)
  then show ?thesis
  proof cases
    case 2
    then have "i \<noteq> 0" "i < 128" by (auto simp: word_less_nat_alt)
    then show ?thesis using rlp_nat_small [OF 2] by (simp add: AppendUint64_def)
  next
    case 3
    have "be_len (unat i) < 56" using intsize_le_8 [of i] by (simp add: intsize_be_len)
    then show ?thesis
      using 3 AppendUint64_putint [of i b] rlp_nat_large [OF 3]
      by (simp add: word_less_nat_alt putint_be_nat intsize_be_len)
  qed (simp add: AppendUint64_def rlp_nat_def rlp_string_def puthead_def)
qed

lemma IntSize_length: "IntSize i = length (rlp_nat (unat i))"
proof (cases "i < 128")
  case True
  then show ?thesis using rlp_nat_small [of "unat i"]
    by (cases "i = 0") (auto simp: IntSize_def rlp_nat_def rlp_string_def puthead_def word_less_nat_alt unat_gt_0)
next
  case False
  then show ?thesis using AppendUint64_putint [OF False, of "[]"] AppendUint64_rlp_nat [of "[]" i]
    by (simp add: IntSize_def)
qed

lemma SplitString_string:
  assumes "length (rlp_string c @ r) < 2 ^ 64"
  shows "SplitString (rlp_string c @ r) = Ok (c, r)"
proof -
  let ?k = "if length c = 1 \<and> c ! 0 \<le> 0x7F then Byte else String"
  have "Split (rlp_item ?k c @ r) = Ok (?k, c, r)"
    by (rule Split_item) (use assms in \<open>auto simp: item_kind_def rlp_item_def\<close>)
  then show ?thesis by (simp add: SplitString_def rlp_item_def split: if_splits)
qed

lemma SplitList_list:
  assumes "length (rlp_list c @ r) < 2 ^ 64"
  shows "SplitList (rlp_list c @ r) = Ok (c, r)"
  using Split_item [of List c r] assms by (simp add: SplitList_def rlp_item_def item_kind_def)

lemma readSize_nat:
  assumes "n < 2 ^ 64" and "56 \<le> n"
  shows "readSize (be_nat (be_len n) n) (of_nat (be_len n)) = Ok (of_nat n)"
  using readSize_putint [OF assms(2,1), of "[]"] assms(1)
  by (simp add: putint_be_nat intsize_be_len unat_of_nat)

lemma length_rlp_nat: "length (rlp_nat (unat (i :: u64))) \<le> 9"
  using IntSize_length [of i] intsize_le_8 [of i] by (simp add: IntSize_def split: if_splits)

lemma SplitUint64_nat:
  assumes "length r < 2 ^ 63"
  shows "SplitUint64 (rlp_nat (unat i) @ r) = Ok (i, r)"
proof -
  let ?n = "unat i"
  let ?c = "if ?n = 0 then [] else be_nat (be_len ?n) ?n"
  have n: "?n < 2 ^ 64" using unat_bound [of i] by simp
  have l8: "be_len ?n \<le> 8" using intsize_le_8 [of i] by (simp add: intsize_be_len)
  have s: "SplitString (rlp_nat ?n @ r) = Ok (?c, r)"
    unfolding rlp_nat_def
    by (rule SplitString_string) (use length_rlp_nat [of i] assms in \<open>simp add: rlp_nat_def\<close>)
  consider "?n = 0" | "0 < ?n" "?n < 256" | "256 \<le> ?n" by linarith
  then show ?thesis
  proof cases
    case 1
    then show ?thesis using s by (simp add: SplitUint64_def word_unat_eq_iff)
  next
    case 2
    then have c: "?c = [of_nat ?n]" by (simp add: be_len.simps [of ?n])
    have "(ucast (of_nat ?n :: u8) :: u64) = i" "(of_nat ?n :: u8) \<noteq> 0"
      using 2 ucast_small [of ?n] arg_cong [of "ucast i :: u8" 0 unat]
      by (simp_all add: word_unat_eq_iff unat_of_nat unsigned_ucast_eq take_bit_eq_mod)
    then show ?thesis using s unfolding c by (simp add: SplitUint64_def)
  next
    case 3
    then have "be_len ?n = Suc (be_len (?n div 256))" by (subst be_len.simps) simp
    then have "length ?c \<noteq> 0" "length ?c \<noteq> 1" "\<not> length ?c > 8" "length ?c = be_len ?n"
      using 3 l8 be_len_pos [of "?n div 256"] by (simp_all del: be_len_pos)
    moreover have "readSize ?c (of_nat (be_len ?n)) = Ok i"
      using readSize_nat [OF n] 3 by (simp add: word_unat_eq_iff)
    moreover have "?n \<noteq> 0" "be_nat (be_len ?n) ?n \<noteq> []"
      using 3 be_len_pos [of ?n] length_be_nat [of "be_len ?n" ?n]
      by (simp_all add: length_greater_0_conv [symmetric] del: length_greater_0_conv)
    ultimately show ?thesis unfolding SplitUint64_def s by simp
  qed
qed

text \<open>Writing and reading numbers: the appender \<^verbatim>\<open>AppendUint64\<close> writes what the encoder
  writes, in \<^verbatim>\<open>IntSize\<close> bytes, and \<^verbatim>\<open>SplitUint64\<close> reads every number back together with
  the untouched rest.\<close>

theorem SplitUint64_roundtrip:
  assumes "length r < 2 ^ 63"
  shows "SplitUint64 (AppendUint64 [] i @ r) = Ok (i, r) \<and>
    length (AppendUint64 b i) = length b + IntSize i \<and>
    EncodeToBytes (RlpUint i) = Ok (AppendUint64 [] i)"
  using SplitUint64_nat [OF assms, of i]
  by (simp add: AppendUint64_rlp_nat IntSize_length EncodeToBytes_def writeUint64_append
      makeBytes_def new_encBuffer_def buf_append_def)

theorem SplitUint64_roundtrip_witness:
  "SplitUint64 (AppendUint64 [] 1024 @ [7]) = Ok (1024, [7])"
  using SplitUint64_roundtrip [of "[7]" 1024 "[]"] by simp

section \<open>Counting the values of a slice\<close>

definition rlp_items :: "(Kind \<times> bytes) list \<Rightarrow> bytes" where
  "rlp_items items = concat (map (\<lambda>(k, c). rlp_item k c) items)"

lemma readKind_Split:
  assumes "readKind b = Ok (k, ts, cs)" and "length b < 2 ^ 64"
  shows "\<exists>c. Split b = Ok (k, c, drop (unat (ts + cs)) b)"
  using readKind_fits [OF assms] assms(1) by (simp add: Split_def)

lemma Split_readKind: "Split b = Ok (k, c, r) \<Longrightarrow> \<exists>ts cs. readKind b = Ok (k, ts, cs)"
  by (auto simp: Split_def and_then_eq_Ok split: if_splits)

lemma rlp_item_not_Nil: "item_kind k c \<Longrightarrow> rlp_item k c \<noteq> []"
  by (auto simp: rlp_item_def rlp_list_def rlp_string_def puthead_def)

lemma rlp_items_simps [simp]:
  "rlp_items [] = []" "rlp_items ((k, c) # items) = rlp_item k c @ rlp_items items"
  by (simp_all add: rlp_items_def)

lemma CountValues_loop_Nil [simp]: "CountValues_loop i [] = Ok i"
  by (simp add: CountValues_loop.simps)

lemma CountValues_loop_step:
  assumes "readKind b = Ok (k, ts, cs)" and "length b < 2 ^ 64" and "b \<noteq> []"
  shows "CountValues_loop i b = CountValues_loop (Suc i) (drop (unat (ts + cs)) b)"
  using assms readKind_fits [OF assms(1,2)] by (simp add: CountValues_loop.simps [of i b])

definition counts :: "nat \<Rightarrow> bytes \<Rightarrow> (goerr, nat) outcome \<Rightarrow> bool" where
  "counts i b res = (res \<noteq> Panic \<and> res \<noteq> Loops \<and>
    (\<forall>n. res = Ok n \<longrightarrow>
      (\<exists>items. b = rlp_items items \<and> (\<forall>(k, c) \<in> set items. item_kind k c) \<and> n = i + length items)))"

lemma counts_step:
  assumes "counts (Suc i) r res" and "item_kind k c"
  shows "counts i (rlp_item k c @ r) res"
  unfolding counts_def
proof (intro conjI allI impI)
  fix n
  assume "res = Ok n"
  then obtain items where "r = rlp_items items" "\<forall>(k, c) \<in> set items. item_kind k c"
      "n = Suc i + length items" using assms(1) unfolding counts_def by blast
  then show "\<exists>items. rlp_item k c @ r = rlp_items items \<and> (\<forall>(k, c) \<in> set items. item_kind k c) \<and>
      n = i + length items"
    using assms(2) by (intro exI [of _ "(k, c) # items"]) simp
qed (use assms(1) in \<open>auto simp: counts_def\<close>)

lemma CountValues_loop_sound: "length b < 2 ^ 64 \<Longrightarrow> counts i b (CountValues_loop i b)"
proof (induction i b rule: CountValues_loop.induct)
  case (1 i b)
  show ?case
  proof (cases "b = []")
    case True
    then show ?thesis by (auto simp: counts_def intro: exI [of _ "[]"])
  next
    case ne: False
    show ?thesis
    proof (cases "readKind b")
      case (Ok x)
      obtain k ts cs where x: "x = (k, ts, cs)" by (cases x)
      note rk = Ok [unfolded x]
      note fit = readKind_fits [OF rk 1(2)]
      let ?r = "drop (unat (ts + cs)) b"
      obtain c where c: "Split b = Ok (k, c, ?r)" using readKind_Split [OF rk 1(2)] by auto
      have "counts (Suc i) ?r (CountValues_loop (Suc i) ?r)"
        using 1(1) [OF ne Ok x [symmetric] refl] fit 1(2) by simp
      then show ?thesis
        using counts_step Split_inv [OF c 1(2)] CountValues_loop_step [OF rk 1(2) ne] by metis
    qed (use ne readKind_runs [of b] in \<open>auto simp: counts_def CountValues_loop.simps [of i b]\<close>)
  qed
qed

lemma CountValues_loop_complete:
  "\<forall>(k, c) \<in> set items. item_kind k c \<Longrightarrow> length (rlp_items items) < 2 ^ 64 \<Longrightarrow>
    CountValues_loop i (rlp_items items) = Ok (i + length items)"
proof (induction items arbitrary: i)
  case (Cons x items)
  obtain k c where x: "x = (k, c)" by (cases x)
  let ?b = "rlp_items (x # items)"
  have s: "Split ?b = Ok (k, c, rlp_items items)"
    using Split_item [of k c "rlp_items items"] Cons.prems x by simp
  obtain ts cs where rk: "readKind ?b = Ok (k, ts, cs)" using Split_readKind [OF s] by auto
  have "drop (unat (ts + cs)) ?b = rlp_items items"
    using readKind_Split [OF rk Cons.prems(2)] s by simp
  moreover have "?b \<noteq> []" using rlp_item_not_Nil [of k c] Cons.prems(1) x by simp
  ultimately show ?case
    using CountValues_loop_step [OF rk Cons.prems(2)] Cons x by simp
qed simp

text \<open>C39. \<^verbatim>\<open>CountValues\<close> terminates without a panic on every slice, and returns a number exactly when
  the slice is a sequence of that many canonical values.\<close>

theorem CountValues_counts:
  assumes "length b < 2 ^ 64"
  shows "CountValues b \<noteq> Panic \<and> CountValues b \<noteq> Loops \<and>
    (CountValues b = Ok n \<longleftrightarrow> (\<exists>items. b = rlp_items items \<and>
       list_all (\<lambda>(k, c). item_kind k c) items \<and> n = length items))"
  using CountValues_loop_sound [OF assms, of 0] CountValues_loop_complete [of _ 0] assms
  unfolding CountValues_def counts_def list_all_iff by (metis add_0)

theorem CountValues_counts_witness: "CountValues [0xC1, 5, 7, 0x80] = Ok 3"
proof -
  let ?items = "[(List, [5]), (Byte, [7]), (String, [])]"
  have "[0xC1, 5, 7, 0x80] = rlp_items ?items \<and> list_all (\<lambda>(k, c). item_kind k c) ?items"
    by (simp add: rlp_item_def rlp_list_def rlp_string_def puthead_def item_kind_def)
  then have "\<exists>items. [0xC1, 5, 7, 0x80] = rlp_items items \<and>
      list_all (\<lambda>(k, c). item_kind k c) items \<and> 3 = length items"
    by (intro exI [of _ ?items]) simp
  then show ?thesis using CountValues_counts [of "[0xC1, 5, 7, 0x80]" 3] by simp
qed

end
