(* ===== verification/Zond_StateDB.thy ===== *)
theory Zond_StateDB
  imports Zond_AccessList Zond_RLP
begin

text \<open>
  The world state (\<^verbatim>\<open>core/state/statedb.go\<close>, \<^verbatim>\<open>state_object.go\<close>, \<^verbatim>\<open>journal.go\<close>): accounts cached as
  state objects over the account trie, the operations on them, the journal of undo entries, and
  snapshots. The node opens its states without a snapshot tree and without a prefetcher, so the
  branches on \<^verbatim>\<open>snap\<close> and \<^verbatim>\<open>prefetcher\<close> are the nil ones. An object pointer held by a caller and
  the entry of \<^verbatim>\<open>stateObjects\<close> are the same object, so a method on an object is an operation on the
  state at the object's address.
\<close>

section \<open>Accounts, objects, logs\<close>

record StateAccount =
  Nonce :: u64
  Balance :: int
  StakeBalance :: int
  PendingStakeBalance :: int
  Root :: Hash
  CodeHash :: bytes
  OTSBitfield :: "bytes list"

definition zero_account :: StateAccount where
  "zero_account = \<lparr>Nonce = 0, Balance = 0, StakeBalance = 0, PendingStakeBalance = 0,
     Root = zero_hash, CodeHash = [], OTSBitfield = []\<rparr>"

type_synonym Storage = "Hash \<Rightarrow> Hash option"

record stateObject =
  so_address :: Address
  so_data :: StateAccount
  so_dbErr :: "goerr option"
  so_code :: "bytes option"
  so_originStorage :: Storage
  so_pendingStorage :: Storage
  so_dirtyStorage :: Storage
  so_fakeStorage :: "Storage option"
  so_dirtyCode :: bool
  so_suicided :: bool
  so_deleted :: bool

record Log =
  log_Address :: Address
  log_Topics :: "Hash list"
  log_Data :: bytes
  log_BlockNumber :: u64
  log_TxHash :: Hash
  log_TxIndex :: u64
  log_BlockHash :: Hash
  log_Index :: u64
  log_Removed :: bool

text \<open>
  What lies below the state: reading a storage slot of an account with a given storage root,
  loading contract code by hash, and Keccak-256. The tries are read through these functions.
\<close>

record StateEnv =
  storage_TryGet :: "Address \<Rightarrow> Hash \<Rightarrow> Hash \<Rightarrow> goerr + bytes"
  ContractCode :: "Hash \<Rightarrow> goerr + bytes"
  env_keccak :: "bytes \<Rightarrow> bytes"

datatype trie_read =
    TrieError goerr | TrieEmpty | TrieUndecodable | TrieAccount StateAccount

definition emptyCodeHash :: "StateEnv \<Rightarrow> bytes" where
  "emptyCodeHash env = env_keccak env []"

definition emptyRoot :: Hash where
  "emptyRoot = HexToHash ''56e81f171bcc55a6ff8345e692c0f86e5b48e01b996cadc001622fb5e363b421''"

definition so_empty :: "StateEnv \<Rightarrow> stateObject \<Rightarrow> bool" where
  "so_empty env o1 \<longleftrightarrow>
     Nonce (so_data o1) = 0 \<and> Balance (so_data o1) = 0 \<and> CodeHash (so_data o1) = emptyCodeHash env"

definition newObject :: "StateEnv \<Rightarrow> Address \<Rightarrow> StateAccount \<Rightarrow> stateObject" where
  "newObject env address data =
     (let d1 = (if CodeHash data = [] then data\<lparr>CodeHash := emptyCodeHash env\<rparr> else data);
          d2 = (if Root d1 = zero_hash then d1\<lparr>Root := emptyRoot\<rparr> else d1)
      in \<lparr>so_address = address, so_data = d2, so_dbErr = None, so_code = None,
          so_originStorage = Map.empty, so_pendingStorage = Map.empty,
          so_dirtyStorage = Map.empty, so_fakeStorage = None,
          so_dirtyCode = False, so_suicided = False, so_deleted = False\<rparr>)"

section \<open>The state and its journal\<close>

datatype journalEntry =
    createObjectChange Address
  | resetObjectChange stateObject
  | suicideChange Address bool int
  | balanceChange Address int
  | stakeBalanceChange Address int
  | pendingStakeBalanceChange Address int
  | nonceChange Address u64
  | otsBitfieldChange Address u64
  | storageChange Address Hash Hash
  | codeChange Address "bytes option" bytes
  | refundChange u64
  | addLogChange Hash
  | addPreimageChange Hash
  | touchChange Address
  | accessListAddAccountChange Address
  | accessListAddSlotChange Address Hash

fun dirtied :: "journalEntry \<Rightarrow> Address option" where
  "dirtied (createObjectChange a) = Some a"
| "dirtied (resetObjectChange prev) = None"
| "dirtied (suicideChange a p b) = Some a"
| "dirtied (balanceChange a b) = Some a"
| "dirtied (stakeBalanceChange a b) = Some a"
| "dirtied (pendingStakeBalanceChange a b) = Some a"
| "dirtied (nonceChange a n) = Some a"
| "dirtied (otsBitfieldChange a i) = Some a"
| "dirtied (storageChange a k v) = Some a"
| "dirtied (codeChange a c h) = Some a"
| "dirtied (refundChange r) = None"
| "dirtied (addLogChange h) = None"
| "dirtied (addPreimageChange h) = None"
| "dirtied (touchChange a) = Some a"
| "dirtied (accessListAddAccountChange a) = None"
| "dirtied (accessListAddSlotChange a s) = None"

record StateDB =
  sdb_trie :: "Address \<Rightarrow> trie_read"
  sdb_stateObjects :: "Address \<Rightarrow> stateObject option"
  sdb_stateObjectsPending :: "Address \<Rightarrow> bool"
  sdb_stateObjectsDirty :: "Address \<Rightarrow> bool"
  sdb_dbErr :: "goerr option"
  sdb_refund :: u64
  sdb_thash :: Hash
  sdb_txIndex :: int
  sdb_logs :: "Hash \<Rightarrow> Log list option"
  sdb_logSize :: u64
  sdb_preimages :: "Hash \<Rightarrow> bytes option"
  sdb_accessList :: accessList
  sdb_entries :: "journalEntry list"
  sdb_dirties :: "Address \<Rightarrow> int option"
  sdb_validRevisions :: "(int \<times> nat) list"
  sdb_nextRevisionId :: int

definition StateDB_New :: "(Address \<Rightarrow> trie_read) \<Rightarrow> StateDB" where
  "StateDB_New tr =
     \<lparr>sdb_trie = tr, sdb_stateObjects = Map.empty, sdb_stateObjectsPending = (\<lambda>_. False),
      sdb_stateObjectsDirty = (\<lambda>_. False), sdb_dbErr = None, sdb_refund = 0,
      sdb_thash = zero_hash, sdb_txIndex = 0, sdb_logs = Map.empty, sdb_logSize = 0,
      sdb_preimages = Map.empty, sdb_accessList = newAccessList, sdb_entries = [],
      sdb_dirties = Map.empty, sdb_validRevisions = [], sdb_nextRevisionId = 0\<rparr>"

definition sdb_setError :: "goerr \<Rightarrow> StateDB \<Rightarrow> StateDB" where
  "sdb_setError e s = (if sdb_dbErr s = None then s\<lparr>sdb_dbErr := Some e\<rparr> else s)"

definition journal_dirty :: "Address \<Rightarrow> StateDB \<Rightarrow> StateDB" where
  "journal_dirty addr s =
     s\<lparr>sdb_dirties := (sdb_dirties s)(addr \<mapsto>
         (case sdb_dirties s addr of None \<Rightarrow> 0 | Some n \<Rightarrow> n) + 1)\<rparr>"

definition journal_append :: "journalEntry \<Rightarrow> StateDB \<Rightarrow> StateDB" where
  "journal_append entry s =
     (let s1 = s\<lparr>sdb_entries := sdb_entries s @ [entry]\<rparr>
      in case dirtied entry of None \<Rightarrow> s1 | Some addr \<Rightarrow> journal_dirty addr s1)"

section \<open>Finding and creating objects\<close>

definition setStateObject :: "stateObject \<Rightarrow> StateDB \<Rightarrow> StateDB" where
  "setStateObject object s =
     s\<lparr>sdb_stateObjects := (sdb_stateObjects s)(so_address object \<mapsto> object)\<rparr>"

definition getDeletedStateObject :: "StateEnv \<Rightarrow> Address \<Rightarrow> StateDB \<Rightarrow> StateDB \<times> stateObject option"
  where
  "getDeletedStateObject env addr s =
     (case sdb_stateObjects s addr of
        Some obj \<Rightarrow> (s, Some obj)
      | None \<Rightarrow>
          (case sdb_trie s addr of
             TrieError e \<Rightarrow> (sdb_setError e s, None)
           | TrieEmpty \<Rightarrow> (s, None)
           | TrieUndecodable \<Rightarrow> (s, None)
           | TrieAccount data \<Rightarrow>
               let obj = newObject env addr data in (setStateObject obj s, Some obj)))"

definition getStateObject :: "StateEnv \<Rightarrow> Address \<Rightarrow> StateDB \<Rightarrow> StateDB \<times> stateObject option" where
  "getStateObject env addr s =
     (case getDeletedStateObject env addr s of
        (s1, Some obj) \<Rightarrow> (s1, if so_deleted obj then None else Some obj)
      | (s1, None) \<Rightarrow> (s1, None))"

text \<open>The result is the state and the previous object, when there was a live one.\<close>

definition createObject :: "StateEnv \<Rightarrow> Address \<Rightarrow> StateDB \<Rightarrow> StateDB \<times> stateObject option" where
  "createObject env addr s =
     (case getDeletedStateObject env addr s of
        (s1, prev) \<Rightarrow>
          let newobj = newObject env addr zero_account;
              s2 = journal_append (case prev of None \<Rightarrow> createObjectChange addr
                                   | Some p \<Rightarrow> resetObjectChange p) s1;
              s3 = setStateObject newobj s2
          in (s3, case prev of Some p \<Rightarrow> (if so_deleted p then None else Some p) | None \<Rightarrow> None))"

definition GetOrNewStateObject :: "StateEnv \<Rightarrow> Address \<Rightarrow> StateDB \<Rightarrow> StateDB" where
  "GetOrNewStateObject env addr s =
     (case getStateObject env addr s of
        (s1, Some obj) \<Rightarrow> s1
      | (s1, None) \<Rightarrow> fst (createObject env addr s1))"

text \<open>A change of the object at an address.\<close>

definition mod_object :: "Address \<Rightarrow> (stateObject \<Rightarrow> stateObject) \<Rightarrow> StateDB \<Rightarrow> StateDB" where
  "mod_object addr f s =
     s\<lparr>sdb_stateObjects := (sdb_stateObjects s)(addr := map_option f (sdb_stateObjects s addr))\<rparr>"

definition mod_data :: "Address \<Rightarrow> (StateAccount \<Rightarrow> StateAccount) \<Rightarrow> StateDB \<Rightarrow> StateDB" where
  "mod_data addr f s = mod_object addr (\<lambda>o1. o1\<lparr>so_data := f (so_data o1)\<rparr>) s"

definition CreateAccount :: "StateEnv \<Rightarrow> Address \<Rightarrow> StateDB \<Rightarrow> StateDB" where
  "CreateAccount env addr s =
     (case createObject env addr s of
        (s1, None) \<Rightarrow> s1
      | (s1, Some prev) \<Rightarrow> mod_data addr (\<lambda>d. d\<lparr>Balance := Balance (so_data prev)\<rparr>) s1)"

section \<open>Methods of an object\<close>

definition ripemd :: Address where
  "ripemd = HexToAddress ''0000000000000000000000000000000000000003''"

definition so_touch :: "Address \<Rightarrow> StateDB \<Rightarrow> StateDB" where
  "so_touch addr s =
     (let s1 = journal_append (touchChange addr) s
      in if addr = ripemd then journal_dirty addr s1 else s1)"

definition so_setBalance :: "Address \<Rightarrow> int \<Rightarrow> StateDB \<Rightarrow> StateDB" where
  "so_setBalance addr amount s = mod_data addr (\<lambda>d. d\<lparr>Balance := amount\<rparr>) s"

definition so_setStakeBalance :: "Address \<Rightarrow> int \<Rightarrow> StateDB \<Rightarrow> StateDB" where
  "so_setStakeBalance addr amount s = mod_data addr (\<lambda>d. d\<lparr>StakeBalance := amount\<rparr>) s"

definition so_setPendingStakeBalance :: "Address \<Rightarrow> int \<Rightarrow> StateDB \<Rightarrow> StateDB" where
  "so_setPendingStakeBalance addr amount s =
     mod_data addr (\<lambda>d. d\<lparr>PendingStakeBalance := amount\<rparr>) s"

definition so_setNonce :: "Address \<Rightarrow> u64 \<Rightarrow> StateDB \<Rightarrow> StateDB" where
  "so_setNonce addr nonce s = mod_data addr (\<lambda>d. d\<lparr>Nonce := nonce\<rparr>) s"

text \<open>The methods below read the object their caller holds, which is the one at the address.\<close>

definition so_SetBalance :: "Address \<Rightarrow> stateObject \<Rightarrow> int \<Rightarrow> StateDB \<Rightarrow> StateDB" where
  "so_SetBalance addr o1 amount s =
     so_setBalance addr amount (journal_append (balanceChange addr (Balance (so_data o1))) s)"

definition so_SetStakeBalance :: "Address \<Rightarrow> stateObject \<Rightarrow> int \<Rightarrow> StateDB \<Rightarrow> StateDB" where
  "so_SetStakeBalance addr o1 amount s =
     so_setStakeBalance addr amount
       (journal_append (stakeBalanceChange addr (StakeBalance (so_data o1))) s)"

definition so_SetPendingStakeBalance :: "Address \<Rightarrow> stateObject \<Rightarrow> int \<Rightarrow> StateDB \<Rightarrow> StateDB" where
  "so_SetPendingStakeBalance addr o1 amount s =
     so_setPendingStakeBalance addr amount
       (journal_append (pendingStakeBalanceChange addr (PendingStakeBalance (so_data o1))) s)"

definition so_AddBalance :: "StateEnv \<Rightarrow> Address \<Rightarrow> stateObject \<Rightarrow> int \<Rightarrow> StateDB \<Rightarrow> StateDB" where
  "so_AddBalance env addr o1 amount s =
     (if amount = 0 then (if so_empty env o1 then so_touch addr s else s)
      else so_SetBalance addr o1 (Balance (so_data o1) + amount) s)"

definition so_SubBalance :: "Address \<Rightarrow> stateObject \<Rightarrow> int \<Rightarrow> StateDB \<Rightarrow> StateDB" where
  "so_SubBalance addr o1 amount s =
     (if amount = 0 then s else so_SetBalance addr o1 (Balance (so_data o1) - amount) s)"

definition so_SetNonce :: "Address \<Rightarrow> stateObject \<Rightarrow> u64 \<Rightarrow> StateDB \<Rightarrow> StateDB" where
  "so_SetNonce addr o1 nonce s =
     so_setNonce addr nonce (journal_append (nonceChange addr (Nonce (so_data o1))) s)"

text \<open>A bitfield row is a \<open>[8]byte\<close>; the index picks row \<open>otsIndex >> 3\<close> and byte \<open>otsIndex % 8\<close>, and
  panics past the last row.\<close>

definition set_ots :: "Address \<Rightarrow> u64 \<Rightarrow> bool \<Rightarrow> bytes list \<Rightarrow> (goerr, bytes list) outcome" where
  "set_ots addr otsIndex rev1 bitfield =
     and_then (if length bitfield = 0
               then and_then (GetMaxOTSBitfieldSizeFromAddress addr) (\<lambda>n.
                      Ok (replicate n (replicate 8 0)))
               else Ok bitfield) (\<lambda>bf.
       let offset = unat (drop_bit 3 otsIndex); relative = unat (otsIndex mod 8) in
       and_then (index bf offset) (\<lambda>row.
         Ok (bf[offset := row[relative := if rev1 then 0 else 1]])))"

definition so_setOTSBitfield :: "Address \<Rightarrow> u64 \<Rightarrow> bool \<Rightarrow> StateDB \<Rightarrow> (goerr, StateDB) outcome" where
  "so_setOTSBitfield addr otsIndex rev1 s =
     and_then (deref (sdb_stateObjects s addr)) (\<lambda>o1.
     and_then (set_ots addr otsIndex rev1 (OTSBitfield (so_data o1))) (\<lambda>bf.
       Ok (mod_data addr (\<lambda>d. d\<lparr>OTSBitfield := bf\<rparr>) s)))"

definition so_SetOTSBitfield :: "Address \<Rightarrow> u64 \<Rightarrow> bool \<Rightarrow> StateDB \<Rightarrow> (goerr, StateDB) outcome" where
  "so_SetOTSBitfield addr otsIndex rev1 s =
     so_setOTSBitfield addr otsIndex rev1 (journal_append (otsBitfieldChange addr otsIndex) s)"

definition so_setError :: "goerr \<Rightarrow> stateObject \<Rightarrow> stateObject" where
  "so_setError e o1 = (if so_dbErr o1 = None then o1\<lparr>so_dbErr := Some e\<rparr> else o1)"

text \<open>\<^verbatim>\<open>Code\<close> loads the code on first use; an error is remembered and gives nil.\<close>

definition so_Code :: "StateEnv \<Rightarrow> stateObject \<Rightarrow> stateObject \<times> bytes option" where
  "so_Code env o1 =
     (case so_code o1 of
        Some c \<Rightarrow> (o1, Some c)
      | None \<Rightarrow>
          if CodeHash (so_data o1) = emptyCodeHash env then (o1, None)
          else (case ContractCode env (BytesToHash (CodeHash (so_data o1))) of
                  Inl e \<Rightarrow> (so_setError e o1, None)
                | Inr c \<Rightarrow> (o1\<lparr>so_code := Some c\<rparr>, Some c)))"

definition so_CodeSize :: "StateEnv \<Rightarrow> stateObject \<Rightarrow> nat" where
  "so_CodeSize env o1 =
     (case so_code o1 of
        Some c \<Rightarrow> length c
      | None \<Rightarrow>
          if CodeHash (so_data o1) = emptyCodeHash env then 0
          else (case ContractCode env (BytesToHash (CodeHash (so_data o1))) of
                  Inl e \<Rightarrow> 0 | Inr c \<Rightarrow> length c))"

definition so_setCode :: "Address \<Rightarrow> Hash \<Rightarrow> bytes option \<Rightarrow> StateDB \<Rightarrow> StateDB" where
  "so_setCode addr codeHash code s =
     mod_object addr (\<lambda>o1. o1\<lparr>so_code := code, so_data := (so_data o1)\<lparr>CodeHash := codeHash\<rparr>,
       so_dirtyCode := True\<rparr>) s"

definition so_SetCode :: "StateEnv \<Rightarrow> Address \<Rightarrow> stateObject \<Rightarrow> Hash \<Rightarrow> bytes \<Rightarrow> StateDB \<Rightarrow> StateDB" where
  "so_SetCode env addr o1 codeHash code s =
     (case so_Code env o1 of
        (o2, prevcode) \<Rightarrow>
          so_setCode addr codeHash (Some code)
            (journal_append (codeChange addr prevcode (CodeHash (so_data o2)))
              (mod_object addr (\<lambda>_. o2) s)))"

text \<open>\<^verbatim>\<open>_, content, _, err := rlp.Split(enc)\<close>; \<open>Split\<close> never panics.\<close>

definition rlp_Split_content :: "bytes \<Rightarrow> goerr + bytes" where
  "rlp_Split_content enc =
     (case Split enc of Ok (k, content, rest) \<Rightarrow> Inr content | Err e \<Rightarrow> Inl e | _ \<Rightarrow> Inl [])"

definition so_GetCommittedState :: "StateEnv \<Rightarrow> Hash \<Rightarrow> stateObject \<Rightarrow> stateObject \<times> Hash" where
  "so_GetCommittedState env key o1 =
     (case so_fakeStorage o1 of
        Some f \<Rightarrow> (o1, case f key of Some v \<Rightarrow> v | None \<Rightarrow> zero_hash)
      | None \<Rightarrow>
     (case so_pendingStorage o1 key of
        Some v \<Rightarrow> (o1, v)
      | None \<Rightarrow>
     (case so_originStorage o1 key of
        Some v \<Rightarrow> (o1, v)
      | None \<Rightarrow>
     (case storage_TryGet env (so_address o1) (Root (so_data o1)) key of
        Inl e \<Rightarrow> (so_setError e o1, zero_hash)
      | Inr enc \<Rightarrow>
          if length enc > 0
          then (case rlp_Split_content enc of
                  Inl e \<Rightarrow> (let o2 = so_setError e o1 in
                            (o2\<lparr>so_originStorage := (so_originStorage o2)(key \<mapsto> zero_hash)\<rparr>,
                             zero_hash))
                | Inr content \<Rightarrow>
                    (let v = Hash_SetBytes content in
                     (o1\<lparr>so_originStorage := (so_originStorage o1)(key \<mapsto> v)\<rparr>, v)))
          else (o1\<lparr>so_originStorage := (so_originStorage o1)(key \<mapsto> zero_hash)\<rparr>, zero_hash)))))"

definition so_GetState :: "StateEnv \<Rightarrow> Hash \<Rightarrow> stateObject \<Rightarrow> stateObject \<times> Hash" where
  "so_GetState env key o1 =
     (case so_fakeStorage o1 of
        Some f \<Rightarrow> (o1, case f key of Some v \<Rightarrow> v | None \<Rightarrow> zero_hash)
      | None \<Rightarrow>
          (case so_dirtyStorage o1 key of
             Some v \<Rightarrow> (o1, v)
           | None \<Rightarrow> so_GetCommittedState env key o1))"

definition so_setState :: "Address \<Rightarrow> Hash \<Rightarrow> Hash \<Rightarrow> StateDB \<Rightarrow> StateDB" where
  "so_setState addr key v s =
     mod_object addr (\<lambda>o1. o1\<lparr>so_dirtyStorage := (so_dirtyStorage o1)(key \<mapsto> v)\<rparr>) s"

definition so_SetState :: "StateEnv \<Rightarrow> Address \<Rightarrow> stateObject \<Rightarrow> Hash \<Rightarrow> Hash \<Rightarrow> StateDB \<Rightarrow> StateDB" where
  "so_SetState env addr o1 key v s =
     (case so_fakeStorage o1 of
        Some f \<Rightarrow> mod_object addr (\<lambda>o2. o2\<lparr>so_fakeStorage := Some (f(key \<mapsto> v))\<rparr>) s
      | None \<Rightarrow>
          (case so_GetState env key o1 of
             (o2, prev) \<Rightarrow>
               let s1 = mod_object addr (\<lambda>_. o2) s in
               if prev = v then s1
               else so_setState addr key v (journal_append (storageChange addr key prev) s1)))"

definition so_finalise :: "stateObject \<Rightarrow> stateObject" where
  "so_finalise o1 =
     o1\<lparr>so_pendingStorage := so_pendingStorage o1 ++ so_dirtyStorage o1,
        so_dirtyStorage := Map.empty\<rparr>"

section \<open>Operations of the state\<close>

text \<open>An operation on the object at an address, created when missing.\<close>

definition on_object :: "StateEnv \<Rightarrow> Address \<Rightarrow> (stateObject \<Rightarrow> StateDB \<Rightarrow> StateDB) \<Rightarrow> StateDB \<Rightarrow> StateDB"
  where
  "on_object env addr f s =
     (let s1 = GetOrNewStateObject env addr s in
      case sdb_stateObjects s1 addr of Some o1 \<Rightarrow> f o1 s1 | None \<Rightarrow> s1)"

definition sdb_AddBalance :: "StateEnv \<Rightarrow> Address \<Rightarrow> int \<Rightarrow> StateDB \<Rightarrow> StateDB" where
  "sdb_AddBalance env addr amount s =
     on_object env addr (\<lambda>o1. so_AddBalance env addr o1 amount) s"

definition sdb_SubBalance :: "StateEnv \<Rightarrow> Address \<Rightarrow> int \<Rightarrow> StateDB \<Rightarrow> StateDB" where
  "sdb_SubBalance env addr amount s = on_object env addr (\<lambda>o1. so_SubBalance addr o1 amount) s"

definition sdb_SetBalance :: "StateEnv \<Rightarrow> Address \<Rightarrow> int \<Rightarrow> StateDB \<Rightarrow> StateDB" where
  "sdb_SetBalance env addr amount s = on_object env addr (\<lambda>o1. so_SetBalance addr o1 amount) s"

definition sdb_SetStakeBalance :: "StateEnv \<Rightarrow> Address \<Rightarrow> int \<Rightarrow> StateDB \<Rightarrow> StateDB" where
  "sdb_SetStakeBalance env addr amount s =
     on_object env addr (\<lambda>o1. so_SetStakeBalance addr o1 amount) s"

definition sdb_SetPendingStakeBalance :: "StateEnv \<Rightarrow> Address \<Rightarrow> int \<Rightarrow> StateDB \<Rightarrow> StateDB" where
  "sdb_SetPendingStakeBalance env addr amount s =
     on_object env addr (\<lambda>o1. so_SetPendingStakeBalance addr o1 amount) s"

definition sdb_SetNonce :: "StateEnv \<Rightarrow> Address \<Rightarrow> u64 \<Rightarrow> StateDB \<Rightarrow> StateDB" where
  "sdb_SetNonce env addr nonce s = on_object env addr (\<lambda>o1. so_SetNonce addr o1 nonce) s"

definition sdb_SetOTSBitfield :: "StateEnv \<Rightarrow> Address \<Rightarrow> u64 \<Rightarrow> bool \<Rightarrow> StateDB
    \<Rightarrow> (goerr, StateDB) outcome" where
  "sdb_SetOTSBitfield env addr otsIndex rev1 s =
     so_SetOTSBitfield addr otsIndex rev1 (GetOrNewStateObject env addr s)"

definition sdb_SetCode :: "StateEnv \<Rightarrow> Address \<Rightarrow> bytes \<Rightarrow> StateDB \<Rightarrow> StateDB" where
  "sdb_SetCode env addr code s =
     on_object env addr (\<lambda>o1. so_SetCode env addr o1 (env_keccak env code) code) s"

definition sdb_SetState :: "StateEnv \<Rightarrow> Address \<Rightarrow> Hash \<Rightarrow> Hash \<Rightarrow> StateDB \<Rightarrow> StateDB" where
  "sdb_SetState env addr key v s = on_object env addr (\<lambda>o1. so_SetState env addr o1 key v) s"

definition sdb_Suicide :: "StateEnv \<Rightarrow> Address \<Rightarrow> StateDB \<Rightarrow> StateDB \<times> bool" where
  "sdb_Suicide env addr s =
     (case getStateObject env addr s of
        (s1, None) \<Rightarrow> (s1, False)
      | (s1, Some o1) \<Rightarrow>
          (mod_object addr (\<lambda>o2. o2\<lparr>so_suicided := True, so_data := (so_data o2)\<lparr>Balance := 0\<rparr>\<rparr>)
             (journal_append (suicideChange addr (so_suicided o1) (Balance (so_data o1))) s1), True))"

definition sdb_AddLog :: "Log \<Rightarrow> StateDB \<Rightarrow> StateDB" where
  "sdb_AddLog log s =
     (let s1 = journal_append (addLogChange (sdb_thash s)) s;
          log1 = log\<lparr>log_TxHash := sdb_thash s, log_TxIndex := of_int (sdb_txIndex s),
                     log_Index := sdb_logSize s\<rparr>
      in s1\<lparr>sdb_logs := (sdb_logs s1)(sdb_thash s \<mapsto>
              (case sdb_logs s1 (sdb_thash s) of None \<Rightarrow> [] | Some ls \<Rightarrow> ls) @ [log1]),
            sdb_logSize := sdb_logSize s1 + 1\<rparr>)"

definition sdb_AddPreimage :: "Hash \<Rightarrow> bytes \<Rightarrow> StateDB \<Rightarrow> StateDB" where
  "sdb_AddPreimage hash preimage s =
     (if sdb_preimages s hash = None
      then (journal_append (addPreimageChange hash) s)
             \<lparr>sdb_preimages := (sdb_preimages s)(hash \<mapsto> preimage)\<rparr>
      else s)"

definition sdb_AddRefund :: "u64 \<Rightarrow> StateDB \<Rightarrow> StateDB" where
  "sdb_AddRefund gas s =
     (journal_append (refundChange (sdb_refund s)) s)\<lparr>sdb_refund := sdb_refund s + gas\<rparr>"

definition sdb_SubRefund :: "u64 \<Rightarrow> StateDB \<Rightarrow> (goerr, StateDB) outcome" where
  "sdb_SubRefund gas s =
     (let s1 = journal_append (refundChange (sdb_refund s)) s in
      if gas > sdb_refund s then Panic else Ok (s1\<lparr>sdb_refund := sdb_refund s - gas\<rparr>))"

definition AddAddressToAccessList :: "Address \<Rightarrow> StateDB \<Rightarrow> StateDB" where
  "AddAddressToAccessList addr s =
     (case al_AddAddress addr (sdb_accessList s) of
        (True, al) \<Rightarrow> journal_append (accessListAddAccountChange addr) (s\<lparr>sdb_accessList := al\<rparr>)
      | (False, al) \<Rightarrow> s\<lparr>sdb_accessList := al\<rparr>)"

definition AddSlotToAccessList :: "Address \<Rightarrow> Hash \<Rightarrow> StateDB \<Rightarrow> (goerr, StateDB) outcome" where
  "AddSlotToAccessList addr slot s =
     and_then (al_AddSlot addr slot (sdb_accessList s)) (\<lambda>((addrMod, slotMod), al).
       let s1 = s\<lparr>sdb_accessList := al\<rparr>;
           s2 = (if addrMod then journal_append (accessListAddAccountChange addr) s1 else s1);
           s3 = (if slotMod then journal_append (accessListAddSlotChange addr slot) s2 else s2)
       in Ok s3)"

definition PrepareAccessList :: "Address \<Rightarrow> Address option \<Rightarrow> Address list
    \<Rightarrow> (Address \<times> Hash list) list \<Rightarrow> StateDB \<Rightarrow> (goerr, StateDB) outcome" where
  "PrepareAccessList sender dst precompiles list s =
     (let s1 = AddAddressToAccessList sender (s\<lparr>sdb_accessList := newAccessList\<rparr>);
          s2 = (case dst of None \<Rightarrow> s1 | Some d \<Rightarrow> AddAddressToAccessList d s1);
          s3 = fold AddAddressToAccessList precompiles s2
      in fold_outcome (\<lambda>(a, keys) s4.
           fold_outcome (AddSlotToAccessList a) keys (AddAddressToAccessList a s4)) list s3)"

definition sdb_Prepare :: "Hash \<Rightarrow> int \<Rightarrow> StateDB \<Rightarrow> StateDB" where
  "sdb_Prepare thash ti s = s\<lparr>sdb_thash := thash, sdb_txIndex := ti\<rparr>"

section \<open>Reading the state\<close>

text \<open>The getters load the object and read a field of it; the object they load is the value below.\<close>

definition live_object :: "StateEnv \<Rightarrow> Address \<Rightarrow> StateDB \<Rightarrow> stateObject option" where
  "live_object env addr s = snd (getStateObject env addr s)"

definition sdb_Exist :: "StateEnv \<Rightarrow> Address \<Rightarrow> StateDB \<Rightarrow> bool" where
  "sdb_Exist env addr s \<longleftrightarrow> live_object env addr s \<noteq> None"

definition sdb_Empty :: "StateEnv \<Rightarrow> Address \<Rightarrow> StateDB \<Rightarrow> bool" where
  "sdb_Empty env addr s \<longleftrightarrow> (case live_object env addr s of None \<Rightarrow> True | Some o1 \<Rightarrow> so_empty env o1)"

definition GetBalance :: "StateEnv \<Rightarrow> Address \<Rightarrow> StateDB \<Rightarrow> int" where
  "GetBalance env addr s =
     (case live_object env addr s of Some o1 \<Rightarrow> Balance (so_data o1) | None \<Rightarrow> 0)"

definition GetStakeBalance :: "StateEnv \<Rightarrow> Address \<Rightarrow> StateDB \<Rightarrow> int" where
  "GetStakeBalance env addr s =
     (case live_object env addr s of Some o1 \<Rightarrow> StakeBalance (so_data o1) | None \<Rightarrow> 0)"

definition GetPendingStakeBalance :: "StateEnv \<Rightarrow> Address \<Rightarrow> StateDB \<Rightarrow> int" where
  "GetPendingStakeBalance env addr s =
     (case live_object env addr s of Some o1 \<Rightarrow> PendingStakeBalance (so_data o1) | None \<Rightarrow> 0)"

definition GetNonce :: "StateEnv \<Rightarrow> Address \<Rightarrow> StateDB \<Rightarrow> u64" where
  "GetNonce env addr s =
     (case live_object env addr s of Some o1 \<Rightarrow> Nonce (so_data o1) | None \<Rightarrow> 0)"

definition GetOTSBitfield :: "StateEnv \<Rightarrow> Address \<Rightarrow> StateDB \<Rightarrow> bytes list" where
  "GetOTSBitfield env addr s =
     (case live_object env addr s of Some o1 \<Rightarrow> OTSBitfield (so_data o1) | None \<Rightarrow> [])"

definition GetCode :: "StateEnv \<Rightarrow> Address \<Rightarrow> StateDB \<Rightarrow> bytes option" where
  "GetCode env addr s =
     (case live_object env addr s of Some o1 \<Rightarrow> snd (so_Code env o1) | None \<Rightarrow> None)"

definition GetCodeSize :: "StateEnv \<Rightarrow> Address \<Rightarrow> StateDB \<Rightarrow> nat" where
  "GetCodeSize env addr s =
     (case live_object env addr s of Some o1 \<Rightarrow> so_CodeSize env o1 | None \<Rightarrow> 0)"

definition GetCodeHash :: "StateEnv \<Rightarrow> Address \<Rightarrow> StateDB \<Rightarrow> Hash" where
  "GetCodeHash env addr s =
     (case live_object env addr s of Some o1 \<Rightarrow> BytesToHash (CodeHash (so_data o1))
      | None \<Rightarrow> zero_hash)"

definition GetState :: "StateEnv \<Rightarrow> Address \<Rightarrow> Hash \<Rightarrow> StateDB \<Rightarrow> Hash" where
  "GetState env addr hash s =
     (case live_object env addr s of Some o1 \<Rightarrow> snd (so_GetState env hash o1) | None \<Rightarrow> zero_hash)"

definition GetCommittedState :: "StateEnv \<Rightarrow> Address \<Rightarrow> Hash \<Rightarrow> StateDB \<Rightarrow> Hash" where
  "GetCommittedState env addr hash s =
     (case live_object env addr s of Some o1 \<Rightarrow> snd (so_GetCommittedState env hash o1)
      | None \<Rightarrow> zero_hash)"

definition HasSuicided :: "StateEnv \<Rightarrow> Address \<Rightarrow> StateDB \<Rightarrow> bool" where
  "HasSuicided env addr s =
     (case live_object env addr s of Some o1 \<Rightarrow> so_suicided o1 | None \<Rightarrow> False)"

definition sdb_GetLogs :: "Hash \<Rightarrow> Hash \<Rightarrow> StateDB \<Rightarrow> Log list" where
  "sdb_GetLogs hash blockHash s =
     (case sdb_logs s hash of None \<Rightarrow> [] | Some ls \<Rightarrow> map (\<lambda>l. l\<lparr>log_BlockHash := blockHash\<rparr>) ls)"

section \<open>Undoing\<close>

text \<open>A method call on the object at an address, nil when there is none.\<close>

definition undo_object :: "StateEnv \<Rightarrow> Address \<Rightarrow> (StateDB \<Rightarrow> (goerr, StateDB) outcome) \<Rightarrow> StateDB
    \<Rightarrow> (goerr, StateDB) outcome" where
  "undo_object env addr f s =
     (case getStateObject env addr s of (s1, None) \<Rightarrow> Panic | (s1, Some o1) \<Rightarrow> f s1)"

fun revert_entry :: "StateEnv \<Rightarrow> journalEntry \<Rightarrow> StateDB \<Rightarrow> (goerr, StateDB) outcome" where
  "revert_entry env (createObjectChange a) s =
     Ok (s\<lparr>sdb_stateObjects := (sdb_stateObjects s)(a := None),
           sdb_stateObjectsDirty := (sdb_stateObjectsDirty s)(a := False)\<rparr>)"
| "revert_entry env (resetObjectChange prev) s = Ok (setStateObject prev s)"
| "revert_entry env (suicideChange a prev prevbalance) s =
     (case getStateObject env a s of
        (s1, None) \<Rightarrow> Ok s1
      | (s1, Some o1) \<Rightarrow>
          Ok (so_setBalance a prevbalance (mod_object a (\<lambda>o2. o2\<lparr>so_suicided := prev\<rparr>) s1)))"
| "revert_entry env (balanceChange a prev) s = undo_object env a (\<lambda>s1. Ok (so_setBalance a prev s1)) s"
| "revert_entry env (stakeBalanceChange a prev) s =
     undo_object env a (\<lambda>s1. Ok (so_setStakeBalance a prev s1)) s"
| "revert_entry env (pendingStakeBalanceChange a prev) s =
     undo_object env a (\<lambda>s1. Ok (so_setPendingStakeBalance a prev s1)) s"
| "revert_entry env (nonceChange a prev) s = undo_object env a (\<lambda>s1. Ok (so_setNonce a prev s1)) s"
| "revert_entry env (otsBitfieldChange a otsIndex) s =
     undo_object env a (so_setOTSBitfield a otsIndex True) s"
| "revert_entry env (storageChange a key prevalue) s =
     undo_object env a (\<lambda>s1. Ok (so_setState a key prevalue s1)) s"
| "revert_entry env (codeChange a prevcode prevhash) s =
     undo_object env a (\<lambda>s1. Ok (so_setCode a (BytesToHash prevhash) prevcode s1)) s"
| "revert_entry env (refundChange prev) s = Ok (s\<lparr>sdb_refund := prev\<rparr>)"
| "revert_entry env (addLogChange txhash) s =
     (let ls = (case sdb_logs s txhash of None \<Rightarrow> [] | Some ls \<Rightarrow> ls) in
      if length ls = 1
      then Ok (s\<lparr>sdb_logs := (sdb_logs s)(txhash := None), sdb_logSize := sdb_logSize s - 1\<rparr>)
      else if length ls = 0 then Panic
      else Ok (s\<lparr>sdb_logs := (sdb_logs s)(txhash \<mapsto> butlast ls),
                 sdb_logSize := sdb_logSize s - 1\<rparr>))"
| "revert_entry env (addPreimageChange hash) s =
     Ok (s\<lparr>sdb_preimages := (sdb_preimages s)(hash := None)\<rparr>)"
| "revert_entry env (touchChange a) s = Ok s"
| "revert_entry env (accessListAddAccountChange a) s =
     Ok (s\<lparr>sdb_accessList := al_DeleteAddress a (sdb_accessList s)\<rparr>)"
| "revert_entry env (accessListAddSlotChange a slot) s =
     and_then (al_DeleteSlot a slot (sdb_accessList s)) (\<lambda>al. Ok (s\<lparr>sdb_accessList := al\<rparr>))"

definition undirty :: "journalEntry \<Rightarrow> StateDB \<Rightarrow> StateDB" where
  "undirty entry s =
     (case dirtied entry of
        None \<Rightarrow> s
      | Some addr \<Rightarrow>
          let n = (case sdb_dirties s addr of None \<Rightarrow> 0 | Some n \<Rightarrow> n) - 1
          in s\<lparr>sdb_dirties := (sdb_dirties s)(addr := if n = 0 then None else Some n)\<rparr>)"

definition journal_revert :: "StateEnv \<Rightarrow> nat \<Rightarrow> StateDB \<Rightarrow> (goerr, StateDB) outcome" where
  "journal_revert env snapshot s =
     and_then (fold_outcome (\<lambda>entry s1. and_then (revert_entry env entry s1) (\<lambda>s2. Ok (undirty entry s2)))
                 (rev (drop snapshot (sdb_entries s))) s)
       (\<lambda>s1. if snapshot > length (sdb_entries s) then Panic
             else Ok (s1\<lparr>sdb_entries := take snapshot (sdb_entries s)\<rparr>))"

definition sdb_Snapshot :: "StateDB \<Rightarrow> int \<times> StateDB" where
  "sdb_Snapshot s =
     (sdb_nextRevisionId s,
      s\<lparr>sdb_nextRevisionId := sdb_nextRevisionId s + 1,
        sdb_validRevisions := sdb_validRevisions s @
          [(sdb_nextRevisionId s, length (sdb_entries s))]\<rparr>)"

text \<open>\<^verbatim>\<open>sort.Search\<close> on the increasing revision ids finds the first that is not below.\<close>

definition RevertToSnapshot :: "StateEnv \<Rightarrow> int \<Rightarrow> StateDB \<Rightarrow> (goerr, StateDB) outcome" where
  "RevertToSnapshot env revid s =
     (case find_index (\<lambda>r. fst r \<ge> revid) (sdb_validRevisions s) of
        None \<Rightarrow> Panic
      | Some idx \<Rightarrow>
          if fst (sdb_validRevisions s ! idx) \<noteq> revid then Panic
          else and_then (journal_revert env (snd (sdb_validRevisions s ! idx)) s) (\<lambda>s1.
                 Ok (s1\<lparr>sdb_validRevisions := take idx (sdb_validRevisions s1)\<rparr>)))"

section \<open>Finalising a transaction\<close>

definition clearJournalAndRefund :: "StateDB \<Rightarrow> StateDB" where
  "clearJournalAndRefund s =
     (let s1 = (if length (sdb_entries s) > 0
                then s\<lparr>sdb_entries := [], sdb_dirties := Map.empty, sdb_refund := 0\<rparr> else s)
      in s1\<lparr>sdb_validRevisions := []\<rparr>)"

text \<open>The loop over the dirty addresses changes each address's object on its own.\<close>

definition finalise_object :: "StateEnv \<Rightarrow> bool \<Rightarrow> stateObject \<Rightarrow> stateObject" where
  "finalise_object env deleteEmptyObjects o1 =
     (if so_suicided o1 \<or> (deleteEmptyObjects \<and> so_empty env o1) then o1\<lparr>so_deleted := True\<rparr>
      else so_finalise o1)"

definition sdb_Finalise :: "StateEnv \<Rightarrow> bool \<Rightarrow> StateDB \<Rightarrow> StateDB" where
  "sdb_Finalise env deleteEmptyObjects s =
     (let touched = (\<lambda>a. sdb_dirties s a \<noteq> None \<and> sdb_stateObjects s a \<noteq> None)
      in clearJournalAndRefund
           (s\<lparr>sdb_stateObjects := (\<lambda>a. if touched a
                then map_option (finalise_object env deleteEmptyObjects) (sdb_stateObjects s a)
                else sdb_stateObjects s a),
              sdb_stateObjectsPending := (\<lambda>a. sdb_stateObjectsPending s a \<or> touched a),
              sdb_stateObjectsDirty := (\<lambda>a. sdb_stateObjectsDirty s a \<or> touched a)\<rparr>))"

section \<open>Access list tests\<close>

definition AddressInAccessList :: "Address \<Rightarrow> StateDB \<Rightarrow> bool" where
  "AddressInAccessList addr s = al_ContainsAddress addr (sdb_accessList s)"

definition SlotInAccessList :: "Address \<Rightarrow> Hash \<Rightarrow> StateDB \<Rightarrow> (goerr, bool \<times> bool) outcome" where
  "SlotInAccessList addr slot s = al_Contains addr slot (sdb_accessList s)"

end
