(* ===== verification/Zond_Journal.thy ===== *)
theory Zond_Journal
  imports Zond_StateDB
begin

text \<open>
  The journal takes back what the operations did. What a caller can observe of a state is its view:
  per account the balances, nonce, code, used one-time-signature indices, storage and flags, and
  the refund, logs, preimages and access list. Undoing an entry is described on views, the code's
  undoing refines it, and every operation appends entries whose undoing leads from the view after
  it to the view before it. So a state reverted to a snapshot shows what it showed there.
\<close>

section \<open>An undo log\<close>

text \<open>
  The contract of the journal: undoing a logged entry succeeds whenever it does on views, with the
  view it predicts, and leaves the log and the context alone.
\<close>

locale undo_log =
  fixes good :: "'s \<Rightarrow> bool"
    and view :: "'s \<Rightarrow> 'v"
    and log :: "'s \<Rightarrow> 'j list"
    and ctx :: "'s \<Rightarrow> 'c"
    and revert :: "'j \<Rightarrow> 's \<Rightarrow> ('e, 's) outcome"
    and undo :: "'c \<Rightarrow> 'j \<Rightarrow> 'v \<Rightarrow> 'v option"
  assumes revert_undo: "good s \<Longrightarrow> j \<in> set (log s) \<Longrightarrow> undo (ctx s) j (view s) = Some v \<Longrightarrow>
    \<exists>s'. revert j s = Ok s' \<and> good s' \<and> view s' = v \<and> log s' = log s \<and> ctx s' = ctx s"
begin

primrec undos :: "'c \<Rightarrow> 'j list \<Rightarrow> 'v \<Rightarrow> 'v option" where
  "undos c [] v = Some v"
| "undos c (j # js) v = (case undo c j v of None \<Rightarrow> None | Some v' \<Rightarrow> undos c js v')"

definition logged :: "'s \<Rightarrow> 's \<Rightarrow> bool" where
  "logged s s' \<longleftrightarrow> good s' \<and> ctx s' = ctx s \<and>
     (\<exists>es. log s' = log s @ es \<and> undos (ctx s) (rev es) (view s') = Some (view s))"

lemma undos_append: "undos c (js @ js') v =
  (case undos c js v of None \<Rightarrow> None | Some v' \<Rightarrow> undos c js' v')"
  by (induction js arbitrary: v) (auto split: option.splits)

lemma logged_refl: "good s \<Longrightarrow> logged s s"
  by (simp add: logged_def)

lemma logged_trans: "logged s s' \<Longrightarrow> logged s' s'' \<Longrightarrow> logged s s''"
  unfolding logged_def
  by (elim conjE exE, intro conjI exI) (auto simp: undos_append)

lemma logged_view_eq:
  "good s' \<Longrightarrow> ctx s' = ctx s \<Longrightarrow> view s' = view s \<Longrightarrow> log s' = log s \<Longrightarrow> logged s s'"
  by (simp add: logged_def)

lemma logged_one:
  assumes "good s'" and "ctx s' = ctx s" and "log s' = log s @ [j]"
    and "undo (ctx s) j (view s') = Some (view s)"
  shows "logged s s'"
  using assms unfolding logged_def by (intro conjI exI [of _ "[j]"]) auto

lemma revert_all:
  assumes "good s" and "set js \<subseteq> set (log s)" and "undos (ctx s) js (view s) = Some v"
  shows "\<exists>s'. fold_outcome revert js s = Ok s' \<and> good s' \<and> view s' = v \<and> log s' = log s \<and>
    ctx s' = ctx s"
  using assms
proof (induction js arbitrary: s)
  case (Cons j js)
  obtain v' where v': "undo (ctx s) j (view s) = Some v'" "undos (ctx s) js v' = Some v"
    using Cons.prems(3) by (auto split: option.splits)
  obtain s' where s': "revert j s = Ok s'" "good s'" "view s' = v'" "log s' = log s"
    "ctx s' = ctx s"
    using revert_undo [OF Cons.prems(1) _ v'(1)] Cons.prems(2) by auto
  obtain s'' where "fold_outcome revert js s' = Ok s''" "good s''" "view s'' = v"
    "log s'' = log s'" "ctx s'' = ctx s'"
    using Cons.IH [OF s'(2)] Cons.prems(2) s' v'(2) by auto
  then show ?case using s' by auto
qed simp

text \<open>After logged operations, reverting the new entries, last first, shows the old view.\<close>

lemma revert_logged:
  assumes "logged s s'"
  shows "\<exists>s''. fold_outcome revert (rev (drop (length (log s)) (log s'))) s' = Ok s'' \<and> good s'' \<and>
    view s'' = view s \<and> log s'' = log s' \<and> ctx s'' = ctx s"
proof -
  obtain es where es: "log s' = log s @ es" "undos (ctx s) (rev es) (view s') = Some (view s)"
    and g: "good s'" "ctx s' = ctx s"
    using assms by (auto simp: logged_def)
  have "set (rev es) \<subseteq> set (log s')" using es(1) by auto
  from revert_all [OF g(1) this, of "view s"] es g(2) show ?thesis by auto
qed

end

section \<open>Views\<close>

record oview =
  ov_nonce :: u64
  ov_balance :: int
  ov_stake :: int
  ov_pending :: int
  ov_codehash :: bytes
  ov_code :: "bytes option"
  ov_ots :: "u64 \<Rightarrow> bool"
  ov_suicided :: bool
  ov_deleted :: bool
  ov_state :: "Hash \<Rightarrow> Hash"
  ov_committed :: "Hash \<Rightarrow> Hash"

record sview =
  vw_obj :: "Address \<Rightarrow> oview option"
  vw_refund :: u64
  vw_logs :: "Hash \<Rightarrow> Log list"
  vw_logSize :: u64
  vw_preimages :: "Hash \<Rightarrow> bytes option"
  vw_access :: accessList

definition ots_size :: "Address \<Rightarrow> nat" where
  "ots_size a =
     (case (GetMaxOTSBitfieldSizeFromAddress a :: (goerr, nat) outcome) of Ok n \<Rightarrow> n | _ \<Rightarrow> 0)"

definition ots_used :: "Address \<Rightarrow> bytes list \<Rightarrow> u64 \<Rightarrow> bool" where
  "ots_used a bf i \<longleftrightarrow> unat i div 8 < ots_size a \<and> IsUsedOTSIndex i bf"

definition object_view :: "StateEnv \<Rightarrow> stateObject \<Rightarrow> oview" where
  "object_view env o1 =
     \<lparr>ov_nonce = Nonce (so_data o1), ov_balance = Balance (so_data o1),
      ov_stake = StakeBalance (so_data o1), ov_pending = PendingStakeBalance (so_data o1),
      ov_codehash = CodeHash (so_data o1), ov_code = snd (so_Code env o1),
      ov_ots = ots_used (so_address o1) (OTSBitfield (so_data o1)),
      ov_suicided = so_suicided o1, ov_deleted = so_deleted o1,
      ov_state = (\<lambda>key. snd (so_GetState env key o1)),
      ov_committed = (\<lambda>key. snd (so_GetCommittedState env key o1))\<rparr>"

definition trie_object :: "StateEnv \<Rightarrow> (Address \<Rightarrow> trie_read) \<Rightarrow> Address \<Rightarrow> stateObject option" where
  "trie_object env tr a =
     (case tr a of TrieAccount data \<Rightarrow> Some (newObject env a data) | _ \<Rightarrow> None)"

definition lookup_object :: "StateEnv \<Rightarrow> StateDB \<Rightarrow> Address \<Rightarrow> stateObject option" where
  "lookup_object env s a =
     (case sdb_stateObjects s a of Some o1 \<Rightarrow> Some o1 | None \<Rightarrow> trie_object env (sdb_trie s) a)"

definition logs_at :: "StateDB \<Rightarrow> Hash \<Rightarrow> Log list" where
  "logs_at s h = (case sdb_logs s h of None \<Rightarrow> [] | Some ls \<Rightarrow> ls)"

definition state_view :: "StateEnv \<Rightarrow> StateDB \<Rightarrow> sview" where
  "state_view env s =
     \<lparr>vw_obj = (\<lambda>a. map_option (object_view env) (lookup_object env s a)),
      vw_refund = sdb_refund s, vw_logs = logs_at s, vw_logSize = sdb_logSize s,
      vw_preimages = sdb_preimages s, vw_access = sdb_accessList s\<rparr>"

text \<open>Objects are stored under their address, have a 32-byte code hash, a bitfield that is unset or of
  the address's size, and no debugging storage.\<close>

definition obj_wf :: "stateObject \<Rightarrow> bool" where
  "obj_wf o1 \<longleftrightarrow> length (CodeHash (so_data o1)) = 32 \<and> so_fakeStorage o1 = None \<and>
     (OTSBitfield (so_data o1) = [] \<or>
      (length (OTSBitfield (so_data o1)) = ots_size (so_address o1) \<and>
       (\<forall>row\<in>set (OTSBitfield (so_data o1)). length row = 8)))"

definition entry_wf :: "journalEntry \<Rightarrow> bool" where
  "entry_wf j \<longleftrightarrow> (case j of resetObjectChange p \<Rightarrow> obj_wf p | _ \<Rightarrow> True)"

definition state_wf :: "StateEnv \<Rightarrow> StateDB \<Rightarrow> bool" where
  "state_wf env s \<longleftrightarrow>
     (\<forall>a o1. lookup_object env s a = Some o1 \<longrightarrow> so_address o1 = a \<and> obj_wf o1) \<and>
     (\<forall>a o1. trie_object env (sdb_trie s) a = Some o1 \<longrightarrow> obj_wf o1) \<and>
     (\<forall>j\<in>set (sdb_entries s). entry_wf j) \<and>
     (\<forall>c. length (env_keccak env c) = 32) \<and>
     al_wf (sdb_accessList s)"

lemma so_address_newObject [simp]: "so_address (newObject env a d) = a"
  by (simp add: newObject_def Let_def)

lemma trie_object_address: "trie_object env tr a = Some o1 \<Longrightarrow> so_address o1 = a"
  by (auto simp: trie_object_def split: trie_read.splits)

section \<open>Undoing on views\<close>

definition undo_at :: "Address \<Rightarrow> (oview \<Rightarrow> oview option) \<Rightarrow> sview \<Rightarrow> sview option" where
  "undo_at a f v =
     (case vw_obj v a of
        None \<Rightarrow> None
      | Some ov \<Rightarrow> if ov_deleted ov then None
          else (case f ov of None \<Rightarrow> None
                | Some ov' \<Rightarrow> Some (v\<lparr>vw_obj := (vw_obj v)(a \<mapsto> ov')\<rparr>)))"

definition code_from :: "StateEnv \<Rightarrow> bytes option \<Rightarrow> bytes \<Rightarrow> bytes option" where
  "code_from env c h =
     (case c of Some b \<Rightarrow> Some b
      | None \<Rightarrow> if h = emptyCodeHash env then None
          else (case ContractCode env (BytesToHash h) of Inl e \<Rightarrow> None | Inr b \<Rightarrow> Some b))"

fun undo_view :: "StateEnv \<Rightarrow> (Address \<Rightarrow> trie_read) \<Rightarrow> journalEntry \<Rightarrow> sview \<Rightarrow> sview option" where
  "undo_view env tr (createObjectChange a) v =
     Some (v\<lparr>vw_obj := (vw_obj v)(a := map_option (object_view env) (trie_object env tr a))\<rparr>)"
| "undo_view env tr (resetObjectChange p) v =
     Some (v\<lparr>vw_obj := (vw_obj v)(so_address p \<mapsto> object_view env p)\<rparr>)"
| "undo_view env tr (suicideChange a p b) v =
     (case vw_obj v a of
        None \<Rightarrow> Some v
      | Some ov \<Rightarrow> if ov_deleted ov then Some v
          else Some (v\<lparr>vw_obj := (vw_obj v)(a \<mapsto> ov\<lparr>ov_suicided := p, ov_balance := b\<rparr>)\<rparr>))"
| "undo_view env tr (balanceChange a b) v = undo_at a (\<lambda>ov. Some (ov\<lparr>ov_balance := b\<rparr>)) v"
| "undo_view env tr (stakeBalanceChange a b) v = undo_at a (\<lambda>ov. Some (ov\<lparr>ov_stake := b\<rparr>)) v"
| "undo_view env tr (pendingStakeBalanceChange a b) v =
     undo_at a (\<lambda>ov. Some (ov\<lparr>ov_pending := b\<rparr>)) v"
| "undo_view env tr (nonceChange a n) v = undo_at a (\<lambda>ov. Some (ov\<lparr>ov_nonce := n\<rparr>)) v"
| "undo_view env tr (otsBitfieldChange a i) v =
     undo_at a (\<lambda>ov. if unat i div 8 < ots_size a
                      then Some (ov\<lparr>ov_ots := (ov_ots ov)(i := False)\<rparr>) else None) v"
| "undo_view env tr (storageChange a k p) v =
     undo_at a (\<lambda>ov. Some (ov\<lparr>ov_state := (ov_state ov)(k := p)\<rparr>)) v"
| "undo_view env tr (codeChange a c h) v =
     undo_at a (\<lambda>ov. Some (ov\<lparr>ov_code := code_from env c (BytesToHash h),
                               ov_codehash := BytesToHash h\<rparr>)) v"
| "undo_view env tr (refundChange r) v = Some (v\<lparr>vw_refund := r\<rparr>)"
| "undo_view env tr (addLogChange h) v =
     (if vw_logs v h = [] then None
      else Some (v\<lparr>vw_logs := (vw_logs v)(h := butlast (vw_logs v h)),
                   vw_logSize := vw_logSize v - 1\<rparr>))"
| "undo_view env tr (addPreimageChange h) v =
     Some (v\<lparr>vw_preimages := (vw_preimages v)(h := None)\<rparr>)"
| "undo_view env tr (touchChange a) v = Some v"
| "undo_view env tr (accessListAddAccountChange a) v =
     Some (v\<lparr>vw_access := al_DeleteAddress a (vw_access v)\<rparr>)"
| "undo_view env tr (accessListAddSlotChange a slot) v =
     (case al_DeleteSlot a slot (vw_access v) of
        Ok al \<Rightarrow> if al_wf al then Some (v\<lparr>vw_access := al\<rparr>) else None
      | _ \<Rightarrow> None)"

section \<open>How views change\<close>

lemma sview_eqI:
  "vw_obj v = vw_obj w \<Longrightarrow> vw_refund v = vw_refund w \<Longrightarrow> vw_logs v = vw_logs w \<Longrightarrow>
   vw_logSize v = vw_logSize w \<Longrightarrow> vw_preimages v = vw_preimages w \<Longrightarrow> vw_access v = vw_access w \<Longrightarrow>
   v = (w :: sview)"
  by simp

lemma state_view_journal_append [simp]: "state_view env (journal_append j s) = state_view env s"
  by (simp add: journal_append_def journal_dirty_def Let_def state_view_def lookup_object_def
      logs_at_def [abs_def] cong: option.case_cong split: option.splits)

lemma logs_at_simps [simp]:
  "logs_at (s\<lparr>sdb_refund := r\<rparr>) = logs_at s" "logs_at (s\<lparr>sdb_preimages := ps\<rparr>) = logs_at s"
  "logs_at (s\<lparr>sdb_accessList := al\<rparr>) = logs_at s" "logs_at (journal_append j s) = logs_at s"
  "logs_at (s\<lparr>sdb_logs := (sdb_logs s)(h := x), sdb_logSize := n\<rparr>) =
     (logs_at s)(h := case x of None \<Rightarrow> [] | Some ls \<Rightarrow> ls)"
  by (simp_all add: logs_at_def fun_eq_iff journal_append_def journal_dirty_def Let_def
      split: option.splits)

lemma logs_at_cong: "sdb_logs s' = sdb_logs s \<Longrightarrow> logs_at s' = logs_at s"
  by (simp add: logs_at_def fun_eq_iff)

lemma fields_journal_append [simp]:
  "sdb_trie (journal_append j s) = sdb_trie s"
  "sdb_stateObjects (journal_append j s) = sdb_stateObjects s"
  "sdb_entries (journal_append j s) = sdb_entries s @ [j]"
  "sdb_accessList (journal_append j s) = sdb_accessList s"
  "sdb_refund (journal_append j s) = sdb_refund s"
  "sdb_logs (journal_append j s) = sdb_logs s"
  "sdb_logSize (journal_append j s) = sdb_logSize s"
  "sdb_preimages (journal_append j s) = sdb_preimages s"
  "sdb_validRevisions (journal_append j s) = sdb_validRevisions s"
  "sdb_nextRevisionId (journal_append j s) = sdb_nextRevisionId s"
  by (simp_all add: journal_append_def journal_dirty_def Let_def split: option.splits)

lemma lookup_journal_append [simp]: "lookup_object env (journal_append j s) = lookup_object env s"
  by (simp add: lookup_object_def fun_eq_iff split: option.split)

lemma fields_mod_object [simp]:
  "sdb_trie (mod_object a f s) = sdb_trie s"
  "sdb_stateObjects (mod_object a f s) =
     (sdb_stateObjects s)(a := map_option f (sdb_stateObjects s a))"
  "sdb_entries (mod_object a f s) = sdb_entries s"
  "sdb_accessList (mod_object a f s) = sdb_accessList s"
  "sdb_refund (mod_object a f s) = sdb_refund s"
  "sdb_logs (mod_object a f s) = sdb_logs s"
  "sdb_logSize (mod_object a f s) = sdb_logSize s"
  "sdb_preimages (mod_object a f s) = sdb_preimages s"
  "sdb_validRevisions (mod_object a f s) = sdb_validRevisions s"
  "sdb_nextRevisionId (mod_object a f s) = sdb_nextRevisionId s"
  by (simp_all add: mod_object_def)

lemma lookup_mod_object:
  "sdb_stateObjects s a = Some o1 \<Longrightarrow>
     lookup_object env (mod_object a f s) = (lookup_object env s)(a \<mapsto> f o1)"
  by (auto simp: lookup_object_def fun_eq_iff split: option.split)

lemma view_mod_object:
  "sdb_stateObjects s a = Some o1 \<Longrightarrow>
     state_view env (mod_object a f s) =
       (state_view env s)\<lparr>vw_obj := (vw_obj (state_view env s))(a \<mapsto> object_view env (f o1))\<rparr>"
  by (rule sview_eqI) (auto simp: state_view_def lookup_mod_object intro: logs_at_cong)

lemma fields_setStateObject [simp]:
  "sdb_trie (setStateObject o1 s) = sdb_trie s"
  "sdb_stateObjects (setStateObject o1 s) = (sdb_stateObjects s)(so_address o1 \<mapsto> o1)"
  "sdb_entries (setStateObject o1 s) = sdb_entries s"
  "sdb_accessList (setStateObject o1 s) = sdb_accessList s"
  "sdb_refund (setStateObject o1 s) = sdb_refund s"
  "sdb_logs (setStateObject o1 s) = sdb_logs s"
  "sdb_logSize (setStateObject o1 s) = sdb_logSize s"
  "sdb_preimages (setStateObject o1 s) = sdb_preimages s"
  "sdb_validRevisions (setStateObject o1 s) = sdb_validRevisions s"
  "sdb_nextRevisionId (setStateObject o1 s) = sdb_nextRevisionId s"
  by (simp_all add: setStateObject_def)

lemma lookup_setStateObject:
  "lookup_object env (setStateObject o1 s) = (lookup_object env s)(so_address o1 \<mapsto> o1)"
  by (auto simp: lookup_object_def fun_eq_iff split: option.split)

lemma view_setStateObject:
  "state_view env (setStateObject o1 s) =
     (state_view env s)\<lparr>vw_obj := (vw_obj (state_view env s))(so_address o1 \<mapsto> object_view env o1)\<rparr>"
  by (rule sview_eqI) (auto simp: state_view_def lookup_setStateObject intro: logs_at_cong)

section \<open>Loading an object is invisible\<close>

definition same_core :: "StateDB \<Rightarrow> StateDB \<Rightarrow> bool" where
  "same_core s s' \<longleftrightarrow> sdb_trie s' = sdb_trie s \<and> sdb_entries s' = sdb_entries s \<and>
     sdb_validRevisions s' = sdb_validRevisions s \<and> sdb_nextRevisionId s' = sdb_nextRevisionId s"

lemma getDeleted_result: "snd (getDeletedStateObject env a s) = lookup_object env s a"
  by (simp add: getDeletedStateObject_def lookup_object_def trie_object_def Let_def
      split: option.splits trie_read.splits)

lemma getDeleted_lookup: "lookup_object env (fst (getDeletedStateObject env a s)) = lookup_object env s"
  by (auto simp: getDeletedStateObject_def lookup_object_def trie_object_def Let_def fun_eq_iff
      sdb_setError_def split: option.splits trie_read.splits)

lemma getDeleted_view: "state_view env (fst (getDeletedStateObject env a s)) = state_view env s"
  by (rule sview_eqI)
    (simp_all add: state_view_def getDeleted_lookup logs_at_def [abs_def],
     simp_all add: getDeletedStateObject_def sdb_setError_def Let_def split: option.splits trie_read.splits)

lemma getDeleted_core: "same_core s (fst (getDeletedStateObject env a s))"
  by (simp add: same_core_def getDeletedStateObject_def sdb_setError_def Let_def
      split: option.splits trie_read.splits)

lemma getDeleted_cached:
  "lookup_object env s a = Some o1 \<Longrightarrow>
     sdb_stateObjects (fst (getDeletedStateObject env a s)) a = Some o1"
  by (auto simp: getDeletedStateObject_def lookup_object_def trie_object_def Let_def
      split: option.splits trie_read.splits)

lemma getDeleted_None_objects:
  "lookup_object env s a = None \<Longrightarrow>
     sdb_stateObjects (fst (getDeletedStateObject env a s)) = sdb_stateObjects s"
  by (auto simp: getDeletedStateObject_def lookup_object_def trie_object_def sdb_setError_def Let_def
      split: option.splits trie_read.splits)

lemma state_wf_core:
  "state_wf env s \<Longrightarrow> same_core s s' \<Longrightarrow> lookup_object env s' = lookup_object env s \<Longrightarrow>
   al_wf (sdb_accessList s') \<Longrightarrow> state_wf env s'"
  by (simp add: state_wf_def same_core_def)

lemma getDeleted_access [simp]:
  "sdb_accessList (fst (getDeletedStateObject env a s)) = sdb_accessList s"
  by (simp add: getDeletedStateObject_def sdb_setError_def Let_def
      split: option.splits trie_read.splits)

lemma getDeleted_wf: "state_wf env s \<Longrightarrow> state_wf env (fst (getDeletedStateObject env a s))"
  by (rule state_wf_core [OF _ getDeleted_core getDeleted_lookup]) (simp_all add: state_wf_def)

lemma getStateObject_alt:
  "getStateObject env a s =
     (fst (getDeletedStateObject env a s),
      case lookup_object env s a of None \<Rightarrow> None
      | Some o1 \<Rightarrow> if so_deleted o1 then None else Some o1)"
  by (simp add: getStateObject_def getDeleted_result [symmetric] split: prod.splits option.splits)

lemma live_object_lookup:
  "live_object env a s =
     (case lookup_object env s a of None \<Rightarrow> None
      | Some o1 \<Rightarrow> if so_deleted o1 then None else Some o1)"
  by (simp add: live_object_def getStateObject_alt)

section \<open>Views of changed objects\<close>

definition committed_from :: "StateEnv \<Rightarrow> stateObject \<Rightarrow> Hash \<Rightarrow> Hash" where
  "committed_from env o1 key =
     (case storage_TryGet env (so_address o1) (Root (so_data o1)) key of
        Inl e \<Rightarrow> zero_hash
      | Inr enc \<Rightarrow>
          if length enc > 0
          then (case rlp_Split_content enc of Inl e \<Rightarrow> zero_hash
                | Inr content \<Rightarrow> Hash_SetBytes content)
          else zero_hash)"

lemma Code_value: "snd (so_Code env o1) = code_from env (so_code o1) (CodeHash (so_data o1))"
  by (simp add: so_Code_def code_from_def split: option.splits sum.splits)

lemma GetCommittedState_value:
  "so_fakeStorage o1 = None \<Longrightarrow> snd (so_GetCommittedState env key o1) =
     (case so_pendingStorage o1 key of Some v \<Rightarrow> v
      | None \<Rightarrow> (case so_originStorage o1 key of Some v \<Rightarrow> v | None \<Rightarrow> committed_from env o1 key))"
  by (simp add: so_GetCommittedState_def committed_from_def Let_def split: option.splits sum.splits)

lemma GetState_value:
  "so_fakeStorage o1 = None \<Longrightarrow> snd (so_GetState env key o1) =
     (case so_dirtyStorage o1 key of Some v \<Rightarrow> v | None \<Rightarrow> snd (so_GetCommittedState env key o1))"
  by (simp add: so_GetState_def split: option.splits)

lemma object_view_alt:
  "so_fakeStorage o1 = None \<Longrightarrow> object_view env o1 =
     \<lparr>ov_nonce = Nonce (so_data o1), ov_balance = Balance (so_data o1),
      ov_stake = StakeBalance (so_data o1), ov_pending = PendingStakeBalance (so_data o1),
      ov_codehash = CodeHash (so_data o1),
      ov_code = code_from env (so_code o1) (CodeHash (so_data o1)),
      ov_ots = ots_used (so_address o1) (OTSBitfield (so_data o1)),
      ov_suicided = so_suicided o1, ov_deleted = so_deleted o1,
      ov_state = (\<lambda>key. case so_dirtyStorage o1 key of Some v \<Rightarrow> v | None \<Rightarrow>
        (case so_pendingStorage o1 key of Some v \<Rightarrow> v
         | None \<Rightarrow> (case so_originStorage o1 key of Some v \<Rightarrow> v | None \<Rightarrow> committed_from env o1 key))),
      ov_committed = (\<lambda>key.
        (case so_pendingStorage o1 key of Some v \<Rightarrow> v
         | None \<Rightarrow> (case so_originStorage o1 key of Some v \<Rightarrow> v | None \<Rightarrow> committed_from env o1 key)))\<rparr>"
  by (simp add: object_view_def Code_value GetState_value GetCommittedState_value
      cong: option.case_cong)

lemma object_view_data:
  assumes "so_fakeStorage o1 = None"
  shows "object_view env (o1\<lparr>so_data := (so_data o1)\<lparr>Balance := b\<rparr>\<rparr>) =
      (object_view env o1)\<lparr>ov_balance := b\<rparr>"
    and "object_view env (o1\<lparr>so_data := (so_data o1)\<lparr>StakeBalance := b\<rparr>\<rparr>) =
      (object_view env o1)\<lparr>ov_stake := b\<rparr>"
    and "object_view env (o1\<lparr>so_data := (so_data o1)\<lparr>PendingStakeBalance := b\<rparr>\<rparr>) =
      (object_view env o1)\<lparr>ov_pending := b\<rparr>"
    and "object_view env (o1\<lparr>so_data := (so_data o1)\<lparr>Nonce := n\<rparr>\<rparr>) =
      (object_view env o1)\<lparr>ov_nonce := n\<rparr>"
    and "object_view env (o1\<lparr>so_data := (so_data o1)\<lparr>OTSBitfield := bf\<rparr>\<rparr>) =
      (object_view env o1)\<lparr>ov_ots := ots_used (so_address o1) bf\<rparr>"
    and "object_view env (o1\<lparr>so_suicided := su, so_data := (so_data o1)\<lparr>Balance := b\<rparr>\<rparr>) =
      (object_view env o1)\<lparr>ov_suicided := su, ov_balance := b\<rparr>"
    and "object_view env (o1\<lparr>so_code := c, so_data := (so_data o1)\<lparr>CodeHash := h\<rparr>,
        so_dirtyCode := True\<rparr>) =
      (object_view env o1)\<lparr>ov_code := code_from env c h, ov_codehash := h\<rparr>"
  using assms by (simp_all add: object_view_alt committed_from_def cong: option.case_cong)

lemma object_view_dirty:
  "so_fakeStorage o1 = None \<Longrightarrow>
     object_view env (o1\<lparr>so_dirtyStorage := (so_dirtyStorage o1)(k \<mapsto> v)\<rparr>) =
       (object_view env o1)\<lparr>ov_state := (ov_state (object_view env o1))(k := v)\<rparr>"
  by (simp add: object_view_alt committed_from_def fun_eq_iff cong: option.case_cong)

lemma object_view_ots: "ov_ots (object_view env o1) = ots_used (so_address o1) (OTSBitfield (so_data o1))"
  by (simp add: object_view_def)

lemma object_view_deleted [simp]: "ov_deleted (object_view env o1) = so_deleted o1"
  by (simp add: object_view_def)

text \<open>Reading memoises without changing the view.\<close>

lemma so_setError_fields [simp]:
  "so_data (so_setError e o1) = so_data o1" "so_address (so_setError e o1) = so_address o1"
  "so_code (so_setError e o1) = so_code o1" "so_fakeStorage (so_setError e o1) = so_fakeStorage o1"
  "so_dirtyStorage (so_setError e o1) = so_dirtyStorage o1"
  "so_pendingStorage (so_setError e o1) = so_pendingStorage o1"
  "so_originStorage (so_setError e o1) = so_originStorage o1"
  "so_suicided (so_setError e o1) = so_suicided o1" "so_deleted (so_setError e o1) = so_deleted o1"
  by (simp_all add: so_setError_def)

lemma object_view_Code:
  "so_fakeStorage o1 = None \<Longrightarrow> object_view env (fst (so_Code env o1)) = object_view env o1"
  by (auto simp: so_Code_def object_view_alt committed_from_def code_from_def
      cong: option.case_cong split: option.splits sum.splits)

lemma so_Code_fields [simp]:
  "so_data (fst (so_Code env o1)) = so_data o1" "so_address (fst (so_Code env o1)) = so_address o1"
  "so_fakeStorage (fst (so_Code env o1)) = so_fakeStorage o1"
  by (simp_all add: so_Code_def split: option.splits sum.splits)

lemma so_GetCommittedState_fields [simp]:
  "so_data (fst (so_GetCommittedState env k o1)) = so_data o1"
  "so_address (fst (so_GetCommittedState env k o1)) = so_address o1"
  "so_code (fst (so_GetCommittedState env k o1)) = so_code o1"
  "so_fakeStorage (fst (so_GetCommittedState env k o1)) = so_fakeStorage o1"
  "so_dirtyStorage (fst (so_GetCommittedState env k o1)) = so_dirtyStorage o1"
  "so_pendingStorage (fst (so_GetCommittedState env k o1)) = so_pendingStorage o1"
  "so_suicided (fst (so_GetCommittedState env k o1)) = so_suicided o1"
  "so_deleted (fst (so_GetCommittedState env k o1)) = so_deleted o1"
  by (simp_all add: so_GetCommittedState_def Let_def split: option.splits sum.splits)

lemma GetCommittedState_origin:
  assumes "so_fakeStorage o1 = None"
  shows "so_originStorage (fst (so_GetCommittedState env k o1)) = so_originStorage o1 \<or>
    (so_originStorage o1 k = None \<and> so_originStorage (fst (so_GetCommittedState env k o1)) =
      (so_originStorage o1)(k \<mapsto> committed_from env o1 k))"
  using assms
  by (simp add: so_GetCommittedState_def committed_from_def Let_def split: option.splits sum.splits)

lemma object_view_GetCommittedState:
  assumes "so_fakeStorage o1 = None"
  shows "object_view env (fst (so_GetCommittedState env k o1)) = object_view env o1"
proof -
  let ?o2 = "fst (so_GetCommittedState env k o1)"
  have c: "committed_from env ?o2 = committed_from env o1"
    by (simp add: committed_from_def fun_eq_iff)
  show ?thesis using GetCommittedState_origin [OF assms, of env k]
    by (rule disjE) (use assms c in \<open>auto simp: object_view_alt fun_eq_iff split: option.splits\<close>)
qed

lemma so_GetState_cases:
  "so_fakeStorage o1 = None \<Longrightarrow>
     fst (so_GetState env k o1) = o1 \<or> fst (so_GetState env k o1) = fst (so_GetCommittedState env k o1)"
  by (simp add: so_GetState_def split: option.splits)

lemma object_view_GetState:
  "so_fakeStorage o1 = None \<Longrightarrow> object_view env (fst (so_GetState env k o1)) = object_view env o1"
  using so_GetState_cases [of o1 env k] object_view_GetCommittedState [of o1 env k] by auto

lemma obj_wf_GetState:
  "obj_wf o1 \<Longrightarrow> obj_wf (fst (so_GetState env k o1)) \<and>
     so_address (fst (so_GetState env k o1)) = so_address o1"
  using so_GetState_cases [of o1 env k] by (auto simp: obj_wf_def)

section \<open>The bitfield of one-time signatures\<close>

definition bitfield_wf :: "Address \<Rightarrow> bytes list \<Rightarrow> bool" where
  "bitfield_wf a bf \<longleftrightarrow> length bf = ots_size a \<and> (\<forall>row\<in>set bf. length row = 8)"

lemma obj_wf_bitfield:
  "obj_wf o1 \<longleftrightarrow> length (CodeHash (so_data o1)) = 32 \<and> so_fakeStorage o1 = None \<and>
     (OTSBitfield (so_data o1) = [] \<or> bitfield_wf (so_address o1) (OTSBitfield (so_data o1)))"
  by (simp add: obj_wf_def bitfield_wf_def)

lemma row_index: "unat (drop_bit 3 (i :: u64)) = unat i div 8" "unat (i mod 8) = unat i mod 8"
  by (simp_all add: unat_drop_bit_eq drop_bit_eq_div unat_mod unat_div)

lemma ots_used_update:
  assumes "bitfield_wf a bf" and "unat i div 8 < ots_size a"
  shows "ots_used a (bf[unat i div 8 := (bf ! (unat i div 8))[unat i mod 8 := b]]) =
    (ots_used a bf)(i := (b = 1))"
proof
  fix j :: u64
  have row: "length (bf ! (unat i div 8)) = 8" using assms by (simp add: bitfield_wf_def)
  have ne: "bf \<noteq> []" using assms by (auto simp: bitfield_wf_def)
  show "ots_used a (bf[unat i div 8 := (bf ! (unat i div 8))[unat i mod 8 := b]]) j =
    ((ots_used a bf)(i := (b = 1))) j"
  proof (cases "j = i")
    case False
    then have "unat j div 8 \<noteq> unat i div 8 \<or> unat j mod 8 \<noteq> unat i mod 8"
      by (metis div_mult_mod_eq word_unat_eq_iff)
    then show ?thesis using False assms ne row
      by (auto simp: ots_used_def IsUsedOTSIndex_def bitfield_wf_def nth_list_update Let_def)
  qed (use assms ne row in
    \<open>simp add: ots_used_def IsUsedOTSIndex_def bitfield_wf_def nth_list_update Let_def\<close>)
qed

lemma bitfield_wf_update:
  assumes "bitfield_wf a bf" and "n < ots_size a"
  shows "bitfield_wf a (bf[n := (bf ! n)[m := b]])"
  using assms
  by (auto simp: bitfield_wf_def dest!: set_update_subset_insert [THEN subsetD])

lemma ots_used_fresh: "ots_used a (replicate (ots_size a) (replicate 8 0)) = ots_used a []"
  by (auto simp: ots_used_def IsUsedOTSIndex_def Let_def fun_eq_iff)

lemma ots_size_Ok:
  "n < ots_size a \<Longrightarrow> (GetMaxOTSBitfieldSizeFromAddress a :: (goerr, nat) outcome) = Ok (ots_size a)"
  by (auto simp: ots_size_def split: outcome.splits)

lemma set_ots_correct:
  assumes "bf = [] \<or> bitfield_wf a bf" and "unat i div 8 < ots_size a"
  shows "\<exists>bf'. set_ots a i rev1 bf = Ok bf' \<and> bitfield_wf a bf' \<and>
    ots_used a bf' = (ots_used a bf)(i := \<not> rev1)"
proof -
  define bf0 where "bf0 = (if bf = [] then replicate (ots_size a) (replicate 8 0) else bf)"
  define bf1 where "bf1 = bf0[unat i div 8 :=
    (bf0 ! (unat i div 8))[unat i mod 8 := if rev1 then 0 else 1]]"
  have wf: "bitfield_wf a bf0" and used: "ots_used a bf0 = ots_used a bf"
    using assms(1) by (auto simp: bf0_def bitfield_wf_def ots_used_fresh)
  have base: "(if length bf = 0
      then and_then (GetMaxOTSBitfieldSizeFromAddress a) (\<lambda>n. Ok (replicate n (replicate 8 0)))
      else Ok bf) = (Ok bf0 :: (goerr, bytes list) outcome)"
    by (simp add: ots_size_Ok [OF assms(2)] bf0_def)
  have "set_ots a i rev1 bf = Ok bf1"
    using assms(2) wf
    unfolding set_ots_def base by (simp add: row_index index_def bf1_def bitfield_wf_def Let_def)
  then show ?thesis
    using bitfield_wf_update [OF wf assms(2)] ots_used_update [OF wf assms(2)] used
    by (simp add: bf1_def)
qed

lemma set_ots_out_of_range:
  assumes "bf = [] \<or> bitfield_wf a bf" and "\<not> unat i div 8 < ots_size a"
  shows "set_ots a i rev1 bf = Panic"
  using assms
  by (auto simp: set_ots_def row_index index_def bitfield_wf_def ots_size_def outcome_simps
      GetMaxOTSBitfieldSizeFromAddress_def Let_def split: outcome.splits)

section \<open>Undoing an entry refines undoing on views\<close>

lemma wf_mod_object:
  assumes "state_wf env s" and "sdb_stateObjects s a = Some o1"
    and "so_address (f o1) = a" and "obj_wf (f o1)"
  shows "state_wf env (mod_object a f s)"
  using assms by (auto simp: state_wf_def lookup_mod_object)

lemma wf_lookup:
  "state_wf env s \<Longrightarrow> lookup_object env s a = Some o1 \<Longrightarrow> so_address o1 = a \<and> obj_wf o1"
  by (simp add: state_wf_def)

lemma core_mod_object [simp]: "same_core s (mod_object a f s)"
  by (simp add: same_core_def)

lemma same_core_trans: "same_core s s' \<Longrightarrow> same_core s' s'' \<Longrightarrow> same_core s s''"
  by (simp add: same_core_def)

definition undoes :: "StateEnv \<Rightarrow> StateDB \<Rightarrow> sview \<Rightarrow> StateDB \<Rightarrow> bool" where
  "undoes env s v s' \<longleftrightarrow> state_wf env s' \<and> state_view env s' = v \<and> same_core s s'"

text \<open>A call on the object at an address acts on the view of that address only.\<close>

lemma undo_object_refines:
  assumes wf: "state_wf env s" and v: "undo_at a f (state_view env s) = Some v"
    and act: "\<And>s1 o1 ov'. sdb_stateObjects s1 a = Some o1 \<Longrightarrow> so_address o1 = a \<Longrightarrow> obj_wf o1 \<Longrightarrow>
      f (object_view env o1) = Some ov' \<Longrightarrow>
      \<exists>h. act s1 = Ok (mod_object a h s1) \<and> object_view env (h o1) = ov' \<and> so_address (h o1) = a \<and>
        obj_wf (h o1)"
  shows "\<exists>s'. undo_object env a act s = Ok s' \<and> undoes env s v s'"
proof -
  let ?s1 = "fst (getDeletedStateObject env a s)"
  obtain o1 ov' where o1: "lookup_object env s a = Some o1" "\<not> so_deleted o1"
    and f: "f (object_view env o1) = Some ov'"
    and v': "v = (state_view env s)\<lparr>vw_obj := (vw_obj (state_view env s))(a \<mapsto> ov')\<rparr>"
    using v by (auto simp: undo_at_def state_view_def split: option.splits if_splits)
  note c = getDeleted_cached [OF o1(1)]
  obtain h where h: "act ?s1 = Ok (mod_object a h ?s1)" "object_view env (h o1) = ov'"
    "so_address (h o1) = a" "obj_wf (h o1)"
    using act [OF c _ _ f] wf_lookup [OF wf o1(1)] by auto
  have "undo_object env a act s = Ok (mod_object a h ?s1)"
    using o1 h(1) by (simp add: undo_object_def getStateObject_alt)
  moreover have "undoes env s v (mod_object a h ?s1)"
    using wf_mod_object [where f = h, OF getDeleted_wf [OF wf] c h(3,4)] view_mod_object [OF c, of env h]
      same_core_trans [OF getDeleted_core core_mod_object] h(2) v'
    by (simp add: undoes_def getDeleted_view)
  ultimately show ?thesis by blast
qed

lemma undo_data_refines:
  assumes "state_wf env s" and "undo_at a (\<lambda>ov. Some (g ov)) (state_view env s) = Some v"
    and "\<And>o1. obj_wf o1 \<Longrightarrow> object_view env (h o1) = g (object_view env o1) \<and>
      so_address (h o1) = so_address o1 \<and> obj_wf (h o1)"
  shows "\<exists>s'. undo_object env a (\<lambda>s1. Ok (mod_object a h s1)) s = Ok s' \<and> undoes env s v s'"
  by (rule undo_object_refines [OF assms(1,2)]) (use assms(3) in auto)

lemma revert_create:
  assumes "state_wf env s"
  shows "\<exists>s'. revert_entry env (createObjectChange a) s = Ok s' \<and>
    undoes env s ((state_view env s)\<lparr>vw_obj := (vw_obj (state_view env s))
      (a := map_option (object_view env) (trie_object env (sdb_trie s) a))\<rparr>) s'"
proof -
  let ?s = "s\<lparr>sdb_stateObjects := (sdb_stateObjects s)(a := None),
    sdb_stateObjectsDirty := (sdb_stateObjectsDirty s)(a := False)\<rparr>"
  have l: "lookup_object env ?s = (lookup_object env s)(a := trie_object env (sdb_trie s) a)"
    by (auto simp: lookup_object_def fun_eq_iff split: option.splits)
  have "state_wf env ?s"
    unfolding state_wf_def l
    using assms by (auto simp: state_wf_def dest: trie_object_address)
  moreover have "state_view env ?s = (state_view env s)\<lparr>vw_obj := (vw_obj (state_view env s))
      (a := map_option (object_view env) (trie_object env (sdb_trie s) a))\<rparr>"
    by (rule sview_eqI) (auto simp: state_view_def l intro: logs_at_cong)
  ultimately show ?thesis by (simp add: undoes_def same_core_def)
qed

lemma revert_reset:
  assumes "state_wf env s" and "obj_wf p"
  shows "undoes env s ((state_view env s)\<lparr>vw_obj := (vw_obj (state_view env s))
    (so_address p \<mapsto> object_view env p)\<rparr>) (setStateObject p s)"
  using assms
  by (auto simp: undoes_def same_core_def view_setStateObject state_wf_def lookup_setStateObject)

lemma obj_wf_simps [simp]:
  "obj_wf (o1\<lparr>so_data := (so_data o1)\<lparr>Balance := b\<rparr>\<rparr>) = obj_wf o1"
  "obj_wf (o1\<lparr>so_data := (so_data o1)\<lparr>StakeBalance := b\<rparr>\<rparr>) = obj_wf o1"
  "obj_wf (o1\<lparr>so_data := (so_data o1)\<lparr>PendingStakeBalance := b\<rparr>\<rparr>) = obj_wf o1"
  "obj_wf (o1\<lparr>so_data := (so_data o1)\<lparr>Nonce := n\<rparr>\<rparr>) = obj_wf o1"
  "obj_wf (o1\<lparr>so_suicided := su, so_data := (so_data o1)\<lparr>Balance := b\<rparr>\<rparr>) = obj_wf o1"
  "obj_wf (o1\<lparr>so_dirtyStorage := d\<rparr>) = obj_wf o1"
  by (simp_all add: obj_wf_def)

lemma obj_wf_fake: "obj_wf o1 \<Longrightarrow> so_fakeStorage o1 = None"
  by (simp add: obj_wf_def)

lemmas object_updates = object_view_data [OF obj_wf_fake] object_view_dirty [OF obj_wf_fake]

lemma obj_wf_code:
  "obj_wf o1 \<Longrightarrow> length h = 32 \<Longrightarrow>
     obj_wf (o1\<lparr>so_code := c, so_data := (so_data o1)\<lparr>CodeHash := h\<rparr>, so_dirtyCode := True\<rparr>)"
  by (simp add: obj_wf_def)

lemma revert_suicide:
  assumes wf: "state_wf env s"
    and v: "undo_view env tr (suicideChange a p b) (state_view env s) = Some v"
  shows "\<exists>s'. revert_entry env (suicideChange a p b) s = Ok s' \<and> undoes env s v s'"
proof (cases "live_object env a s")
  case None
  then have "revert_entry env (suicideChange a p b) s = Ok (fst (getDeletedStateObject env a s))"
    by (simp add: getStateObject_alt live_object_lookup)
  moreover have "v = state_view env s"
    using None v by (auto simp: live_object_lookup state_view_def split: option.splits if_splits)
  ultimately show ?thesis
    using getDeleted_wf [OF wf] by (simp add: undoes_def getDeleted_view getDeleted_core)
next
  case (Some o1)
  let ?h = "\<lambda>o2. o2\<lparr>so_suicided := p, so_data := (so_data o2)\<lparr>Balance := b\<rparr>\<rparr>"
  have o1: "lookup_object env s a = Some o1" "\<not> so_deleted o1"
    using Some by (auto simp: live_object_lookup split: option.splits if_splits)
  have "undo_at a (\<lambda>ov. Some (ov\<lparr>ov_suicided := p, ov_balance := b\<rparr>)) (state_view env s) = Some v"
    using o1 v by (simp add: undo_at_def state_view_def)
  from undo_data_refines [OF wf this, of ?h]
  have "\<exists>s'. undo_object env a (\<lambda>s1. Ok (mod_object a ?h s1)) s = Ok s' \<and> undoes env s v s'"
    by (simp add: object_updates)
  moreover have "so_setBalance a b (mod_object a (\<lambda>o2. o2\<lparr>so_suicided := p\<rparr>) s1) = mod_object a ?h s1"
    for s1
    by (simp add: so_setBalance_def mod_data_def mod_object_def option.map_comp comp_def)
  ultimately show ?thesis
    using o1 by (simp add: undo_object_def getStateObject_alt)
qed

lemma revert_ots:
  assumes wf: "state_wf env s"
    and v: "undo_view env tr (otsBitfieldChange a i) (state_view env s) = Some v"
  shows "\<exists>s'. revert_entry env (otsBitfieldChange a i) s = Ok s' \<and> undoes env s v s'"
  unfolding revert_entry.simps
proof (rule undo_object_refines [OF wf v [unfolded undo_view.simps]])
  fix s1 :: StateDB and o1 ov'
  assume o1: "sdb_stateObjects s1 a = Some o1" "so_address o1 = a" "obj_wf o1"
    and ov: "(if unat i div 8 < ots_size a
      then Some ((object_view env o1)\<lparr>ov_ots := (ov_ots (object_view env o1))(i := False)\<rparr>)
      else None) = Some ov'"
  then obtain bf' where bf': "set_ots a i True (OTSBitfield (so_data o1)) = Ok bf'"
    "bitfield_wf a bf'" "ots_used a bf' = (ots_used a (OTSBitfield (so_data o1)))(i := False)"
    using set_ots_correct [of "OTSBitfield (so_data o1)" a i True]
    by (auto simp: obj_wf_bitfield split: if_splits)
  let ?h = "\<lambda>o2. o2\<lparr>so_data := (so_data o2)\<lparr>OTSBitfield := bf'\<rparr>\<rparr>"
  have "so_setOTSBitfield a i True s1 = Ok (mod_object a ?h s1)"
    using o1 bf'(1) by (simp add: so_setOTSBitfield_def mod_data_def deref_def)
  moreover have "object_view env (?h o1) = ov'"
    using o1 ov bf'(3) by (auto simp: object_updates object_view_ots split: if_splits)
  moreover have "obj_wf (?h o1)"
    using o1 bf'(2) by (simp add: obj_wf_bitfield)
  ultimately show "\<exists>h. so_setOTSBitfield a i True s1 = Ok (mod_object a h s1) \<and>
      object_view env (h o1) = ov' \<and> so_address (h o1) = a \<and> obj_wf (h o1)"
    using o1(2) by (intro exI [of _ ?h]) simp
qed

text \<open>Changes of the state's own fields.\<close>

lemma lookup_fields:
  "sdb_stateObjects s' = sdb_stateObjects s \<Longrightarrow> sdb_trie s' = sdb_trie s \<Longrightarrow>
     lookup_object env s' = lookup_object env s"
  by (rule ext) (simp add: lookup_object_def cong: option.case_cong)

lemma undoes_fields:
  assumes "state_wf env s" and "same_core s s'" and "sdb_stateObjects s' = sdb_stateObjects s"
    and "al_wf (sdb_accessList s')"
  shows "undoes env s (state_view env s') s'"
  using assms state_wf_core [of env s s'] lookup_fields [of s' s env]
  by (simp add: undoes_def same_core_def)

lemma undo_view_vw:
  "vw_obj (state_view env s) = (\<lambda>a. map_option (object_view env) (lookup_object env s a))"
  "vw_refund (state_view env s) = sdb_refund s" "vw_logs (state_view env s) = logs_at s"
  "vw_logSize (state_view env s) = sdb_logSize s"
  "vw_preimages (state_view env s) = sdb_preimages s"
  "vw_access (state_view env s) = sdb_accessList s"
  by (simp_all add: state_view_def)

lemma view_fields:
  assumes "sdb_stateObjects s' = sdb_stateObjects s" and "sdb_trie s' = sdb_trie s"
  shows "state_view env s' = (state_view env s)\<lparr>vw_refund := sdb_refund s', vw_logs := logs_at s',
    vw_logSize := sdb_logSize s', vw_preimages := sdb_preimages s', vw_access := sdb_accessList s'\<rparr>"
  using lookup_fields [OF assms] by (simp add: state_view_def)

lemma revert_plain:
  assumes "state_wf env s" and "same_core s s'" and "sdb_stateObjects s' = sdb_stateObjects s"
    and "al_wf (sdb_accessList s')"
    and "v = (state_view env s)\<lparr>vw_refund := sdb_refund s', vw_logs := logs_at s',
      vw_logSize := sdb_logSize s', vw_preimages := sdb_preimages s', vw_access := sdb_accessList s'\<rparr>"
  shows "undoes env s v s'"
proof -
  have "sdb_trie s' = sdb_trie s" using assms(2) by (simp add: same_core_def)
  from view_fields [OF assms(3) this, of env] show ?thesis
    using undoes_fields [OF assms(1-4)] assms(5) by simp
qed

lemma wf_access: "state_wf env s \<Longrightarrow> al_wf (sdb_accessList s)"
  by (simp add: state_wf_def)

lemma revert_code:
  assumes "state_wf env s"
    and "undo_view env tr (codeChange a c h) (state_view env s) = Some v"
  shows "\<exists>s'. revert_entry env (codeChange a c h) s = Ok s' \<and> undoes env s v s'"
  unfolding revert_entry.simps so_setCode_def
  by (rule undo_data_refines [OF assms(1) assms(2) [unfolded undo_view.simps]])
    (simp add: object_updates obj_wf_code)

lemma revert_storage:
  assumes "state_wf env s"
    and "undo_view env tr (storageChange a k p) (state_view env s) = Some v"
  shows "\<exists>s'. revert_entry env (storageChange a k p) s = Ok s' \<and> undoes env s v s'"
  unfolding revert_entry.simps so_setState_def
  by (rule undo_data_refines [OF assms(1) assms(2) [unfolded undo_view.simps]])
    (simp add: object_updates)

lemma revert_values:
  assumes "state_wf env s" and "undo_view env tr j (state_view env s) = Some v"
    and "(\<exists>b. j = balanceChange a b \<or> j = stakeBalanceChange a b \<or> j = pendingStakeBalanceChange a b) \<or>
      (\<exists>n. j = nonceChange a n)"
  shows "\<exists>s'. revert_entry env j s = Ok s' \<and> undoes env s v s'"
  using assms(3)
  by (elim disjE exE; simp add: so_setBalance_def so_setStakeBalance_def so_setPendingStakeBalance_def
      so_setNonce_def mod_data_def; intro undo_data_refines [OF assms(1)])
    (use assms(2) in \<open>auto simp: object_updates\<close>)

lemma revert_addLog:
  assumes wf: "state_wf env s"
    and v: "undo_view env tr (addLogChange h) (state_view env s) = Some v"
  shows "\<exists>s'. revert_entry env (addLogChange h) s = Ok s' \<and> undoes env s v s'"
proof -
  let ?x = "if length (logs_at s h) = 1 then None else Some (butlast (logs_at s h))"
  let ?s = "s\<lparr>sdb_logs := (sdb_logs s)(h := ?x), sdb_logSize := sdb_logSize s - 1\<rparr>"
  have ne: "logs_at s h \<noteq> []" using v by (auto simp: state_view_def)
  then have r: "revert_entry env (addLogChange h) s = Ok ?s"
    by (simp add: Let_def logs_at_def [symmetric])
  have x: "(case ?x of None \<Rightarrow> [] | Some ls \<Rightarrow> ls) = butlast (logs_at s h)"
    by (auto simp: length_Suc_conv)
  have "undoes env s v ?s"
    using v ne wf_access [OF wf] x
    by (intro revert_plain [OF wf]) (auto simp: same_core_def state_view_def)
  then show ?thesis using r by blast
qed

lemma revert_entry_refines:
  assumes wf: "state_wf env s" and j: "entry_wf j"
    and v: "undo_view env (sdb_trie s) j (state_view env s) = Some v"
  shows "\<exists>s'. revert_entry env j s = Ok s' \<and> undoes env s v s'"
proof (cases j)
  case (createObjectChange a)
  then show ?thesis using v revert_create [OF wf, of a] by simp
next
  case (resetObjectChange p)
  then show ?thesis using v j revert_reset [OF wf, of p] by (simp add: entry_wf_def)
next
  case (suicideChange a p b)
  then show ?thesis using v revert_suicide [OF wf] by blast
next
  case (otsBitfieldChange a i)
  then show ?thesis using v revert_ots [OF wf] by blast
next
  case (codeChange a c h)
  then show ?thesis using v revert_code [OF wf] by blast
next
  case (storageChange a k p)
  then show ?thesis using v revert_storage [OF wf] by blast
next
  case (refundChange r)
  then show ?thesis using v wf_access [OF wf]
    by (auto intro!: revert_plain [OF wf] simp: same_core_def state_view_def)
next
  case (addLogChange h)
  then show ?thesis using v revert_addLog [OF wf] by blast
next
  case (addPreimageChange h)
  then show ?thesis using v wf_access [OF wf]
    by (auto intro!: revert_plain [OF wf] simp: same_core_def state_view_def)
next
  case (touchChange a)
  then show ?thesis using v wf by (simp add: undoes_def same_core_def)
next
  case (accessListAddAccountChange a)
  then show ?thesis using v al_wf_DeleteAddress [OF wf_access [OF wf]]
    by (auto intro!: revert_plain [OF wf] simp: same_core_def state_view_def)
next
  case (accessListAddSlotChange a slot)
  then show ?thesis using v
    by (auto intro!: revert_plain [OF wf] simp: same_core_def state_view_def
        split: outcome.splits if_splits)
qed (use revert_values [OF wf v] in blast)+

lemma undoes_undirty: "undoes env s v s' \<Longrightarrow> undoes env s v (undirty j s')"
proof -
  assume u: "undoes env s v s'"
  have f: "same_core s' (undirty j s')" "sdb_stateObjects (undirty j s') = sdb_stateObjects s'"
    "sdb_accessList (undirty j s') = sdb_accessList s'" "sdb_trie (undirty j s') = sdb_trie s'"
    "sdb_refund (undirty j s') = sdb_refund s'" "sdb_logs (undirty j s') = sdb_logs s'"
    "sdb_logSize (undirty j s') = sdb_logSize s'" "sdb_preimages (undirty j s') = sdb_preimages s'"
    by (simp_all add: undirty_def same_core_def Let_def split: option.splits)
  have "undoes env s' (state_view env (undirty j s')) (undirty j s')"
    using u f by (intro undoes_fields) (auto simp: undoes_def wf_access)
  moreover have "state_view env (undirty j s') = state_view env s'"
    using f by (simp add: state_view_def lookup_fields [OF f(2,4)] logs_at_cong [OF f(6)])
  ultimately show ?thesis using u same_core_trans by (auto simp: undoes_def)
qed

text \<open>One round of the loop of \<^verbatim>\<open>journal.revert\<close>.\<close>

definition revert_round :: "StateEnv \<Rightarrow> journalEntry \<Rightarrow> StateDB \<Rightarrow> (goerr, StateDB) outcome" where
  "revert_round env entry s = and_then (revert_entry env entry s) (\<lambda>s2. Ok (undirty entry s2))"

lemma revert_round_refines:
  assumes "state_wf env s" and "j \<in> set (sdb_entries s)"
    and "undo_view env (sdb_trie s) j (state_view env s) = Some v"
  shows "\<exists>s'. revert_round env j s = Ok s' \<and> undoes env s v s'"
proof -
  have "entry_wf j" using assms(1,2) by (simp add: state_wf_def)
  then show ?thesis using revert_entry_refines [OF assms(1) _ assms(3)] undoes_undirty
    by (fastforce simp: revert_round_def)
qed

interpretation sj: undo_log "state_wf env" "state_view env" sdb_entries sdb_trie "revert_round env"
    "undo_view env"
  for env
  using revert_round_refines by unfold_locales (fastforce simp: undoes_def same_core_def)

end
