(* ===== verification/Zond_Snapshot.thy ===== *)
theory Zond_Snapshot
  imports Zond_Journal
begin

text \<open>
  Snapshots of the world state (\<^verbatim>\<open>statedb.go\<close>): every operation of the state is logged, so any run of
  operations, with snapshots and reverts nested inside, is taken back by \<^verbatim>\<open>RevertToSnapshot\<close>.
\<close>

section \<open>Every operation is logged\<close>

lemma wf_journal_append: "state_wf env s \<Longrightarrow> entry_wf j \<Longrightarrow> state_wf env (journal_append j s)"
  by (auto simp: state_wf_def)

lemma logged_load:
  "state_wf env s \<Longrightarrow> sj.logged env s (fst (getDeletedStateObject env a s))"
  using getDeleted_core [of s env a]
  by (intro sj.logged_view_eq) (auto simp: getDeleted_wf getDeleted_view same_core_def)

text \<open>A journalled change of the live object at an address.\<close>

lemma logged_object:
  assumes wf: "state_wf env s" and o1: "sdb_stateObjects s a = Some o1"
    and j: "entry_wf j" "undo_view env (sdb_trie s) j = undo_at a f"
    and h: "so_address (h o1) = a" "obj_wf (h o1)" "\<not> so_deleted (h o1)"
      "f (object_view env (h o1)) = Some (object_view env o1)"
  shows "sj.logged env s (mod_object a h (journal_append j s))"
proof -
  have o2: "sdb_stateObjects (journal_append j s) a = Some o1" using o1 by simp
  have l: "lookup_object env s a = Some o1" using o1 by (simp add: lookup_object_def)
  show ?thesis
  proof (rule sj.logged_one)
    show "state_wf env (mod_object a h (journal_append j s))"
      by (rule wf_mod_object [where f = h, OF wf_journal_append [OF wf j(1)] o2 h(1,2)])
    show "undo_view env (sdb_trie s) j (state_view env (mod_object a h (journal_append j s))) =
        Some (state_view env s)"
      using h(3,4) l unfolding j(2) view_mod_object [OF o2]
      by (simp add: undo_at_def) (simp add: state_view_def fun_upd_idem)
  qed simp_all
qed

text \<open>Replacing an object by a memoised version of it.\<close>

lemma logged_memo:
  assumes wf: "state_wf env s" and o1: "sdb_stateObjects s a = Some o1"
    and o2: "object_view env o2 = object_view env o1" "so_address o2 = a" "obj_wf o2"
  shows "sj.logged env s (mod_object a (\<lambda>_. o2) s)"
proof (rule sj.logged_view_eq)
  show "state_wf env (mod_object a (\<lambda>_. o2) s)"
    by (rule wf_mod_object [where f = "\<lambda>_. o2", OF wf o1]) (use o2 in auto)
  show "state_view env (mod_object a (\<lambda>_. o2) s) = state_view env s"
    using o1 unfolding view_mod_object [OF o1] o2
    by (simp add: state_view_def lookup_object_def fun_upd_idem)
qed simp_all

lemma createObject_cached:
  "sdb_stateObjects (fst (createObject env a s)) a = Some (newObject env a zero_account)"
  by (simp add: createObject_def Let_def split: prod.splits)

lemma obj_wf_new: "state_wf env s \<Longrightarrow> obj_wf (newObject env a zero_account)"
  by (simp add: state_wf_def obj_wf_def newObject_def zero_account_def emptyCodeHash_def Let_def)

lemma createObject_alt:
  "createObject env a s =
     (setStateObject (newObject env a zero_account)
        (journal_append (case lookup_object env s a of None \<Rightarrow> createObjectChange a
                         | Some p \<Rightarrow> resetObjectChange p) (fst (getDeletedStateObject env a s))),
      case lookup_object env s a of Some p \<Rightarrow> (if so_deleted p then None else Some p) | None \<Rightarrow> None)"
  by (simp add: createObject_def getDeleted_result [symmetric] Let_def split: prod.splits)

lemma logged_create_with:
  assumes wf: "state_wf env s" and h: "so_address o2 = a" "obj_wf o2"
  shows "sj.logged env s (setStateObject o2
    (journal_append (case lookup_object env s a of None \<Rightarrow> createObjectChange a
                     | Some p \<Rightarrow> resetObjectChange p) (fst (getDeletedStateObject env a s))))"
    (is "sj.logged env s ?s'")
proof -
  let ?s1 = "fst (getDeletedStateObject env a s)"
  let ?j = "case lookup_object env s a of None \<Rightarrow> createObjectChange a | Some p \<Rightarrow> resetObjectChange p"
  note wf1 = getDeleted_wf [OF wf, of a]
  have l1: "lookup_object env ?s1 = lookup_object env s" by (rule getDeleted_lookup)
  have j: "entry_wf ?j"
    using wf by (auto simp: entry_wf_def state_wf_def split: option.splits)
  have "sj.logged env ?s1 ?s'"
  proof (rule sj.logged_one)
    show "state_wf env ?s'"
      using wf_journal_append [OF wf1 j] h
      unfolding state_wf_def lookup_setStateObject by simp
    show "sdb_entries ?s' = sdb_entries ?s1 @ [?j]" by simp
    show "undo_view env (sdb_trie ?s1) ?j (state_view env ?s') = Some (state_view env ?s1)"
    proof (cases "lookup_object env s a")
      case None
      then have "trie_object env (sdb_trie ?s1) a = None"
        unfolding l1 [symmetric] by (simp add: lookup_object_def split: option.splits)
      then show ?thesis using h(1) None l1
        by (simp add: view_setStateObject) (simp add: state_view_def fun_upd_idem)
    next
      case (Some p)
      then show ?thesis using h(1) l1 wf_lookup [OF wf Some]
        by (simp add: view_setStateObject) (simp add: state_view_def fun_upd_idem)
    qed
  qed simp
  then show ?thesis by (rule sj.logged_trans [OF logged_load [OF wf]])
qed

lemma logged_createObject: "state_wf env s \<Longrightarrow> sj.logged env s (fst (createObject env a s))"
  unfolding createObject_alt fst_conv
  by (rule logged_create_with) (simp_all add: obj_wf_new)

lemma GetOrNew_logged:
  assumes wf: "state_wf env s"
  shows "sj.logged env s (GetOrNewStateObject env a s) \<and> state_wf env (GetOrNewStateObject env a s) \<and>
    (\<exists>o1. sdb_stateObjects (GetOrNewStateObject env a s) a = Some o1 \<and> \<not> so_deleted o1 \<and>
      so_address o1 = a \<and> obj_wf o1)"
proof (cases "live_object env a s")
  case None
  let ?s1 = "fst (getDeletedStateObject env a s)"
  have e: "GetOrNewStateObject env a s = fst (createObject env a ?s1)"
    using None by (simp add: GetOrNewStateObject_def getStateObject_alt live_object_lookup)
  have l: "sj.logged env s (fst (createObject env a ?s1))"
    by (rule sj.logged_trans [OF logged_load [OF wf] logged_createObject [OF getDeleted_wf [OF wf]]])
  then show ?thesis unfolding e createObject_cached
    using obj_wf_new [OF wf] by (auto simp: sj.logged_def newObject_def Let_def)
next
  case (Some o1)
  then have o1: "lookup_object env s a = Some o1" "\<not> so_deleted o1"
    by (auto simp: live_object_lookup split: option.splits if_splits)
  then show ?thesis
    using logged_load [OF wf, of a] getDeleted_wf [OF wf, of a] getDeleted_cached [OF o1(1)]
      wf_lookup [OF wf o1(1)]
    by (simp add: GetOrNewStateObject_def getStateObject_alt)
qed

lemma logged_on_object:
  assumes wf: "state_wf env s"
    and f: "\<And>s1 o1. state_wf env s1 \<Longrightarrow> sdb_stateObjects s1 a = Some o1 \<Longrightarrow> \<not> so_deleted o1 \<Longrightarrow>
      so_address o1 = a \<Longrightarrow> obj_wf o1 \<Longrightarrow> sj.logged env s1 (f o1 s1)"
  shows "sj.logged env s (on_object env a f s)"
proof -
  obtain o1 where o1: "sdb_stateObjects (GetOrNewStateObject env a s) a = Some o1" "\<not> so_deleted o1"
    "so_address o1 = a" "obj_wf o1"
    using GetOrNew_logged [OF wf, of a] by blast
  have "sj.logged env (GetOrNewStateObject env a s) (f o1 (GetOrNewStateObject env a s))"
    using f [OF _ o1] GetOrNew_logged [OF wf, of a] by blast
  then show ?thesis
    using sj.logged_trans o1(1) GetOrNew_logged [OF wf, of a] by (auto simp: on_object_def)
qed

lemma entry_wf_simps [simp]:
  "entry_wf (suicideChange a p b)" "entry_wf (balanceChange a b)" "entry_wf (stakeBalanceChange a b)"
  "entry_wf (pendingStakeBalanceChange a b)" "entry_wf (nonceChange a n)"
  "entry_wf (otsBitfieldChange a i)" "entry_wf (storageChange a k w)" "entry_wf (codeChange a c h)"
  "entry_wf (refundChange r)" "entry_wf (addLogChange t)" "entry_wf (addPreimageChange t)"
  "entry_wf (touchChange a)" "entry_wf (accessListAddAccountChange a)"
  "entry_wf (accessListAddSlotChange a slot)"
  by (simp_all add: entry_wf_def)

lemma object_view_reads:
  "ov_nonce (object_view env o1) = Nonce (so_data o1)"
  "ov_balance (object_view env o1) = Balance (so_data o1)"
  "ov_stake (object_view env o1) = StakeBalance (so_data o1)"
  "ov_pending (object_view env o1) = PendingStakeBalance (so_data o1)"
  "ov_codehash (object_view env o1) = CodeHash (so_data o1)"
  "ov_code (object_view env o1) = snd (so_Code env o1)"
  "ov_suicided (object_view env o1) = so_suicided o1"
  "ov_state (object_view env o1) k = snd (so_GetState env k o1)"
  by (simp_all add: object_view_def)

lemma logged_SetBalance:
  assumes "state_wf env s" "sdb_stateObjects s a = Some o1" "\<not> so_deleted o1" "so_address o1 = a" "obj_wf o1"
  shows "sj.logged env s (so_SetBalance a o1 b s)"
  unfolding so_SetBalance_def so_setBalance_def mod_data_def
  by (rule logged_object [OF assms(1,2)], simp, rule ext, simp only: undo_view.simps)
    (use assms in \<open>simp_all add: object_updates object_view_reads(2) [symmetric]\<close>)

lemma logged_SetStakeBalance:
  assumes "state_wf env s" "sdb_stateObjects s a = Some o1" "\<not> so_deleted o1" "so_address o1 = a" "obj_wf o1"
  shows "sj.logged env s (so_SetStakeBalance a o1 b s)"
  unfolding so_SetStakeBalance_def so_setStakeBalance_def mod_data_def
  by (rule logged_object [OF assms(1,2)], simp, rule ext, simp only: undo_view.simps)
    (use assms in \<open>simp_all add: object_updates object_view_reads(3) [symmetric]\<close>)

lemma logged_SetPendingStakeBalance:
  assumes "state_wf env s" "sdb_stateObjects s a = Some o1" "\<not> so_deleted o1" "so_address o1 = a" "obj_wf o1"
  shows "sj.logged env s (so_SetPendingStakeBalance a o1 b s)"
  unfolding so_SetPendingStakeBalance_def so_setPendingStakeBalance_def mod_data_def
  by (rule logged_object [OF assms(1,2)], simp, rule ext, simp only: undo_view.simps)
    (use assms in \<open>simp_all add: object_updates object_view_reads(4) [symmetric]\<close>)

lemma logged_SetNonce:
  assumes "state_wf env s" "sdb_stateObjects s a = Some o1" "\<not> so_deleted o1" "so_address o1 = a" "obj_wf o1"
  shows "sj.logged env s (so_SetNonce a o1 n s)"
  unfolding so_SetNonce_def so_setNonce_def mod_data_def
  by (rule logged_object [OF assms(1,2)], simp, rule ext, simp only: undo_view.simps)
    (use assms in \<open>simp_all add: object_updates object_view_reads(1) [symmetric]\<close>)

text \<open>Operations that only change fields of the state.\<close>

lemma logged_field:
  assumes wf: "state_wf env s" and j: "entry_wf j"
    and s': "sdb_stateObjects s' = sdb_stateObjects s" "sdb_trie s' = sdb_trie s"
      "sdb_entries s' = sdb_entries s @ [j]" "al_wf (sdb_accessList s')"
    and u: "undo_view env (sdb_trie s) j ((state_view env s)\<lparr>vw_refund := sdb_refund s',
      vw_logs := logs_at s', vw_logSize := sdb_logSize s', vw_preimages := sdb_preimages s',
      vw_access := sdb_accessList s'\<rparr>) = Some (state_view env s)"
  shows "sj.logged env s s'"
proof (rule sj.logged_one [OF _ s'(2,3)])
  show "state_wf env s'"
    using wf j s' lookup_fields [OF s'(1,2)] by (simp add: state_wf_def)
  show "undo_view env (sdb_trie s) j (state_view env s') = Some (state_view env s)"
    using u view_fields [OF s'(1,2), of env] by simp
qed

lemma logs_at_dirties [simp]: "logs_at (s\<lparr>sdb_dirties := d\<rparr>) = logs_at s"
  by (simp add: logs_at_def fun_eq_iff)

lemma logged_touch: "state_wf env s \<Longrightarrow> sj.logged env s (so_touch a s)"
  by (rule logged_field [where j = "touchChange a"])
    (simp_all add: so_touch_def journal_dirty_def wf_access Let_def, simp add: state_view_def)

lemma logged_AddBalance:
  assumes "state_wf env s" "sdb_stateObjects s a = Some o1" "\<not> so_deleted o1" "so_address o1 = a" "obj_wf o1"
  shows "sj.logged env s (so_AddBalance env a o1 b s)"
  using logged_SetBalance [OF assms] logged_touch [OF assms(1)] sj.logged_refl [OF assms(1)]
  by (simp add: so_AddBalance_def)

lemma logged_SubBalance:
  assumes "state_wf env s" "sdb_stateObjects s a = Some o1" "\<not> so_deleted o1" "so_address o1 = a" "obj_wf o1"
  shows "sj.logged env s (so_SubBalance a o1 b s)"
  using logged_SetBalance [OF assms] sj.logged_refl [OF assms(1)] by (simp add: so_SubBalance_def)

lemma so_deleted_reads [simp]:
  "so_deleted (fst (so_Code env o1)) = so_deleted o1"
  "so_deleted (fst (so_GetState env k o1)) = so_deleted o1"
  by (simp_all add: so_Code_def so_GetState_def split: option.splits sum.splits)

lemma code_from_hash:
  "length h = 32 \<Longrightarrow> code_from env (code_from env c h) h = code_from env c h"
  by (simp add: code_from_def split: option.splits sum.splits)

lemma logged_SetCode:
  assumes s: "state_wf env s" "sdb_stateObjects s a = Some o1" "\<not> so_deleted o1" "so_address o1 = a"
    "obj_wf o1" and h: "length h = 32"
  shows "sj.logged env s (so_SetCode env a o1 h code s)"
proof -
  let ?o2 = "fst (so_Code env o1)"
  let ?s1 = "mod_object a (\<lambda>_. ?o2) s"
  have w: "obj_wf ?o2" using s(5) by (simp add: obj_wf_def)
  have l: "sj.logged env s ?s1"
    by (rule logged_memo [OF s(1,2)]) (use s(4,5) w in \<open>auto simp: object_view_Code obj_wf_fake\<close>)
  then have wf1: "state_wf env ?s1" by (simp add: sj.logged_def)
  have o2: "sdb_stateObjects ?s1 a = Some ?o2" using s(2) by simp
  have ch: "length (CodeHash (so_data o1)) = 32" using s(5) by (simp add: obj_wf_def)
  have v: "object_view env ?o2 = (object_view env ?o2)\<lparr>ov_code := snd (so_Code env o1),
      ov_codehash := CodeHash (so_data o1)\<rparr>"
    unfolding object_view_Code [OF obj_wf_fake [OF s(5)]] by (simp add: object_view_def)
  have up: "object_view env (?o2\<lparr>so_code := Some code, so_data := (so_data o1)\<lparr>CodeHash := h\<rparr>,
        so_dirtyCode := True\<rparr>) =
      (object_view env ?o2)\<lparr>ov_code := code_from env (Some code) h, ov_codehash := h\<rparr>"
    and up_wf: "obj_wf (?o2\<lparr>so_code := Some code, so_data := (so_data o1)\<lparr>CodeHash := h\<rparr>,
        so_dirtyCode := True\<rparr>)"
    using object_updates(7) [where c = "Some code" and h = h and env = env, OF w] obj_wf_code [OF w h, of "Some code"] by simp_all
  have "sj.logged env ?s1 (so_SetCode env a o1 h code s)"
    unfolding so_SetCode_def so_setCode_def split_beta
    by (rule logged_object [OF wf1 o2], simp, rule ext, simp only: undo_view.simps)
      (use s(3,4) ch v up_wf in \<open>simp_all add: up Code_value code_from_hash\<close>)
  then show ?thesis by (rule sj.logged_trans [OF l])
qed

lemma logged_SetState:
  assumes s: "state_wf env s" "sdb_stateObjects s a = Some o1" "\<not> so_deleted o1" "so_address o1 = a"
    "obj_wf o1"
  shows "sj.logged env s (so_SetState env a o1 k v s)"
proof -
  let ?o2 = "fst (so_GetState env k o1)"
  let ?s1 = "mod_object a (\<lambda>_. ?o2) s"
  have w: "obj_wf ?o2" "so_address ?o2 = a" using obj_wf_GetState [OF s(5)] s(4) by auto
  have l: "sj.logged env s ?s1"
    by (rule logged_memo [OF s(1,2)]) (use s(5) w in \<open>auto simp: object_view_GetState obj_wf_fake\<close>)
  then have wf1: "state_wf env ?s1" by (simp add: sj.logged_def)
  have o2: "sdb_stateObjects ?s1 a = Some ?o2" using s(2) by simp
  have p: "snd (so_GetState env k o1) = ov_state (object_view env ?o2) k"
    by (simp add: object_view_GetState [OF obj_wf_fake [OF s(5)]] object_view_reads)
  have "sj.logged env ?s1
      (so_setState a k v (journal_append (storageChange a k (snd (so_GetState env k o1))) ?s1))"
    unfolding so_setState_def
    by (rule logged_object [OF wf1 o2], simp, rule ext, simp only: undo_view.simps)
      (use s(3) w in \<open>auto simp: object_updates p fun_upd_idem\<close>)
  then show ?thesis
    using l sj.logged_trans obj_wf_fake [OF s(5)]
    by (auto simp: so_SetState_def Let_def split_beta)
qed

lemma logged_SetOTSBitfield:
  assumes wf: "state_wf env s" and ok: "sdb_SetOTSBitfield env a i False s = Ok s'"
    and unused: "\<forall>o1. lookup_object env (GetOrNewStateObject env a s) a = Some o1 \<longrightarrow>
      \<not> ots_used a (OTSBitfield (so_data o1)) i"
  shows "sj.logged env s s'"
proof -
  let ?s1 = "GetOrNewStateObject env a s"
  obtain o1 where o1: "sdb_stateObjects ?s1 a = Some o1" "\<not> so_deleted o1" "so_address o1 = a" "obj_wf o1"
    and l: "sj.logged env s ?s1" and wf1: "state_wf env ?s1"
    using GetOrNew_logged [OF wf, of a] by blast
  have bf: "OTSBitfield (so_data o1) = [] \<or> bitfield_wf a (OTSBitfield (so_data o1))"
    using o1(3,4) by (simp add: obj_wf_bitfield)
  have i: "unat i div 8 < ots_size a"
    using ok o1(1) set_ots_out_of_range [OF bf, of i False]
    by (cases "unat i div 8 < ots_size a")
      (simp_all add: sdb_SetOTSBitfield_def so_SetOTSBitfield_def so_setOTSBitfield_def deref_def)
  obtain bf' where bf': "set_ots a i False (OTSBitfield (so_data o1)) = Ok bf'" "bitfield_wf a bf'"
    "ots_used a bf' = (ots_used a (OTSBitfield (so_data o1)))(i := True)"
    using set_ots_correct [OF bf i, of False] by auto
  let ?h = "\<lambda>o2. o2\<lparr>so_data := (so_data o2)\<lparr>OTSBitfield := bf'\<rparr>\<rparr>"
  have s': "s' = mod_object a ?h (journal_append (otsBitfieldChange a i) ?s1)"
    using ok o1(1) bf'(1)
    by (simp add: sdb_SetOTSBitfield_def so_SetOTSBitfield_def so_setOTSBitfield_def deref_def mod_data_def)
  have "\<not> ots_used a (OTSBitfield (so_data o1)) i"
    using unused o1(1) by (simp add: lookup_object_def)
  then have u: "(ots_used a bf')(i := False) = ov_ots (object_view env o1)"
    using bf'(3) o1(3) by (simp add: object_view_ots fun_upd_idem)
  have "sj.logged env ?s1 s'" unfolding s'
    by (rule logged_object [OF wf1 o1(1)], simp, rule ext, simp only: undo_view.simps)
      (use o1 bf' i u in \<open>auto simp: object_updates obj_wf_bitfield\<close>)
  then show ?thesis by (rule sj.logged_trans [OF l])
qed

lemma logged_CreateAccount:
  assumes wf: "state_wf env s"
  shows "sj.logged env s (CreateAccount env a s)"
proof (cases "live_object env a s")
  case None
  then have "CreateAccount env a s = fst (createObject env a s)"
    by (auto simp: CreateAccount_def createObject_alt live_object_lookup split: option.splits)
  then show ?thesis using logged_createObject [OF wf, of a] by simp
next
  case (Some p)
  let ?o2 = "(newObject env a zero_account)\<lparr>so_data := (so_data (newObject env a zero_account))
    \<lparr>Balance := Balance (so_data p)\<rparr>\<rparr>"
  have "CreateAccount env a s = setStateObject ?o2
    (journal_append (case lookup_object env s a of None \<Rightarrow> createObjectChange a
                     | Some p \<Rightarrow> resetObjectChange p) (fst (getDeletedStateObject env a s)))"
    using Some
    by (auto simp: CreateAccount_def createObject_alt live_object_lookup mod_data_def mod_object_def
        setStateObject_def split: option.splits if_splits)
  moreover have "sj.logged env s (setStateObject ?o2
    (journal_append (case lookup_object env s a of None \<Rightarrow> createObjectChange a
                     | Some p \<Rightarrow> resetObjectChange p) (fst (getDeletedStateObject env a s))))"
    by (rule logged_create_with [OF wf]) (use obj_wf_new [OF wf] in simp_all)
  ultimately show ?thesis by simp
qed

lemma logged_Suicide:
  assumes wf: "state_wf env s"
  shows "sj.logged env s (fst (sdb_Suicide env a s))"
proof (cases "live_object env a s")
  case None
  then show ?thesis using logged_load [OF wf, of a]
    by (simp add: sdb_Suicide_def getStateObject_alt live_object_lookup)
next
  case (Some o1)
  then have o1: "lookup_object env s a = Some o1" "\<not> so_deleted o1"
    by (auto simp: live_object_lookup split: option.splits if_splits)
  let ?s1 = "fst (getDeletedStateObject env a s)"
  let ?h = "\<lambda>o2. o2\<lparr>so_suicided := True, so_data := (so_data o2)\<lparr>Balance := 0\<rparr>\<rparr>"
  let ?j = "suicideChange a (so_suicided o1) (Balance (so_data o1))"
  have c: "sdb_stateObjects (journal_append ?j ?s1) a = Some o1"
    using getDeleted_cached [OF o1(1)] by simp
  have w: "obj_wf o1" "so_address o1 = a" using wf_lookup [OF wf o1(1)] by auto
  have e: "fst (sdb_Suicide env a s) = mod_object a ?h (journal_append ?j ?s1)"
    using o1 by (simp add: sdb_Suicide_def getStateObject_alt)
  have "sj.logged env ?s1 (mod_object a ?h (journal_append ?j ?s1))"
  proof (rule sj.logged_one)
    show "state_wf env (mod_object a ?h (journal_append ?j ?s1))"
      by (rule wf_mod_object [where f = ?h, OF wf_journal_append [OF getDeleted_wf [OF wf]] c])
        (use w in simp_all)
    have "object_view env o1 =
        (object_view env o1)\<lparr>ov_suicided := so_suicided o1, ov_balance := Balance (so_data o1)\<rparr>"
      by (simp add: object_view_def)
    then show "undo_view env (sdb_trie ?s1) ?j
        (state_view env (mod_object a ?h (journal_append ?j ?s1))) = Some (state_view env ?s1)"
      using o1 w unfolding view_mod_object [OF c]
      by (simp add: object_updates getDeleted_view) (simp add: state_view_def fun_upd_idem)
  qed simp_all
  then show ?thesis unfolding e by (rule sj.logged_trans [OF logged_load [OF wf]])
qed

lemma logged_AddLog:
  assumes "state_wf env s"
  shows "sj.logged env s (sdb_AddLog lg s)"
proof -
  let ?h = "sdb_thash s" and ?s' = "sdb_AddLog lg s"
  obtain l where "sdb_logs ?s' = (sdb_logs s)(?h \<mapsto> logs_at s ?h @ [l])"
    by (simp add: sdb_AddLog_def Let_def logs_at_def)
  then have l: "logs_at ?s' = (logs_at s)(?h := logs_at s ?h @ [l])"
    by (simp add: logs_at_def fun_eq_iff)
  have f: "sdb_stateObjects ?s' = sdb_stateObjects s" "sdb_trie ?s' = sdb_trie s"
    "sdb_entries ?s' = sdb_entries s @ [addLogChange ?h]" "sdb_accessList ?s' = sdb_accessList s"
    "sdb_logSize ?s' = sdb_logSize s + 1" "sdb_refund ?s' = sdb_refund s"
    "sdb_preimages ?s' = sdb_preimages s"
    by (simp_all add: sdb_AddLog_def Let_def)
  show ?thesis
    by (rule logged_field [OF assms _ f(1-3)])
      (simp_all add: f l wf_access [OF assms], simp add: state_view_def fun_upd_idem)
qed

lemma logged_AddPreimage: "state_wf env s \<Longrightarrow> sj.logged env s (sdb_AddPreimage h b s)"
  unfolding sdb_AddPreimage_def
  by (auto intro!: sj.logged_refl logged_field [where j = "addPreimageChange h"]
      simp: wf_access state_view_def fun_upd_idem)

lemma logged_AddRefund: "state_wf env s \<Longrightarrow> sj.logged env s (sdb_AddRefund g s)"
  by (rule logged_field [where j = "refundChange (sdb_refund s)"])
    (auto simp: sdb_AddRefund_def wf_access state_view_def)

lemma logged_SubRefund: "state_wf env s \<Longrightarrow> sdb_SubRefund g s = Ok s' \<Longrightarrow> sj.logged env s s'"
  by (rule logged_field [where j = "refundChange (sdb_refund s)"])
    (auto simp: sdb_SubRefund_def Let_def wf_access state_view_def split: if_splits)

lemma al_wf_no_slots:
  "al_wf al \<Longrightarrow> al_addresses al a = None \<Longrightarrow> al_wf (al\<lparr>al_addresses := (al_addresses al)(a \<mapsto> -1)\<rparr>)"
  by (auto simp: al_wf_def split: if_splits)

lemma logged_AddAddressToAccessList:
  assumes wf: "state_wf env s"
  shows "sj.logged env s (AddAddressToAccessList a s)"
proof (cases "fst (al_AddAddress a (sdb_accessList s))")
  case True
  let ?al = "snd (al_AddAddress a (sdb_accessList s))"
  have u: "al_DeleteAddress a ?al = sdb_accessList s"
    by (rule al_AddAddress_undo) (use True in \<open>simp add: prod_eq_iff\<close>)
  have "AddAddressToAccessList a s =
      journal_append (accessListAddAccountChange a) (s\<lparr>sdb_accessList := ?al\<rparr>)"
    using True by (cases "al_AddAddress a (sdb_accessList s)") (simp add: AddAddressToAccessList_def)
  then show ?thesis
    by (intro logged_field [where j = "accessListAddAccountChange a", OF wf])
      (use u in \<open>simp_all add: al_wf_AddAddress [OF wf_access [OF wf]], simp add: state_view_def\<close>)
next
  case False
  then have "AddAddressToAccessList a s = s"
    by (auto simp: AddAddressToAccessList_def al_AddAddress_def split: prod.splits if_splits)
  then show ?thesis using sj.logged_refl [OF wf] by simp
qed

lemma view_access [simp]:
  "state_view env (s\<lparr>sdb_accessList := al\<rparr>) = (state_view env s)\<lparr>vw_access := al\<rparr>"
  by (rule sview_eqI) (auto simp: state_view_def intro!: arg_cong [where f = "map_option f" for f] lookup_fields [THEN fun_cong])

lemma wf_set_access:
  assumes "state_wf env s" and "al_wf al"
  shows "state_wf env (s\<lparr>sdb_accessList := al\<rparr>)"
  by (rule state_wf_core [OF assms(1)])
    (use assms in \<open>auto simp: same_core_def intro!: lookup_fields\<close>)

lemma logged_AddSlotToAccessList:
  assumes wf: "state_wf env s" and ok: "AddSlotToAccessList a slot s = Ok s'"
  shows "sj.logged env s s'"
proof -
  obtain ac sc al where al: "al_AddSlot a slot (sdb_accessList s) = Ok ((ac, sc), al)"
    using al_AddSlot_total [OF wf_access [OF wf], of a slot] by auto
  note fl = al_AddSlot_flags [OF al] and wa = al_wf_AddSlot [OF wf_access [OF wf] al]
  let ?s1 = "s\<lparr>sdb_accessList := al\<rparr>"
  have wf1: "state_wf env ?s1" by (rule wf_set_access [OF wf wa])
  consider "sc" "ac" | "sc" "\<not> ac" | "\<not> sc" using fl(2) by blast
  then show ?thesis
  proof cases
    case 1
    let ?al0 = "(sdb_accessList s)\<lparr>al_addresses := (al_addresses (sdb_accessList s))(a \<mapsto> -1)\<rparr>"
    have n: "al_addresses (sdb_accessList s) a = None" using fl(1) 1 by simp
    have d: "al_DeleteSlot a slot al = Ok ?al0"
      using al_AddSlot_undo [OF wf_access [OF wf]] al 1 by auto
    have s': "s' = journal_append (accessListAddSlotChange a slot)
        (journal_append (accessListAddAccountChange a) ?s1)"
      using ok al 1 by (simp add: AddSlotToAccessList_def)
    have "state_wf env s'" unfolding s' by (intro wf_journal_append wf1) simp_all
    moreover have "sj.undos env (sdb_trie s) (rev [accessListAddAccountChange a, accessListAddSlotChange a slot])
        (state_view env s') = Some (state_view env s)"
      using d al_wf_no_slots [OF wf_access [OF wf] n] al_DeleteAddress_undo [OF n, of "-1"]
      unfolding s' by simp (simp add: state_view_def)
    ultimately show ?thesis
      unfolding sj.logged_def
      by (intro conjI exI [of _ "[accessListAddAccountChange a, accessListAddSlotChange a slot]"])
        (simp_all add: s')
  next
    case 2
    have d: "al_DeleteSlot a slot al = Ok (sdb_accessList s)"
      using al_AddSlot_undo [OF wf_access [OF wf]] al 2 by auto
    have s': "s' = journal_append (accessListAddSlotChange a slot) ?s1"
      using ok al 2 by (simp add: AddSlotToAccessList_def)
    show ?thesis unfolding s'
      by (rule logged_field [where j = "accessListAddSlotChange a slot", OF wf])
        (use d wa wf_access [OF wf] in \<open>simp_all, simp add: state_view_def\<close>)
  next
    case 3
    then have "s' = s" using ok al fl(2,3) by (cases ac) (auto simp: AddSlotToAccessList_def)
    then show ?thesis using sj.logged_refl [OF wf] by simp
  qed
qed

section \<open>Runs of operations\<close>

datatype state_op =
    OpCreateAccount Address
  | OpAddBalance Address int
  | OpSubBalance Address int
  | OpSetBalance Address int
  | OpSetStakeBalance Address int
  | OpSetPendingStakeBalance Address int
  | OpSetNonce Address u64
  | OpSetOTSBitfield Address u64
  | OpSetCode Address bytes
  | OpSetState Address Hash Hash
  | OpSuicide Address
  | OpAddLog Log
  | OpAddPreimage Hash bytes
  | OpAddRefund u64
  | OpSubRefund u64
  | OpAddAddress Address
  | OpAddSlot Address Hash

fun run_op :: "StateEnv \<Rightarrow> state_op \<Rightarrow> StateDB \<Rightarrow> (goerr, StateDB) outcome" where
  "run_op env (OpCreateAccount a) s = Ok (CreateAccount env a s)"
| "run_op env (OpAddBalance a x) s = Ok (sdb_AddBalance env a x s)"
| "run_op env (OpSubBalance a x) s = Ok (sdb_SubBalance env a x s)"
| "run_op env (OpSetBalance a x) s = Ok (sdb_SetBalance env a x s)"
| "run_op env (OpSetStakeBalance a x) s = Ok (sdb_SetStakeBalance env a x s)"
| "run_op env (OpSetPendingStakeBalance a x) s = Ok (sdb_SetPendingStakeBalance env a x s)"
| "run_op env (OpSetNonce a n) s = Ok (sdb_SetNonce env a n s)"
| "run_op env (OpSetOTSBitfield a i) s = sdb_SetOTSBitfield env a i False s"
| "run_op env (OpSetCode a c) s = Ok (sdb_SetCode env a c s)"
| "run_op env (OpSetState a k v) s = Ok (sdb_SetState env a k v s)"
| "run_op env (OpSuicide a) s = Ok (fst (sdb_Suicide env a s))"
| "run_op env (OpAddLog l) s = Ok (sdb_AddLog l s)"
| "run_op env (OpAddPreimage h b) s = Ok (sdb_AddPreimage h b s)"
| "run_op env (OpAddRefund g) s = Ok (sdb_AddRefund g s)"
| "run_op env (OpSubRefund g) s = sdb_SubRefund g s"
| "run_op env (OpAddAddress a) s = Ok (AddAddressToAccessList a s)"
| "run_op env (OpAddSlot a slot) s = AddSlotToAccessList a slot s"

text \<open>The validation of a transaction lets only an unused index be marked.\<close>

definition op_fresh :: "StateEnv \<Rightarrow> state_op \<Rightarrow> StateDB \<Rightarrow> bool" where
  "op_fresh env op s \<longleftrightarrow>
     (case op of OpSetOTSBitfield a i \<Rightarrow> \<not> IsUsedOTSIndex i (GetOTSBitfield env a s) | _ \<Rightarrow> True)"

lemma GetOrNew_unused:
  assumes "\<not> IsUsedOTSIndex i (GetOTSBitfield env a s)"
    and "lookup_object env (GetOrNewStateObject env a s) a = Some o1"
  shows "\<not> ots_used a (OTSBitfield (so_data o1)) i"
proof (cases "live_object env a s")
  case None
  let ?s1 = "fst (getDeletedStateObject env a s)"
  have "GetOrNewStateObject env a s = fst (createObject env a ?s1)"
    using None by (simp add: GetOrNewStateObject_def getStateObject_alt live_object_lookup)
  then have "o1 = newObject env a zero_account"
    using assms(2) by (simp add: lookup_object_def createObject_cached)
  then show ?thesis
    by (simp add: newObject_def zero_account_def Let_def ots_used_def IsUsedOTSIndex_def)
next
  case (Some o2)
  then have o2: "lookup_object env s a = Some o2" "\<not> so_deleted o2"
    by (auto simp: live_object_lookup split: option.splits if_splits)
  then have "GetOrNewStateObject env a s = fst (getDeletedStateObject env a s)"
    by (simp add: GetOrNewStateObject_def getStateObject_alt)
  then have "o1 = o2" using assms(2) o2 by (simp add: getDeleted_lookup)
  then show ?thesis using assms(1) Some by (simp add: GetOTSBitfield_def ots_used_def)
qed

lemma keccak_length: "state_wf env s \<Longrightarrow> length (env_keccak env c) = 32"
  by (simp add: state_wf_def)

lemma run_op_logged:
  assumes wf: "state_wf env s" and run: "run_op env op s = Ok s'" and fresh: "op_fresh env op s"
  shows "sj.logged env s s'"
proof (cases op)
  case (OpSetOTSBitfield a i)
  then show ?thesis
    using run fresh logged_SetOTSBitfield [OF wf, of a i s'] GetOrNew_unused [of i env a s]
    by (auto simp: op_fresh_def)
next
  case (OpSetCode a c)
  then show ?thesis using run
    by (auto simp: sdb_SetCode_def intro!: logged_on_object [OF wf] logged_SetCode keccak_length)
qed (use run in \<open>auto simp: sdb_AddBalance_def sdb_SubBalance_def sdb_SetBalance_def
    sdb_SetStakeBalance_def sdb_SetPendingStakeBalance_def sdb_SetNonce_def sdb_SetState_def
    intro!: logged_on_object [OF wf] logged_AddBalance logged_SubBalance logged_SetBalance
      logged_SetStakeBalance logged_SetPendingStakeBalance logged_SetNonce logged_SetState
      logged_CreateAccount [OF wf] logged_Suicide [OF wf] logged_AddLog [OF wf]
      logged_AddPreimage [OF wf] logged_AddRefund [OF wf]
      logged_AddAddressToAccessList [OF wf]
    intro: logged_SubRefund [OF wf] logged_AddSlotToAccessList [OF wf]\<close>)

text \<open>A run: operations, snapshots kept, and snapshots reverted, nested in any way.\<close>

inductive exec :: "StateEnv \<Rightarrow> StateDB \<Rightarrow> StateDB \<Rightarrow> bool" for env where
  exec_done: "exec env s s"
| exec_op: "exec env s s1 \<Longrightarrow> op_fresh env op s1 \<Longrightarrow> run_op env op s1 = Ok s2 \<Longrightarrow> exec env s s2"
| exec_snapshot: "exec env s s1 \<Longrightarrow> sdb_Snapshot s1 = (rid, s2) \<Longrightarrow> exec env s s2"
| exec_revert: "exec env s s1 \<Longrightarrow> sdb_Snapshot s1 = (rid, s2) \<Longrightarrow> exec env s2 s3 \<Longrightarrow>
    RevertToSnapshot env rid s3 = Ok s4 \<Longrightarrow> exec env s s4"

text \<open>Revision ids are below the next one, and a run only adds revisions with new ids.\<close>

definition rev_wf :: "StateDB \<Rightarrow> bool" where
  "rev_wf s \<longleftrightarrow> (\<forall>r\<in>set (sdb_validRevisions s). fst r < sdb_nextRevisionId s)"

definition rev_extends :: "StateDB \<Rightarrow> StateDB \<Rightarrow> bool" where
  "rev_extends s s' \<longleftrightarrow> rev_wf s' \<and> sdb_nextRevisionId s \<le> sdb_nextRevisionId s' \<and>
     (\<exists>rs. sdb_validRevisions s' = sdb_validRevisions s @ rs \<and>
       (\<forall>r\<in>set rs. sdb_nextRevisionId s \<le> fst r))"

definition revisions :: "StateDB \<Rightarrow> (int \<times> nat) list \<times> int" where
  "revisions s = (sdb_validRevisions s, sdb_nextRevisionId s)"

lemma rev_extends_refl: "rev_wf s \<Longrightarrow> rev_extends s s"
  by (simp add: rev_extends_def)

lemma rev_extends_trans: "rev_extends s s' \<Longrightarrow> rev_extends s' s'' \<Longrightarrow> rev_extends s s''"
  unfolding rev_extends_def by (fastforce intro: order_trans)

lemma rev_extends_same: "rev_wf s \<Longrightarrow> revisions s' = revisions s \<Longrightarrow> rev_extends s s'"
  by (simp add: rev_extends_def rev_wf_def revisions_def)

lemma revisions_basic [simp]:
  "revisions (journal_append j s) = revisions s" "revisions (mod_object a f s) = revisions s"
  "revisions (setStateObject o1 s) = revisions s" "revisions (s\<lparr>sdb_accessList := al\<rparr>) = revisions s"
  "revisions (journal_dirty a s) = revisions s" "revisions (sdb_setError e s) = revisions s"
  "revisions (s\<lparr>sdb_refund := r\<rparr>) = revisions s" "revisions (s\<lparr>sdb_logs := l, sdb_logSize := n\<rparr>) = revisions s"
  "revisions (s\<lparr>sdb_preimages := ps\<rparr>) = revisions s"
  "revisions (s\<lparr>sdb_stateObjects := os, sdb_stateObjectsDirty := d\<rparr>) = revisions s"
  by (simp_all add: revisions_def journal_dirty_def sdb_setError_def)

lemma revisions_getDeleted [simp]: "revisions (fst (getDeletedStateObject env a s)) = revisions s"
  by (simp add: getDeletedStateObject_def Let_def split: option.splits trie_read.splits)

lemma revisions_GetOrNew [simp]: "revisions (GetOrNewStateObject env a s) = revisions s"
  by (simp add: GetOrNewStateObject_def getStateObject_alt createObject_alt split: option.splits)

lemma revisions_on_object:
  "(\<And>o1 s1. revisions (f o1 s1) = revisions s1) \<Longrightarrow> revisions (on_object env a f s) = revisions s"
  by (simp add: on_object_def Let_def split: option.splits)

lemma run_op_revisions: "run_op env op s = Ok s' \<Longrightarrow> revisions s' = revisions s"
  by (cases op)
    (auto simp: CreateAccount_def createObject_alt mod_data_def sdb_AddBalance_def sdb_SubBalance_def
      sdb_SetBalance_def sdb_SetStakeBalance_def sdb_SetPendingStakeBalance_def sdb_SetNonce_def
      sdb_SetOTSBitfield_def so_SetOTSBitfield_def so_setOTSBitfield_def sdb_SetCode_def
      sdb_SetState_def sdb_Suicide_def getStateObject_alt sdb_AddLog_def sdb_AddPreimage_def
      sdb_AddRefund_def sdb_SubRefund_def AddAddressToAccessList_def AddSlotToAccessList_def
      so_AddBalance_def so_SubBalance_def so_SetBalance_def so_setBalance_def so_touch_def
      so_SetStakeBalance_def so_setStakeBalance_def so_SetPendingStakeBalance_def
      so_setPendingStakeBalance_def so_SetNonce_def so_setNonce_def so_SetCode_def so_setCode_def
      so_SetState_def so_setState_def Let_def outcome_simps
      intro!: revisions_on_object split: option.splits prod.splits if_splits bool.splits)

lemma revert_entry_revisions: "revert_entry env j s = Ok s' \<Longrightarrow> revisions s' = revisions s"
  by (cases j)
    (auto simp: undo_object_def getStateObject_alt so_setBalance_def so_setStakeBalance_def
      so_setPendingStakeBalance_def so_setNonce_def so_setOTSBitfield_def so_setState_def
      so_setCode_def mod_data_def Let_def outcome_simps split: option.splits if_splits)

lemma revisions_undirty [simp]: "revisions (undirty j s) = revisions s"
  by (simp add: undirty_def revisions_def Let_def split: option.splits)

lemma revert_round_revisions: "revert_round env j s = Ok s' \<Longrightarrow> revisions s' = revisions s"
  using revert_entry_revisions [of env j s] by (auto simp: revert_round_def outcome_simps)

lemma journal_revert_alt:
  "journal_revert env n s =
     and_then (fold_outcome (revert_round env) (rev (drop n (sdb_entries s))) s)
       (\<lambda>s1. if n > length (sdb_entries s) then Panic
             else Ok (s1\<lparr>sdb_entries := take n (sdb_entries s)\<rparr>))"
  by (simp add: journal_revert_def revert_round_def [abs_def])

lemma find_index_append:
  "(\<forall>x\<in>set xs. \<not> P x) \<Longrightarrow> P y \<Longrightarrow> find_index P (xs @ y # ys) = Some (length xs)"
  by (induction xs) auto

lemma Snapshot_view [simp]: "state_view env (snd (sdb_Snapshot s)) = state_view env s"
  by (rule sview_eqI)
    (auto simp: sdb_Snapshot_def state_view_def
      intro!: arg_cong [where f = "map_option f" for f] lookup_fields [THEN fun_cong] logs_at_cong)

lemma Snapshot_wf:
  assumes "state_wf env s"
  shows "state_wf env (snd (sdb_Snapshot s))"
proof -
  have "lookup_object env (snd (sdb_Snapshot s)) = lookup_object env s"
    by (rule lookup_fields) (simp_all add: sdb_Snapshot_def)
  then show ?thesis using assms by (simp add: state_wf_def sdb_Snapshot_def)
qed

lemma Snapshot_logged:
  "state_wf env s \<Longrightarrow> sj.logged env s (snd (sdb_Snapshot s))"
  by (rule sj.logged_view_eq [OF Snapshot_wf]) (simp_all, simp_all add: sdb_Snapshot_def)

lemma Snapshot_extends: "rev_wf s \<Longrightarrow> rev_extends s (snd (sdb_Snapshot s))"
  by (auto simp: rev_extends_def rev_wf_def sdb_Snapshot_def)

text \<open>Reverting to a snapshot after logged work.\<close>

lemma revert_to_snapshot:
  assumes wf: "state_wf env s" "rev_wf s" and snap: "sdb_Snapshot s = (rid, s1)"
    and run: "sj.logged env s1 s2" "rev_extends s1 s2"
  shows "\<exists>s3. RevertToSnapshot env rid s2 = Ok s3 \<and> state_wf env s3 \<and>
    state_view env s3 = state_view env s \<and> sdb_entries s3 = sdb_entries s \<and>
    sdb_trie s3 = sdb_trie s \<and> sdb_validRevisions s3 = sdb_validRevisions s \<and>
    sdb_nextRevisionId s3 = sdb_nextRevisionId s2"
proof -
  let ?n = "length (sdb_entries s)"
  have s1: "s1 = snd (sdb_Snapshot s)" and rid: "rid = sdb_nextRevisionId s"
    using snap by (auto simp: sdb_Snapshot_def)
  have f1: "sdb_entries s1 = sdb_entries s" "sdb_trie s1 = sdb_trie s"
    "sdb_validRevisions s1 = sdb_validRevisions s @ [(rid, ?n)]"
    by (simp_all add: s1 rid sdb_Snapshot_def)
  obtain rs where rs: "sdb_validRevisions s2 = sdb_validRevisions s @ (rid, ?n) # rs"
    using run(2) f1(3) by (auto simp: rev_extends_def)
  have "\<forall>r\<in>set (sdb_validRevisions s). \<not> rid \<le> fst r"
    using wf(2) rid by (auto simp: rev_wf_def)
  then have idx: "find_index (\<lambda>r. fst r \<ge> rid) (sdb_validRevisions s2) = Some (length (sdb_validRevisions s))"
    unfolding rs by (intro find_index_append) auto
  obtain s3 where s3: "fold_outcome (revert_round env) (rev (drop ?n (sdb_entries s2))) s2 = Ok s3"
    "state_wf env s3" "state_view env s3 = state_view env s1" "sdb_entries s3 = sdb_entries s2"
    "sdb_trie s3 = sdb_trie s1"
    using sj.revert_logged [OF run(1)] f1(1) by auto
  have rv: "revisions s3 = revisions s2"
    by (rule fold_outcome_invariant [where I = "\<lambda>t. revisions t = revisions s2", OF s3(1)])
      (auto simp: revert_round_revisions)
  have pre: "take ?n (sdb_entries s2) = sdb_entries s" "?n \<le> length (sdb_entries s2)"
    using run(1) f1(1) by (auto simp: sj.logged_def)
  define s4 where "s4 = s3\<lparr>sdb_entries := sdb_entries s,
    sdb_validRevisions := take (length (sdb_validRevisions s)) (sdb_validRevisions s3)\<rparr>"
  have r: "RevertToSnapshot env rid s2 = Ok s4"
    using idx rs s3(1) pre by (simp add: RevertToSnapshot_def journal_revert_alt s4_def)
  have l: "lookup_object env s4 = lookup_object env s3"
    by (rule lookup_fields) (simp_all add: s4_def)
  have "set (sdb_entries s) \<subseteq> set (sdb_entries s3)"
    using pre(1) s3(4) set_take_subset [of ?n "sdb_entries s2"] by simp
  then have "state_wf env s4"
    using s3(2) l by (auto simp: state_wf_def s4_def)
  moreover have "state_view env s4 = state_view env s3"
    using l logs_at_cong [of s4 s3] by (simp add: s4_def state_view_def)
  moreover have "state_view env s1 = state_view env s" by (simp add: s1)
  ultimately show ?thesis
    using r rv rs s3(3,5) f1(2) by (auto simp: s4_def revisions_def)
qed

lemma exec_logged:
  "exec env s s' \<Longrightarrow> state_wf env s \<Longrightarrow> rev_wf s \<Longrightarrow> sj.logged env s s' \<and> rev_extends s s'"
proof (induction rule: exec.induct)
  case (exec_done s)
  then show ?case by (simp add: sj.logged_refl rev_extends_refl)
next
  case (exec_op s s1 op s2)
  then have "state_wf env s1" "rev_wf s1" by (auto simp: sj.logged_def rev_extends_def)
  from run_op_logged [OF this(1) exec_op.hyps(3,2)]
    rev_extends_same [OF this(2) run_op_revisions [OF exec_op.hyps(3)]]
  show ?case using exec_op.IH exec_op.prems by (blast intro: sj.logged_trans rev_extends_trans)
next
  case (exec_snapshot s s1 rid s2)
  then have "state_wf env s1" "rev_wf s1" by (auto simp: sj.logged_def rev_extends_def)
  from Snapshot_logged [OF this(1)] Snapshot_extends [OF this(2)]
  have "sj.logged env s1 s2" "rev_extends s1 s2" using exec_snapshot.hyps(2) by simp_all
  then show ?case
    using exec_snapshot.IH exec_snapshot.prems by (blast intro: sj.logged_trans rev_extends_trans)
next
  case (exec_revert s s1 rid s2 s3 s4)
  then have 1: "sj.logged env s s1" "rev_extends s s1" "state_wf env s1" "rev_wf s1"
    by (auto simp: sj.logged_def rev_extends_def)
  have "state_wf env s2" "rev_wf s2"
    using Snapshot_wf [OF 1(3)] Snapshot_extends [OF 1(4)] exec_revert.hyps(2)
    by (auto simp: rev_extends_def)
  then have 2: "sj.logged env s2 s3" "rev_extends s2 s3" using exec_revert.IH(2) by auto
  have n: "sdb_nextRevisionId s1 \<le> sdb_nextRevisionId s3"
    using 2(2) exec_revert.hyps(2) by (auto simp: rev_extends_def sdb_Snapshot_def)
  from revert_to_snapshot [OF 1(3,4) exec_revert.hyps(2) 2] exec_revert.hyps(4)
  have 4: "state_wf env s4" "state_view env s4 = state_view env s1" "sdb_entries s4 = sdb_entries s1"
    "sdb_trie s4 = sdb_trie s1" "sdb_validRevisions s4 = sdb_validRevisions s1"
    "sdb_nextRevisionId s4 = sdb_nextRevisionId s3" by auto
  have "sj.logged env s1 s4" by (rule sj.logged_view_eq [OF 4(1,4,2,3)])
  moreover have "rev_extends s1 s4"
    using 1(4) 4(5,6) n by (fastforce simp: rev_extends_def rev_wf_def)
  ultimately show ?case using 1(1,2) sj.logged_trans rev_extends_trans by blast
qed

section \<open>What callers read\<close>

definition live_view :: "StateEnv \<Rightarrow> Address \<Rightarrow> StateDB \<Rightarrow> oview option" where
  "live_view env a s = map_option (object_view env) (live_object env a s)"

lemma live_view_state_view:
  "live_view env a s =
     (case vw_obj (state_view env s) a of None \<Rightarrow> None
      | Some ov \<Rightarrow> if ov_deleted ov then None else Some ov)"
  by (simp add: live_view_def live_object_lookup state_view_def split: option.splits)

lemma getters_live_view:
  "sdb_Exist env a s \<longleftrightarrow> live_view env a s \<noteq> None"
  "GetBalance env a s = (case live_view env a s of None \<Rightarrow> 0 | Some ov \<Rightarrow> ov_balance ov)"
  "GetStakeBalance env a s = (case live_view env a s of None \<Rightarrow> 0 | Some ov \<Rightarrow> ov_stake ov)"
  "GetPendingStakeBalance env a s = (case live_view env a s of None \<Rightarrow> 0 | Some ov \<Rightarrow> ov_pending ov)"
  "GetNonce env a s = (case live_view env a s of None \<Rightarrow> 0 | Some ov \<Rightarrow> ov_nonce ov)"
  "GetCode env a s = (case live_view env a s of None \<Rightarrow> None | Some ov \<Rightarrow> ov_code ov)"
  "GetCodeHash env a s =
     (case live_view env a s of None \<Rightarrow> zero_hash | Some ov \<Rightarrow> BytesToHash (ov_codehash ov))"
  "HasSuicided env a s = (case live_view env a s of None \<Rightarrow> False | Some ov \<Rightarrow> ov_suicided ov)"
  "GetState env a k s = (case live_view env a s of None \<Rightarrow> zero_hash | Some ov \<Rightarrow> ov_state ov k)"
  "GetCommittedState env a k s =
     (case live_view env a s of None \<Rightarrow> zero_hash | Some ov \<Rightarrow> ov_committed ov k)"
  by (auto simp: live_view_def object_view_def sdb_Exist_def GetBalance_def GetStakeBalance_def
      GetPendingStakeBalance_def GetNonce_def GetCode_def GetCodeHash_def HasSuicided_def
      GetState_def GetCommittedState_def split: option.splits)

lemma ots_live_view:
  assumes "state_wf env s" and "unat i div 8 < ots_size a"
  shows "IsUsedOTSIndex i (GetOTSBitfield env a s) =
    (case live_view env a s of None \<Rightarrow> False | Some ov \<Rightarrow> ov_ots ov i)"
proof (cases "live_object env a s")
  case None
  then show ?thesis by (simp add: GetOTSBitfield_def live_view_def IsUsedOTSIndex_def)
next
  case (Some o1)
  then have "so_address o1 = a"
    using wf_lookup [OF assms(1)] by (auto simp: live_object_lookup split: option.splits if_splits)
  then show ?thesis
    using Some assms(2) by (simp add: GetOTSBitfield_def live_view_def object_view_ots ots_used_def)
qed

lemma state_view_fields:
  assumes "state_view env s' = state_view env s"
  shows "sdb_refund s' = sdb_refund s" and "sdb_logSize s' = sdb_logSize s"
    and "sdb_preimages s' = sdb_preimages s" and "sdb_accessList s' = sdb_accessList s"
    and "sdb_GetLogs h bh s' = sdb_GetLogs h bh s" and "live_view env a s' = live_view env a s"
proof -
  have "logs_at s' h = logs_at s h" using assms by (simp add: state_view_def)
  then show "sdb_GetLogs h bh s' = sdb_GetLogs h bh s"
    by (auto simp: sdb_GetLogs_def logs_at_def split: option.splits)
qed (use assms in \<open>simp_all add: live_view_state_view state_view_def\<close>)

text \<open>C1. A snapshot is exact: take a snapshot of a well-formed state, run any operations with any
  nesting of further snapshots and reverts, and \<open>RevertToSnapshot\<close> succeeds; then every account
  reads as before (existence, balances, nonce, code, storage, suicide flag, used one-time indices)
  and so do the refund, the logs, the preimages, the access list, the journal and the revisions.\<close>

theorem RevertToSnapshot_restores:
  assumes "state_wf env s" and "rev_wf s" and "sdb_Snapshot s = (rid, s1)" and "exec env s1 s2"
  shows "\<exists>s3. RevertToSnapshot env rid s2 = Ok s3 \<and>
    sdb_entries s3 = sdb_entries s \<and> sdb_validRevisions s3 = sdb_validRevisions s \<and>
    sdb_refund s3 = sdb_refund s \<and> sdb_logSize s3 = sdb_logSize s \<and>
    sdb_preimages s3 = sdb_preimages s \<and> sdb_accessList s3 = sdb_accessList s \<and>
    (\<forall>h bh. sdb_GetLogs h bh s3 = sdb_GetLogs h bh s) \<and>
    (\<forall>a. sdb_Exist env a s3 = sdb_Exist env a s \<and> GetBalance env a s3 = GetBalance env a s \<and>
      GetStakeBalance env a s3 = GetStakeBalance env a s \<and>
      GetPendingStakeBalance env a s3 = GetPendingStakeBalance env a s \<and>
      GetNonce env a s3 = GetNonce env a s \<and> GetCode env a s3 = GetCode env a s \<and>
      GetCodeHash env a s3 = GetCodeHash env a s \<and> HasSuicided env a s3 = HasSuicided env a s \<and>
      (\<forall>k. GetState env a k s3 = GetState env a k s \<and>
        GetCommittedState env a k s3 = GetCommittedState env a k s) \<and>
      (\<forall>i. unat i div 8 < ots_size a \<longrightarrow> IsUsedOTSIndex i (GetOTSBitfield env a s3) =
        IsUsedOTSIndex i (GetOTSBitfield env a s)))"
proof -
  have "state_wf env s1" "rev_wf s1"
    using Snapshot_wf [OF assms(1)] Snapshot_extends [OF assms(2)] assms(3)
    by (auto simp: rev_extends_def)
  then have run: "sj.logged env s1 s2" "rev_extends s1 s2" using exec_logged [OF assms(4)] by auto
  obtain s3 where s3: "RevertToSnapshot env rid s2 = Ok s3" "state_wf env s3"
    "state_view env s3 = state_view env s" "sdb_entries s3 = sdb_entries s"
    "sdb_validRevisions s3 = sdb_validRevisions s"
    using revert_to_snapshot [OF assms(1-3) run] by blast
  note v = state_view_fields [OF s3(3)]
  show ?thesis
    by (rule exI [of _ s3])
      (simp add: s3(1,4,5) v getters_live_view ots_live_view [OF assms(1)] ots_live_view [OF s3(2)])
qed

definition witness_env :: StateEnv where
  "witness_env = \<lparr>storage_TryGet = (\<lambda>_ _ _. Inr []),
     ContractCode = (\<lambda>_. Inl ''not found''), env_keccak = (\<lambda>_. replicate 32 1)\<rparr>"

lemma New_lookup: "lookup_object env (StateDB_New (\<lambda>_. TrieEmpty)) a = None"
  by (simp add: lookup_object_def trie_object_def StateDB_New_def)

lemma New_wf: "(\<forall>c. length (env_keccak env c) = 32) \<Longrightarrow> state_wf env (StateDB_New (\<lambda>_. TrieEmpty))"
  by (simp add: state_wf_def New_lookup)
    (simp add: StateDB_New_def trie_object_def newAccessList_def al_wf_def)

theorem RevertToSnapshot_restores_witness:
  "\<exists>s3. RevertToSnapshot witness_env 0 (sdb_AddBalance witness_env [1, 2] 5
      (snd (sdb_Snapshot (StateDB_New (\<lambda>_. TrieEmpty))))) = Ok s3 \<and>
    GetBalance witness_env [1, 2] s3 = 0 \<and> \<not> sdb_Exist witness_env [1, 2] s3"
proof -
  let ?s = "StateDB_New (\<lambda>_. TrieEmpty)"
  have "exec witness_env (snd (sdb_Snapshot ?s))
      (sdb_AddBalance witness_env [1, 2] 5 (snd (sdb_Snapshot ?s)))"
    by (rule exec_op [OF exec_done, where op = "OpAddBalance [1, 2] 5"]) (simp_all add: op_fresh_def)
  from RevertToSnapshot_restores [OF New_wf _ _ this, of 0] show ?thesis
    by (fastforce simp: witness_env_def rev_wf_def sdb_Snapshot_def StateDB_New_def sdb_Exist_def
        GetBalance_def live_object_lookup lookup_object_def trie_object_def)
qed

end
