(* ===== verification/Zond_Ledger.thy ===== *)
theory Zond_Ledger
  imports Zond_Snapshot
begin

text \<open>
  The world state as a ledger of accounts: what each setter of \<^verbatim>\<open>statedb.go\<close> does to the account
  data every getter reads, and the value transfers of \<^verbatim>\<open>core/evm.go\<close> on top of them.
\<close>

section \<open>Transfers of value\<close>

definition CanTransfer :: "StateEnv \<Rightarrow> Address \<Rightarrow> int \<Rightarrow> StateDB \<Rightarrow> bool" where
  "CanTransfer env addr amount s \<longleftrightarrow> GetBalance env addr s \<ge> amount"

definition Transfer :: "StateEnv \<Rightarrow> Address \<Rightarrow> Address \<Rightarrow> int \<Rightarrow> StateDB \<Rightarrow> StateDB" where
  "Transfer env sender recipient amount s =
     sdb_AddBalance env recipient amount (sdb_SubBalance env sender amount s)"

section \<open>The account data behind the getters\<close>

text \<open>The data at an address; an address without a live object reads as a new account.\<close>

definition account :: "StateEnv \<Rightarrow> StateDB \<Rightarrow> Address \<Rightarrow> StateAccount" where
  "account env s a =
     (case live_object env a s of Some o1 \<Rightarrow> so_data o1 | None \<Rightarrow> so_data (newObject env a zero_account))"

lemma new_data [simp]:
  "Nonce (so_data (newObject env a zero_account)) = 0"
  "Balance (so_data (newObject env a zero_account)) = 0"
  "StakeBalance (so_data (newObject env a zero_account)) = 0"
  "PendingStakeBalance (so_data (newObject env a zero_account)) = 0"
  "OTSBitfield (so_data (newObject env a zero_account)) = []"
  "CodeHash (so_data (newObject env a zero_account)) = emptyCodeHash env"
  by (simp_all add: newObject_def zero_account_def Let_def)

lemma getters_account:
  "GetBalance env a s = Balance (account env s a)"
  "GetStakeBalance env a s = StakeBalance (account env s a)"
  "GetPendingStakeBalance env a s = PendingStakeBalance (account env s a)"
  "GetNonce env a s = Nonce (account env s a)"
  "GetOTSBitfield env a s = OTSBitfield (account env s a)"
  by (simp_all add: account_def GetBalance_def GetStakeBalance_def GetPendingStakeBalance_def
      GetNonce_def GetOTSBitfield_def split: option.split)

lemma live_GetOrNew:
  "live_object env b (GetOrNewStateObject env a s) =
     (if b = a \<and> live_object env a s = None then Some (newObject env a zero_account)
      else live_object env b s)"
proof (cases "live_object env a s")
  case None
  then have "GetOrNewStateObject env a s = fst (createObject env a (fst (getDeletedStateObject env a s)))"
    by (simp add: GetOrNewStateObject_def getStateObject_alt live_object_lookup)
  then show ?thesis using None
    by (simp add: createObject_alt live_object_lookup lookup_setStateObject getDeleted_lookup)
      (simp add: newObject_def Let_def)
next
  case (Some o1)
  then have "GetOrNewStateObject env a s = fst (getDeletedStateObject env a s)"
    by (auto simp: GetOrNewStateObject_def getStateObject_alt live_object_lookup split: option.splits)
  then show ?thesis using Some by (simp add: live_object_lookup getDeleted_lookup)
qed

lemma account_GetOrNew [simp]: "account env (GetOrNewStateObject env a s) = account env s"
  by (simp add: account_def fun_eq_iff live_GetOrNew split: option.split)

lemma account_journal_append [simp]: "account env (journal_append j s) = account env s"
  by (simp add: account_def fun_eq_iff live_object_lookup)

lemma account_cong:
  "sdb_stateObjects s' = sdb_stateObjects s \<Longrightarrow> sdb_trie s' = sdb_trie s \<Longrightarrow> account env s' = account env s"
  by (simp add: account_def [abs_def] live_object_lookup lookup_object_def cong: option.case_cong)

text \<open>The object that a setter holds is live and cached.\<close>

lemma GetOrNew_holds:
  obtains o1 where "sdb_stateObjects (GetOrNewStateObject env a s) a = Some o1"
    and "\<not> so_deleted o1" and "so_data o1 = account env s a"
proof -
  have "\<exists>o1. sdb_stateObjects (GetOrNewStateObject env a s) a = Some o1"
    by (cases "live_object env a s")
      (auto simp: GetOrNewStateObject_def getStateObject_alt live_object_lookup createObject_alt
        getDeleted_cached newObject_def Let_def split: option.splits if_splits)
  then obtain o1 where o1: "sdb_stateObjects (GetOrNewStateObject env a s) a = Some o1" by blast
  have "live_object env a (GetOrNewStateObject env a s) \<noteq> None" by (simp add: live_GetOrNew)
  then have d: "live_object env a (GetOrNewStateObject env a s) = Some o1" "\<not> so_deleted o1"
    using o1 by (auto simp: live_object_lookup lookup_object_def split: if_splits)
  have "so_data o1 = account env (GetOrNewStateObject env a s) a"
    unfolding account_def d(1) by simp
  then show ?thesis using that [OF o1 d(2)] by simp
qed

lemma account_holds:
  assumes "sdb_stateObjects s a = Some o1" and "\<not> so_deleted o1"
  shows "account env s a = so_data o1"
  using assms by (simp add: account_def live_object_lookup lookup_object_def)

lemma account_mod_data:
  assumes "sdb_stateObjects s a = Some o1" and "\<not> so_deleted o1"
  shows "account env (mod_data a f s) = (account env s)(a := f (so_data o1))"
  using assms
  by (auto simp: account_def fun_eq_iff live_object_lookup mod_data_def lookup_mod_object
      lookup_object_def)

lemma account_on_object:
  assumes "\<And>o1 s1. sdb_stateObjects s1 a = Some o1 \<Longrightarrow> \<not> so_deleted o1 \<Longrightarrow>
      account env (f o1 s1) = (account env s1)(a := g (so_data o1))"
  shows "account env (on_object env a f s) = (account env s)(a := g (account env s a))"
proof -
  obtain o1 where "sdb_stateObjects (GetOrNewStateObject env a s) a = Some o1"
      "\<not> so_deleted o1" "so_data o1 = account env s a" by (rule GetOrNew_holds)
  then show ?thesis using assms by (simp add: on_object_def Let_def)
qed

lemmas account_setters =
  so_AddBalance_def so_SubBalance_def so_SetBalance_def so_setBalance_def
  so_SetStakeBalance_def so_setStakeBalance_def so_SetPendingStakeBalance_def
  so_setPendingStakeBalance_def so_SetNonce_def so_setNonce_def

lemma account_touch [simp]: "account env (so_touch a s) = account env s"
  by (rule account_cong) (simp_all add: so_touch_def journal_dirty_def Let_def)

lemma account_AddBalance:
  "account env (sdb_AddBalance env a x s) =
     (account env s)(a := (account env s a)\<lparr>Balance := Balance (account env s a) + x\<rparr>)"
  unfolding sdb_AddBalance_def
  by (rule account_on_object)
    (auto simp: account_setters account_mod_data account_holds)

lemma account_SubBalance:
  "account env (sdb_SubBalance env a x s) =
     (account env s)(a := (account env s a)\<lparr>Balance := Balance (account env s a) - x\<rparr>)"
  unfolding sdb_SubBalance_def
  by (rule account_on_object) (auto simp: account_setters account_mod_data account_holds)

lemma account_SetBalance:
  "account env (sdb_SetBalance env a x s) = (account env s)(a := (account env s a)\<lparr>Balance := x\<rparr>)"
  unfolding sdb_SetBalance_def
  by (rule account_on_object) (simp add: account_setters account_mod_data)

lemma account_SetStakeBalance:
  "account env (sdb_SetStakeBalance env a x s) =
     (account env s)(a := (account env s a)\<lparr>StakeBalance := x\<rparr>)"
  unfolding sdb_SetStakeBalance_def
  by (rule account_on_object) (simp add: account_setters account_mod_data)

lemma account_SetPendingStakeBalance:
  "account env (sdb_SetPendingStakeBalance env a x s) =
     (account env s)(a := (account env s a)\<lparr>PendingStakeBalance := x\<rparr>)"
  unfolding sdb_SetPendingStakeBalance_def
  by (rule account_on_object) (simp add: account_setters account_mod_data)

lemma account_SetNonce:
  "account env (sdb_SetNonce env a n s) = (account env s)(a := (account env s a)\<lparr>Nonce := n\<rparr>)"
  unfolding sdb_SetNonce_def
  by (rule account_on_object) (simp add: account_setters account_mod_data)

text \<open>Operations that change no account data, or only the code hash.\<close>

lemma account_neutral [simp]:
  "account env (snd (sdb_Snapshot s)) = account env s"
  "account env (sdb_AddRefund g s) = account env s"
  "account env (sdb_AddLog l s) = account env s"
  "account env (sdb_AddPreimage h d s) = account env s"
  "account env (AddAddressToAccessList a s) = account env s"
  by (rule account_cong; simp add: sdb_Snapshot_def sdb_AddRefund_def sdb_AddLog_def
      sdb_AddPreimage_def AddAddressToAccessList_def Let_def split: prod.splits bool.splits)+

lemma account_SubRefund: "sdb_SubRefund g s = Ok s' \<Longrightarrow> account env s' = account env s"
  by (rule account_cong) (auto simp: sdb_SubRefund_def Let_def split: if_splits)

lemma account_AddSlot: "AddSlotToAccessList a k s = Ok s' \<Longrightarrow> account env s' = account env s"
  by (rule account_cong) (auto simp: AddSlotToAccessList_def Let_def outcome_simps split: if_splits)

lemma account_mod_object:
  assumes "sdb_stateObjects s a = Some o1" and "\<not> so_deleted o1"
    and "\<not> so_deleted (f o1)"
  shows "account env (mod_object a f s) = (account env s)(a := so_data (f o1))"
  using assms
  by (auto simp: account_def fun_eq_iff live_object_lookup lookup_mod_object lookup_object_def)

lemma so_Code_keeps:
  "so_data (fst (so_Code env o1)) = so_data o1" "so_deleted (fst (so_Code env o1)) = so_deleted o1"
  by (simp_all add: so_Code_def so_setError_def split: option.split sum.split)

lemma so_GetState_keeps:
  "so_data (fst (so_GetState env k o1)) = so_data o1"
  "so_deleted (fst (so_GetState env k o1)) = so_deleted o1"
  by (simp_all add: so_GetState_def so_GetCommittedState_def so_setError_def Let_def
      split: option.split sum.split)

lemma account_so_SetCode:
  assumes "sdb_stateObjects s a = Some o1" and "\<not> so_deleted o1"
  shows "account env (so_SetCode env a o1 h c s) = (account env s)(a := (so_data o1)\<lparr>CodeHash := h\<rparr>)"
proof -
  obtain o2 prev where o2: "so_Code env o1 = (o2, prev)" by (cases "so_Code env o1")
  then have "so_data o2 = so_data o1" "\<not> so_deleted o2" using so_Code_keeps [of env o1] assms(2) by auto
  then show ?thesis using assms o2
    by (simp add: so_SetCode_def so_setCode_def account_mod_object)
qed

lemma account_SetCode:
  "account env (sdb_SetCode env a c s) =
     (account env s)(a := (account env s a)\<lparr>CodeHash := env_keccak env c\<rparr>)"
  unfolding sdb_SetCode_def
  by (rule account_on_object [where g = "\<lambda>d. d\<lparr>CodeHash := env_keccak env c\<rparr>"])
    (rule account_so_SetCode)

lemma account_so_SetState:
  assumes "sdb_stateObjects s a = Some o1" and "\<not> so_deleted o1"
  shows "account env (so_SetState env a o1 k v s) = (account env s)(a := so_data o1)"
proof (cases "so_fakeStorage o1")
  case None
  obtain o2 prev where o2: "so_GetState env k o1 = (o2, prev)" by (cases "so_GetState env k o1")
  then have "so_data o2 = so_data o1" "\<not> so_deleted o2"
    using so_GetState_keeps [of env k o1] assms(2) by auto
  then show ?thesis using assms o2 None
    by (simp add: so_SetState_def so_setState_def account_mod_object Let_def)
next
  case (Some f)
  then show ?thesis using assms by (simp add: so_SetState_def account_mod_object)
qed

lemma account_SetState [simp]: "account env (sdb_SetState env a k v s) = account env s"
proof -
  have "account env (sdb_SetState env a k v s) = (account env s)(a := account env s a)"
    unfolding sdb_SetState_def
    by (rule account_on_object [where g = "\<lambda>d. d"]) (rule account_so_SetState)
  then show ?thesis by simp
qed

lemma account_CreateAccount:
  "account env (CreateAccount env a s) =
     (account env s)(a := (so_data (newObject env a zero_account))\<lparr>Balance := Balance (account env s a)\<rparr>)"
proof -
  have n: "account env (fst (createObject env a s)) =
      (account env s)(a := so_data (newObject env a zero_account))"
    by (auto simp: createObject_alt account_def fun_eq_iff live_object_lookup lookup_setStateObject
        getDeleted_lookup newObject_def Let_def split: option.splits)
  have c: "sdb_stateObjects (fst (createObject env a s)) a = Some (newObject env a zero_account)"
    by (rule createObject_cached)
  have d: "\<not> so_deleted (newObject env a zero_account)" by (simp add: newObject_def Let_def)
  have p: "snd (createObject env a s) = live_object env a s"
    by (simp add: createObject_alt live_object_lookup split: option.split)
  show ?thesis
  proof (cases "live_object env a s")
    case None
    then have "CreateAccount env a s = fst (createObject env a s)"
      using p by (cases "createObject env a s") (simp add: CreateAccount_def)
    moreover have "Balance (account env s a) = 0" using None by (simp add: account_def)
    moreover have "(so_data (newObject env a zero_account))\<lparr>Balance := 0\<rparr> = so_data (newObject env a zero_account)"
      by (simp add: newObject_def zero_account_def Let_def)
    ultimately show ?thesis using n by metis
  next
    case (Some o1)
    then have "CreateAccount env a s = mod_data a (\<lambda>d. d\<lparr>Balance := Balance (so_data o1)\<rparr>)
        (fst (createObject env a s))"
      using p by (cases "createObject env a s") (simp add: CreateAccount_def)
    then show ?thesis using account_mod_data [OF c d] n Some by (simp add: account_def)
  qed
qed

lemma account_Suicide:
  "account env (fst (sdb_Suicide env a s)) =
     (if sdb_Exist env a s then (account env s)(a := (account env s a)\<lparr>Balance := 0\<rparr>) else account env s)"
proof (cases "live_object env a s")
  case None
  then have "fst (sdb_Suicide env a s) = fst (getDeletedStateObject env a s)"
    by (simp add: sdb_Suicide_def getStateObject_alt live_object_lookup)
  then show ?thesis using None
    by (simp add: sdb_Exist_def account_def fun_eq_iff live_object_lookup getDeleted_lookup)
next
  case (Some o1)
  then have l: "lookup_object env s a = Some o1" "\<not> so_deleted o1"
    by (auto simp: live_object_lookup split: option.splits if_splits)
  let ?s = "fst (getDeletedStateObject env a s)"
  have o1: "sdb_stateObjects ?s a = Some o1" using l(1) by (simp add: getDeleted_cached)
  have "account env ?s = account env s"
    by (simp add: account_def fun_eq_iff live_object_lookup getDeleted_lookup)
  then show ?thesis
    using Some l o1
    by (simp add: sdb_Suicide_def getStateObject_alt sdb_Exist_def account_mod_object)
      (simp add: account_def)
qed

section \<open>The contract of a ledger\<close>

locale ledger =
  fixes bal :: "'s \<Rightarrow> 'a \<Rightarrow> int"
    and credit :: "'a \<Rightarrow> int \<Rightarrow> 's \<Rightarrow> 's"
    and debit :: "'a \<Rightarrow> int \<Rightarrow> 's \<Rightarrow> 's"
  assumes bal_credit: "bal (credit a x s) = (bal s)(a := bal s a + x)"
    and bal_debit: "bal (debit a x s) = (bal s)(a := bal s a - x)"
begin

definition total_of :: "'a set \<Rightarrow> 's \<Rightarrow> int" where
  "total_of A s = (\<Sum>a\<in>A. bal s a)"

lemma total_credit: "finite A \<Longrightarrow> total_of A (credit a x s) = total_of A s + (if a \<in> A then x else 0)"
  by (auto simp: total_of_def bal_credit sum.remove intro: sum.cong)

lemma total_debit: "finite A \<Longrightarrow> total_of A (debit a x s) = total_of A s - (if a \<in> A then x else 0)"
  by (auto simp: total_of_def bal_debit sum.remove intro: sum.cong)

lemma total_move:
  "finite A \<Longrightarrow> a \<in> A \<Longrightarrow> b \<in> A \<Longrightarrow> total_of A (credit b x (debit a x s)) = total_of A s"
  by (simp add: total_credit total_debit)

lemma bal_move:
  "bal (credit b x (debit a x s)) c =
     (if a = b then bal s c else if c = a then bal s a - x else if c = b then bal s b + x else bal s c)"
  by (simp add: bal_credit bal_debit)

lemma solvent_move:
  assumes "\<forall>c. 0 \<le> bal s c" and "0 \<le> x" and "x \<le> bal s a"
  shows "0 \<le> bal (credit b x (debit a x s)) c"
  unfolding bal_move using assms by auto

end

interpretation ld: ledger "\<lambda>s a. GetBalance env a s" "sdb_AddBalance env" "sdb_SubBalance env" for env
  by unfold_locales (auto simp: getters_account account_AddBalance account_SubBalance fun_eq_iff)

text \<open>C36. A transfer that \<^verbatim>\<open>CanTransfer\<close> allows moves exactly the amount: the sender loses it, the
  recipient gains it (a transfer to oneself changes nothing), no other balance and no nonce or stake
  moves, the total over any set of accounts with both ends in it is kept, and no balance turns
  negative.\<close>

theorem Transfer_conserves:
  assumes "CanTransfer env a x s" and "0 \<le> x" and "\<forall>c. 0 \<le> GetBalance env c s"
    and "finite A" and "a \<in> A" and "b \<in> A"
  shows "(\<forall>c. GetBalance env c (Transfer env a b x s) =
        (if a = b then GetBalance env c s else if c = a then GetBalance env a s - x
         else if c = b then GetBalance env b s + x else GetBalance env c s) \<and>
      GetNonce env c (Transfer env a b x s) = GetNonce env c s \<and>
      GetStakeBalance env c (Transfer env a b x s) = GetStakeBalance env c s \<and>
      0 \<le> GetBalance env c (Transfer env a b x s)) \<and>
    (\<Sum>c\<in>A. GetBalance env c (Transfer env a b x s)) = (\<Sum>c\<in>A. GetBalance env c s)"
proof -
  have "\<forall>c. GetNonce env c (Transfer env a b x s) = GetNonce env c s \<and>
      GetStakeBalance env c (Transfer env a b x s) = GetStakeBalance env c s"
    by (simp add: Transfer_def getters_account account_AddBalance account_SubBalance)
  moreover have "\<forall>c. 0 \<le> GetBalance env c (Transfer env a b x s)"
    using ld.solvent_move [of env s x a _ b] assms by (simp add: Transfer_def CanTransfer_def)
  ultimately show ?thesis
    using ld.total_move [OF assms(4-6), where env = env and x = x and s = s]
      ld.bal_move [where env = env and b = b and x = x and a = a and s = s]
    by (simp add: Transfer_def ld.total_of_def)
qed

theorem Transfer_conserves_witness:
  "GetBalance witness_env [2] (Transfer witness_env [1] [2] 3
      (sdb_AddBalance witness_env [1] 5 (StateDB_New (\<lambda>_. TrieEmpty)))) = 3"
proof -
  let ?s = "sdb_AddBalance witness_env [1] 5 (StateDB_New (\<lambda>_. TrieEmpty))"
  have z: "account witness_env (StateDB_New (\<lambda>_. TrieEmpty)) c = so_data (newObject witness_env c zero_account)" for c
    by (simp add: account_def live_object_lookup New_lookup)
  have "CanTransfer witness_env [1] 3 ?s" "\<forall>c. 0 \<le> GetBalance witness_env c ?s"
    by (simp_all add: CanTransfer_def getters_account account_AddBalance z)
  from Transfer_conserves [OF this(1) _ this(2), of "{[1], [2]}" "[2]"] show ?thesis
    by (simp add: getters_account account_AddBalance z)
qed

end
