(* ===== verification/Zond_Effect.thy ===== *)
theory Zond_Effect
  imports Zond_Ledger
begin

text \<open>
  What running code may do to the world state. The virtual machine changes the state only through
  the operations below, each under the guard the machine checks. A relation that every one of them
  keeps, and that survives snapshots and reverts, holds across any call; the laws are the locale
  \<open>state_effect\<close>, and \<open>view_effect\<close> gives them for relations that only look at what callers read.
\<close>

section \<open>The laws of an effect\<close>

text \<open>The flag tells that the change was made in a read-only call.\<close>

locale state_effect =
  fixes env :: StateEnv
    and R :: "bool \<Rightarrow> StateDB \<Rightarrow> StateDB \<Rightarrow> bool"
  assumes effect_refl: "R ro s s"
    and effect_trans: "R ro s s1 \<Longrightarrow> R ro s1 s2 \<Longrightarrow> R ro s s2"
    and effect_static: "R True s s1 \<Longrightarrow> R ro s s1"
    and effect_add_address: "R ro s (AddAddressToAccessList a s)"
    and effect_add_slot: "AddSlotToAccessList a k s = Ok s1 \<Longrightarrow> R ro s s1"
    and effect_add_refund: "R ro s (sdb_AddRefund g s)"
    and effect_sub_refund: "sdb_SubRefund g s = Ok s1 \<Longrightarrow> R ro s s1"
    and effect_preimage: "R ro s (sdb_AddPreimage h d s)"
    and effect_touch: "R ro s (sdb_AddBalance env a 0 s)"
    and effect_create_missing: "\<not> sdb_Exist env a s \<Longrightarrow> R ro s (CreateAccount env a s)"
    and effect_transfer: "0 \<le> x \<Longrightarrow> x = 0 \<or> x \<le> GetBalance env a s \<Longrightarrow> ro \<longrightarrow> x = 0 \<Longrightarrow>
      R ro s (Transfer env a b x s)"
    and effect_set_state: "R False s (sdb_SetState env a k v s)"
    and effect_log: "R False s (sdb_AddLog l s)"
    and effect_nonce: "R False s (sdb_SetNonce env a n s)"
    and effect_code: "R False s (sdb_SetCode env a c s)"
    and effect_create: "GetNonce env a s = 0 \<Longrightarrow> R False s (CreateAccount env a s)"
    and effect_suicide: "R False s (fst (sdb_Suicide env a (sdb_AddBalance env b (GetBalance env a s) s)))"
    and effect_snapshot: "R ro s (snd (sdb_Snapshot s))"
    and effect_revert: "sdb_Snapshot s = (rid, s1) \<Longrightarrow> R ro s1 s2 \<Longrightarrow>
      RevertToSnapshot env rid s2 = Ok s3 \<Longrightarrow> R ro s s3"

section \<open>Runs of state operations\<close>

lemma exec_trans: "exec env s1 s2 \<Longrightarrow> exec env s s1 \<Longrightarrow> exec env s s2"
  by (induction rule: exec.induct) (auto intro: exec.intros)

lemma exec_one: "op_fresh env op s \<Longrightarrow> run_op env op s = Ok s1 \<Longrightarrow> exec env s s1"
  by (rule exec_op [OF exec_done])

lemma exec_AddAddress: "exec env s (AddAddressToAccessList a s)"
  by (rule exec_one [where op = "OpAddAddress a"]) (simp_all add: op_fresh_def)

lemma exec_AddRefund: "exec env s (sdb_AddRefund g s)"
  by (rule exec_one [where op = "OpAddRefund g"]) (simp_all add: op_fresh_def)

lemma exec_AddPreimage: "exec env s (sdb_AddPreimage h d s)"
  by (rule exec_one [where op = "OpAddPreimage h d"]) (simp_all add: op_fresh_def)

lemma exec_AddBalance: "exec env s (sdb_AddBalance env a x s)"
  by (rule exec_one [where op = "OpAddBalance a x"]) (simp_all add: op_fresh_def)

lemma exec_SubBalance: "exec env s (sdb_SubBalance env a x s)"
  by (rule exec_one [where op = "OpSubBalance a x"]) (simp_all add: op_fresh_def)

lemma exec_CreateAccount: "exec env s (CreateAccount env a s)"
  by (rule exec_one [where op = "OpCreateAccount a"]) (simp_all add: op_fresh_def)

lemma exec_SetState: "exec env s (sdb_SetState env a k v s)"
  by (rule exec_one [where op = "OpSetState a k v"]) (simp_all add: op_fresh_def)

lemma exec_AddLog: "exec env s (sdb_AddLog l s)"
  by (rule exec_one [where op = "OpAddLog l"]) (simp_all add: op_fresh_def)

lemma exec_SetNonce: "exec env s (sdb_SetNonce env a n s)"
  by (rule exec_one [where op = "OpSetNonce a n"]) (simp_all add: op_fresh_def)

lemma exec_SetCode: "exec env s (sdb_SetCode env a c s)"
  by (rule exec_one [where op = "OpSetCode a c"]) (simp_all add: op_fresh_def)

lemma exec_Suicide: "exec env s (fst (sdb_Suicide env a s))"
  by (rule exec_one [where op = "OpSuicide a"]) (simp_all add: op_fresh_def)

lemma exec_AddSlot: "AddSlotToAccessList a k s = Ok s1 \<Longrightarrow> exec env s s1"
  by (rule exec_one [where op = "OpAddSlot a k"]) (simp_all add: op_fresh_def)

lemma exec_SubRefund: "sdb_SubRefund g s = Ok s1 \<Longrightarrow> exec env s s1"
  by (rule exec_one [where op = "OpSubRefund g"]) (simp_all add: op_fresh_def)

lemmas exec_ops = exec_AddAddress exec_AddRefund exec_AddPreimage exec_AddBalance exec_SubBalance
  exec_CreateAccount exec_SetState exec_AddLog exec_SetNonce exec_SetCode exec_Suicide

lemma exec_Transfer: "exec env s (Transfer env a b x s)"
  unfolding Transfer_def by (rule exec_trans [OF exec_AddBalance exec_SubBalance])

lemma exec_Snapshot: "exec env s (snd (sdb_Snapshot s))"
  by (rule exec_snapshot [OF exec_done, where rid = "fst (sdb_Snapshot s)"]) simp

lemma exec_Revert:
  "sdb_Snapshot s = (rid, s1) \<Longrightarrow> exec env s1 s2 \<Longrightarrow> RevertToSnapshot env rid s2 = Ok s3 \<Longrightarrow> exec env s s3"
  by (rule exec_revert [OF exec_done])

lemma exec_wf: "exec env s s' \<Longrightarrow> state_wf env s \<Longrightarrow> rev_wf s \<Longrightarrow> state_wf env s' \<and> rev_wf s'"
  using exec_logged [of env s s'] by (auto simp: sj.logged_def rev_extends_def)

lemma exec_reverts:
  assumes "state_wf env s" and "rev_wf s" and "sdb_Snapshot s = (rid, s1)" and "exec env s1 s2"
  shows "\<exists>s3. RevertToSnapshot env rid s2 = Ok s3 \<and> state_view env s3 = state_view env s"
proof -
  have "state_wf env s1" "rev_wf s1"
    using Snapshot_wf [OF assms(1)] Snapshot_extends [OF assms(2)] assms(3)
    by (auto simp: rev_extends_def)
  then show ?thesis using revert_to_snapshot [OF assms(1-3)] exec_logged [OF assms(4)] by blast
qed

section \<open>Effects on what callers read\<close>

locale view_effect =
  fixes env :: StateEnv
    and P :: "bool \<Rightarrow> StateDB \<Rightarrow> StateDB \<Rightarrow> bool"
  assumes view_same: "state_view env s1 = state_view env s \<Longrightarrow> P ro s s1"
    and view_trans: "P ro s s1 \<Longrightarrow> P ro s1 s2 \<Longrightarrow> P ro s s2"
    and view_static: "P True s s1 \<Longrightarrow> P ro s s1"
    and view_add_address: "P ro s (AddAddressToAccessList a s)"
    and view_add_slot: "AddSlotToAccessList a k s = Ok s1 \<Longrightarrow> P ro s s1"
    and view_add_refund: "P ro s (sdb_AddRefund g s)"
    and view_sub_refund: "sdb_SubRefund g s = Ok s1 \<Longrightarrow> P ro s s1"
    and view_preimage: "P ro s (sdb_AddPreimage h d s)"
    and view_touch: "P ro s (sdb_AddBalance env a 0 s)"
    and view_create_missing: "\<not> sdb_Exist env a s \<Longrightarrow> P ro s (CreateAccount env a s)"
    and view_transfer: "0 \<le> x \<Longrightarrow> x = 0 \<or> x \<le> GetBalance env a s \<Longrightarrow> ro \<longrightarrow> x = 0 \<Longrightarrow>
      P ro s (Transfer env a b x s)"
    and view_set_state: "P False s (sdb_SetState env a k v s)"
    and view_log: "P False s (sdb_AddLog l s)"
    and view_nonce: "P False s (sdb_SetNonce env a n s)"
    and view_code: "P False s (sdb_SetCode env a c s)"
    and view_create: "GetNonce env a s = 0 \<Longrightarrow> P False s (CreateAccount env a s)"
    and view_suicide: "P False s (fst (sdb_Suicide env a (sdb_AddBalance env b (GetBalance env a s) s)))"
begin

definition effect :: "bool \<Rightarrow> StateDB \<Rightarrow> StateDB \<Rightarrow> bool" where
  "effect ro s s1 \<longleftrightarrow> exec env s s1 \<and> (state_wf env s \<longrightarrow> rev_wf s \<longrightarrow> P ro s s1)"

lemma effI: "exec env s s1 \<Longrightarrow> P ro s s1 \<Longrightarrow> effect ro s s1"
  by (simp add: effect_def)

lemma eff_compose: "effect ro s s1 \<Longrightarrow> effect ro s1 s2 \<Longrightarrow> effect ro s s2"
  unfolding effect_def using exec_trans exec_wf view_trans by blast

lemma eff_static: "effect True s s1 \<Longrightarrow> effect ro s s1"
  by (auto simp: effect_def view_static)

lemma eff_reverts:
  assumes "sdb_Snapshot s = (rid, s1)" and "effect ro s1 s2" and "RevertToSnapshot env rid s2 = Ok s3"
  shows "effect ro s s3"
proof -
  have e: "exec env s1 s2" using assms(2) by (simp add: effect_def)
  have "state_view env s3 = state_view env s" if "state_wf env s" "rev_wf s"
    using exec_reverts [OF that assms(1) e] assms(3) by auto
  then show ?thesis
    using exec_Revert [OF assms(1) e assms(3)] view_same by (auto simp: effect_def)
qed

end

sublocale view_effect \<subseteq> state_effect env effect
proof
  fix s a b
  show "effect False s (fst (sdb_Suicide env a (sdb_AddBalance env b (GetBalance env a s) s)))"
    using exec_trans [OF exec_Suicide exec_AddBalance] view_suicide by (rule effI)
  show "effect ro s (snd (sdb_Snapshot s))" for ro
    by (rule effI [OF exec_Snapshot view_same]) simp
qed (auto intro: effI eff_compose eff_reverts exec_ops exec_AddSlot exec_SubRefund
    exec_Transfer exec_Snapshot exec_done view_same view_add_address view_add_slot view_add_refund
    view_sub_refund view_preimage view_touch view_create_missing view_transfer view_set_state
    view_log view_nonce view_code view_create eff_static)

section \<open>No value is made\<close>

text \<open>
  The balances of finitely many accounts may move, their sum does not grow, and no balance becomes
  negative. A contract that destroys itself in its own favour burns its balance.
\<close>

definition no_mint :: "('a \<Rightarrow> int) \<Rightarrow> ('a \<Rightarrow> int) \<Rightarrow> bool" where
  "no_mint b b1 \<longleftrightarrow> (\<forall>a. 0 \<le> b a) \<longrightarrow>
     (\<forall>a. 0 \<le> b1 a) \<and> (\<exists>A. finite A \<and> (\<forall>a. a \<notin> A \<longrightarrow> b1 a = b a) \<and> sum b1 A \<le> sum b A)"

lemma no_mint_same: "no_mint b b"
  by (auto simp: no_mint_def intro: exI [of _ "{}"])

lemma no_mint_extend:
  assumes "finite A" and "finite B" and "\<forall>a. a \<notin> A \<longrightarrow> b1 a = b a" and "sum b1 A \<le> sum b A"
  shows "sum b1 (A \<union> B) \<le> sum (b :: 'a \<Rightarrow> int) (A \<union> B)"
proof -
  have "sum b1 (B - A) = sum b (B - A)" by (rule sum.cong) (use assms(3) in auto)
  moreover have "sum f (A \<union> B) = sum f A + sum f (B - A)" for f :: "'a \<Rightarrow> int"
    using sum.union_disjoint [of A "B - A" f] assms(1,2) by auto
  ultimately show ?thesis using assms(4) by simp
qed

lemma no_mint_trans:
  assumes "no_mint b b1" and "no_mint b1 b2"
  shows "no_mint b b2"
  unfolding no_mint_def
proof
  assume "\<forall>a. 0 \<le> b a"
  then obtain A where A: "finite A" "\<forall>a. a \<notin> A \<longrightarrow> b1 a = b a" "sum b1 A \<le> sum b A"
      and n1: "\<forall>a. 0 \<le> b1 a"
    using assms(1) by (auto simp: no_mint_def)
  then obtain B where B: "finite B" "\<forall>a. a \<notin> B \<longrightarrow> b2 a = b1 a" "sum b2 B \<le> sum b1 B"
      and n2: "\<forall>a. 0 \<le> b2 a"
    using assms(2) by (auto simp: no_mint_def)
  have "sum b2 (A \<union> B) \<le> sum b (A \<union> B)"
    using no_mint_extend [OF A(1) B(1) A(2,3)] no_mint_extend [OF B(1) A(1) B(2,3)]
    by (simp add: Un_commute)
  then show "(\<forall>a. 0 \<le> b2 a) \<and> (\<exists>A. finite A \<and> (\<forall>a. a \<notin> A \<longrightarrow> b2 a = b a) \<and> sum b2 A \<le> sum b A)"
    using A(1,2) B(1,2) n2 by (intro conjI exI [of _ "A \<union> B"]) auto
qed

text \<open>Changes at two accounts.\<close>

lemma no_mint_two:
  assumes "\<And>c. c \<noteq> a \<Longrightarrow> c \<noteq> b \<Longrightarrow> b1 c = bal c"
    and "\<forall>c. 0 \<le> bal c \<Longrightarrow> 0 \<le> b1 a \<and> 0 \<le> b1 b \<and> sum b1 {a, b} \<le> sum bal {a, b}"
  shows "no_mint bal b1"
  unfolding no_mint_def
proof
  assume n: "\<forall>c. 0 \<le> bal c"
  have "0 \<le> b1 c" for c using assms(1) [of c] assms(2) [OF n] n by metis
  then show "(\<forall>c. 0 \<le> b1 c) \<and> (\<exists>A. finite A \<and> (\<forall>c. c \<notin> A \<longrightarrow> b1 c = bal c) \<and> sum b1 A \<le> sum bal A)"
    using assms(1) assms(2) [OF n] by (intro conjI exI [of _ "{a, b}"]) auto
qed

definition mints_nothing :: "StateEnv \<Rightarrow> bool \<Rightarrow> StateDB \<Rightarrow> StateDB \<Rightarrow> bool" where
  "mints_nothing env ro s s1 \<longleftrightarrow> no_mint (\<lambda>a. GetBalance env a s) (\<lambda>a. GetBalance env a s1)"

lemma mints_same_balances: "(\<And>a. GetBalance env a s1 = GetBalance env a s) \<Longrightarrow> mints_nothing env ro s s1"
  by (simp add: mints_nothing_def no_mint_same)

lemma mints_same_account: "account env s1 = account env s \<Longrightarrow> mints_nothing env ro s s1"
  by (rule mints_same_balances) (simp add: getters_account)

lemma view_balance: "state_view env s1 = state_view env s \<Longrightarrow> GetBalance env a s1 = GetBalance env a s"
  using state_view_fields(6) [of env s1 s a] by (simp add: getters_live_view)

lemma mints_Transfer:
  assumes "0 \<le> x" and "x = 0 \<or> x \<le> GetBalance env a s"
  shows "mints_nothing env ro s (Transfer env a b x s)"
  unfolding mints_nothing_def
  by (rule no_mint_two [of a b])
    (use assms in \<open>auto simp: Transfer_def getters_account account_AddBalance account_SubBalance\<close>)

lemma mints_Suicide:
  "mints_nothing env ro s (fst (sdb_Suicide env a (sdb_AddBalance env b (GetBalance env a s) s)))"
proof -
  let ?x = "GetBalance env a s"
  let ?s1 = "sdb_AddBalance env b ?x s"
  have s1: "GetBalance env c ?s1 = (if c = b then GetBalance env b s + ?x else GetBalance env c s)" for c
    by (simp add: getters_account account_AddBalance)
  show ?thesis
  proof (cases "sdb_Exist env a ?s1")
    case True
    then have "GetBalance env c (fst (sdb_Suicide env a ?s1)) = (if c = a then 0 else GetBalance env c ?s1)" for c
      by (simp add: getters_account account_Suicide)
    then show ?thesis unfolding mints_nothing_def s1
      by (intro no_mint_two [of a b]) (auto split: if_splits)
  next
    case False
    then have "GetBalance env a ?s1 = 0" by (simp add: GetBalance_def sdb_Exist_def)
    then have "?x = 0" by (simp add: s1 split: if_splits)
    moreover have "account env (fst (sdb_Suicide env a ?s1)) = account env ?s1"
      using False by (simp add: account_Suicide)
    ultimately show ?thesis
      by (intro mints_same_balances) (simp add: getters_account account_AddBalance)
  qed
qed

lemma mints_ops:
  "mints_nothing env ro s (AddAddressToAccessList a s)" "mints_nothing env ro s (sdb_AddRefund g s)"
  "mints_nothing env ro s (sdb_AddPreimage h d s)" "mints_nothing env ro s (sdb_AddBalance env a 0 s)"
  "mints_nothing env ro s (CreateAccount env a s)" "mints_nothing env ro s (sdb_SetState env a k v s)"
  "mints_nothing env ro s (sdb_AddLog l s)" "mints_nothing env ro s (sdb_SetNonce env a n s)"
  "mints_nothing env ro s (sdb_SetCode env a c s)"
  by (rule mints_same_balances, simp add: getters_account account_AddBalance account_CreateAccount
      account_SetNonce account_SetCode)+

interpretation mint: view_effect env "mints_nothing env" for env
proof
  fix ro s s1 s2
  show "mints_nothing env ro s s1 \<Longrightarrow> mints_nothing env ro s1 s2 \<Longrightarrow> mints_nothing env ro s s2"
    unfolding mints_nothing_def by (rule no_mint_trans)
  show "mints_nothing env True s s1 \<Longrightarrow> mints_nothing env ro s s1" by (simp add: mints_nothing_def)
  show "state_view env s1 = state_view env s \<Longrightarrow> mints_nothing env ro s s1"
    by (rule mints_same_balances) (rule view_balance)
qed (assumption | rule mints_ops mints_Transfer mints_Suicide
    mints_same_account [OF account_AddSlot] mints_same_account [OF account_SubRefund])+

section \<open>Read-only calls\<close>

text \<open>
  A read-only change keeps every balance, stake and nonce, the logs, and everything that is read of
  an existing account: code, storage, suicide flag, used one-time indices. It may create an empty
  account and touch the access list, the refund counter and the preimages.
\<close>

definition static_view :: "StateEnv \<Rightarrow> bool \<Rightarrow> StateDB \<Rightarrow> StateDB \<Rightarrow> bool" where
  "static_view env ro s s1 \<longleftrightarrow> ro \<longrightarrow>
     (\<forall>a. GetBalance env a s1 = GetBalance env a s \<and> GetStakeBalance env a s1 = GetStakeBalance env a s \<and>
        GetPendingStakeBalance env a s1 = GetPendingStakeBalance env a s \<and>
        GetNonce env a s1 = GetNonce env a s) \<and>
     logs_at s1 = logs_at s \<and>
     (\<forall>a. sdb_Exist env a s \<longrightarrow> live_view env a s1 = live_view env a s)"

lemma static_same_lookup:
  assumes "lookup_object env s1 = lookup_object env s" and "logs_at s1 = logs_at s"
  shows "static_view env ro s s1"
proof -
  have "live_object env a s1 = live_object env a s" for a using assms(1) by (simp add: live_object_lookup)
  then show ?thesis using assms(2)
    by (simp add: static_view_def GetBalance_def GetStakeBalance_def GetPendingStakeBalance_def
        GetNonce_def live_view_def)
qed

text \<open>A missing account may come into being, with nothing in it.\<close>

lemma static_new_object:
  assumes "\<And>b. live_object env b s1 =
      (if b = a \<and> live_object env a s = None then Some (newObject env a zero_account) else live_object env b s)"
    and "logs_at s1 = logs_at s"
  shows "static_view env ro s s1"
proof -
  have "account env s1 = account env s" by (simp add: account_def fun_eq_iff assms(1))
  then show ?thesis using assms
    by (simp add: static_view_def getters_account live_view_def sdb_Exist_def)
qed

lemma static_trans:
  assumes "static_view env ro s s1" and "static_view env ro s1 s2"
  shows "static_view env ro s s2"
proof -
  have "sdb_Exist env a s1" if "ro" "sdb_Exist env a s" for a
    using assms(1) that by (auto simp: static_view_def getters_live_view)
  then show ?thesis using assms by (auto simp: static_view_def)
qed

lemma static_view_eq: "state_view env s1 = state_view env s \<Longrightarrow> static_view env ro s s1"
  using state_view_fields(6) [of env s1 s]
  by (auto simp: static_view_def getters_live_view state_view_def)

lemma logs_at_effects [simp]:
  "logs_at (journal_append j s) = logs_at s" "logs_at (mod_object a f s) = logs_at s"
  "logs_at (setStateObject o1 s) = logs_at s" "logs_at (fst (getDeletedStateObject env a s)) = logs_at s"
  "logs_at (so_touch a s) = logs_at s"
  by (rule logs_at_cong, simp add: getDeletedStateObject_def so_touch_def journal_dirty_def
      sdb_setError_def Let_def split: option.splits trie_read.splits)+

lemma logs_at_GetOrNew [simp]: "logs_at (GetOrNewStateObject env a s) = logs_at s"
  by (simp add: GetOrNewStateObject_def getStateObject_alt createObject_alt split: option.split)

lemma lookup_touch [simp]: "lookup_object env (so_touch a s) = lookup_object env s"
  by (rule lookup_fields) (simp_all add: so_touch_def journal_dirty_def Let_def)

lemma AddBalance_zero:
  "sdb_AddBalance env a 0 s = GetOrNewStateObject env a s \<or>
   sdb_AddBalance env a 0 s = so_touch a (GetOrNewStateObject env a s)"
  by (auto simp: sdb_AddBalance_def on_object_def so_AddBalance_def Let_def split: option.splits)

lemma SubBalance_zero: "sdb_SubBalance env a 0 s = GetOrNewStateObject env a s"
  by (simp add: sdb_SubBalance_def on_object_def so_SubBalance_def Let_def split: option.splits)

lemma static_touch: "static_view env ro s (sdb_AddBalance env a 0 s)"
  using AddBalance_zero [of env a s]
  by (intro static_new_object [of env _ a]) (auto simp: live_object_lookup [of _ _ "so_touch _ _"]
      live_object_lookup [symmetric] live_GetOrNew)

lemma static_Transfer: "static_view env ro s (Transfer env a b 0 s)"
  unfolding Transfer_def SubBalance_zero
  by (rule static_trans [OF static_new_object [of env _ a] static_touch]) (simp_all add: live_GetOrNew)

lemma static_create:
  assumes "\<not> sdb_Exist env a s"
  shows "static_view env ro s (CreateAccount env a s)"
proof -
  have n: "live_object env a s = None" using assms by (simp add: sdb_Exist_def)
  then have "CreateAccount env a s = fst (createObject env a s)"
    by (cases "createObject env a s") (simp add: CreateAccount_def createObject_alt live_object_lookup split: option.splits if_splits)
  then show ?thesis using n
    by (intro static_new_object [of env _ a])
      (auto simp: createObject_alt live_object_lookup lookup_setStateObject getDeleted_lookup newObject_def Let_def)
qed

lemma static_neutral:
  "static_view env ro s (AddAddressToAccessList a s)" "static_view env ro s (sdb_AddRefund g s)"
  "static_view env ro s (sdb_AddPreimage h d s)"
  "AddSlotToAccessList a k s = Ok s1 \<Longrightarrow> static_view env ro s s1"
  "sdb_SubRefund g s = Ok s1 \<Longrightarrow> static_view env ro s s1"
  by (rule static_same_lookup; (rule lookup_fields | rule logs_at_cong);
      auto simp: AddAddressToAccessList_def sdb_AddRefund_def sdb_AddPreimage_def AddSlotToAccessList_def
        sdb_SubRefund_def Let_def outcome_simps split: prod.splits bool.splits if_splits)+

lemma static_writes: "static_view env False s s1"
  by (simp add: static_view_def)

interpretation static: view_effect env "static_view env" for env
proof
  fix ro s a b and x :: int
  assume "0 \<le> x" "ro \<longrightarrow> x = 0"
  then show "static_view env ro s (Transfer env a b x s)"
    using static_Transfer [of env ro s a b] static_writes [of env s] by (cases ro) auto
next
  fix ro s s1
  show "static_view env True s s1 \<Longrightarrow> static_view env ro s s1" by (simp add: static_view_def)
qed (rule static_neutral(1-3) static_touch static_writes
    | erule static_neutral(4,5) static_create static_view_eq | erule (1) static_trans)+

end
