(* ===== verification/Zond_VM.thy ===== *)
theory Zond_VM
  imports Zond_Common
begin

text \<open>
  The data the virtual machine works on (\<^verbatim>\<open>core/vm\<close>): its errors, the operand stack
  (\<^verbatim>\<open>stack.go\<close>), the memory (\<^verbatim>\<open>memory.go\<close>), the jump destination analysis (\<^verbatim>\<open>analysis.go\<close>) and
  the size computations (\<^verbatim>\<open>common.go\<close>, \<^verbatim>\<open>common/math/integer.go\<close>).
\<close>

unbundle bit_operations_syntax

section \<open>Errors\<close>

datatype VMError =
    ErrOutOfGas | ErrCodeStoreOutOfGas | ErrDepth | ErrInsufficientBalance
  | ErrContractAddressCollision | ErrExecutionReverted | ErrMaxCodeSizeExceeded | ErrInvalidJump
  | ErrWriteProtection | ErrReturnDataOutOfBounds | ErrGasUintOverflow | ErrInvalidCode
  | ErrNonceUintOverflow | errStopToken
  | ErrStackUnderflow nat nat
  | ErrStackOverflow nat nat
  | ErrInvalidOpCode u8
  | ErrText string

section \<open>256-bit values\<close>

text \<open>
  \<^verbatim>\<open>uint256.Int\<close>: \<open>Bytes20\<close> and \<open>Bytes32\<close> are the low bytes, most significant first, and
  \<open>SetBytes\<close> reads such bytes back; \<open>IsUint64\<close> tells whether \<open>Uint64\<close> keeps the value.
\<close>

type_synonym u256 = "256 word"

definition u256_Uint64 :: "u256 \<Rightarrow> u64" where
  "u256_Uint64 x = ucast x"

definition u256_IsUint64 :: "u256 \<Rightarrow> bool" where
  "u256_IsUint64 x \<longleftrightarrow> unat x < 2 ^ 64"

definition u256_Bytes20 :: "u256 \<Rightarrow> bytes" where
  "u256_Bytes20 x = be_nat 20 (unat x)"

definition u256_Bytes32 :: "u256 \<Rightarrow> bytes" where
  "u256_Bytes32 x = be_nat 32 (unat x)"

definition u256_SetBytes :: "bytes \<Rightarrow> u256" where
  "u256_SetBytes b = of_nat (nat_of_be b)"

fun bit_length :: "nat \<Rightarrow> nat" where
  "bit_length n = (if n = 0 then 0 else Suc (bit_length (n div 2)))"

declare bit_length.simps [simp del]

section \<open>Checked arithmetic\<close>

text \<open>The result and whether it overflowed.\<close>

definition SafeSub :: "u64 \<Rightarrow> u64 \<Rightarrow> u64 \<times> bool" where
  "SafeSub x y = (x - y, x < y)"

definition SafeAdd :: "u64 \<Rightarrow> u64 \<Rightarrow> u64 \<times> bool" where
  "SafeAdd x y = (x + y, unat x + unat y \<ge> 2 ^ 64)"

definition SafeMul :: "u64 \<Rightarrow> u64 \<Rightarrow> u64 \<times> bool" where
  "SafeMul x y = (x * y, unat x * unat y \<ge> 2 ^ 64)"

definition calcMemSize64WithUint :: "u256 \<Rightarrow> u64 \<Rightarrow> u64 \<times> bool" where
  "calcMemSize64WithUint off length64 =
     (if length64 = 0 then (0, False)
      else if \<not> u256_IsUint64 off then (0, True)
      else let val = u256_Uint64 off + length64 in (val, val < u256_Uint64 off))"

definition calcMemSize64 :: "u256 \<Rightarrow> u256 \<Rightarrow> u64 \<times> bool" where
  "calcMemSize64 off l =
     (if \<not> u256_IsUint64 l then (0, True) else calcMemSize64WithUint off (u256_Uint64 l))"

definition toWordSize :: "u64 \<Rightarrow> u64" where
  "toWordSize size1 =
     (if size1 > 0xFFFFFFFFFFFFFFFF - 31 then 0xFFFFFFFFFFFFFFFF div 32 + 1
      else (size1 + 31) div 32)"

definition allZero :: "bytes \<Rightarrow> bool" where
  "allZero b \<longleftrightarrow> list_all (\<lambda>x. x = 0) b"

text \<open>
  \<open>start + size\<close> wraps around; when it wraps below \<open>start\<close> the slice expression panics. The size is
  passed on as an \<^verbatim>\<open>int\<close>, and a negative one pads nothing.
\<close>

definition getData :: "bytes \<Rightarrow> u64 \<Rightarrow> u64 \<Rightarrow> (goerr, bytes) outcome" where
  "getData data start size1 =
     (let l = of_nat (length data);
          s = (if start > l then l else start);
          e0 = s + size1;
          e = (if e0 > l then l else e0)
      in if s > e then Panic
         else Ok (RightPadBytes (take (unat e - unat s) (drop (unat s) data)) (nat (sint size1))))"

section \<open>The stack\<close>

text \<open>
  The stack is the slice \<^verbatim>\<open>data\<close> with its end, the top of the stack, at the front of the list. Each
  operation panics where the index expression of the source is out of range.
\<close>

type_synonym Stack = "u256 list"

definition st_push :: "u256 \<Rightarrow> Stack \<Rightarrow> Stack" where
  "st_push d st = d # st"

definition st_pop :: "Stack \<Rightarrow> (goerr, u256 \<times> Stack) outcome" where
  "st_pop st = (case st of [] \<Rightarrow> Panic | x # rest \<Rightarrow> Ok (x, rest))"

definition st_peek :: "Stack \<Rightarrow> (goerr, u256) outcome" where
  "st_peek st = index st 0"

definition st_Back :: "nat \<Rightarrow> Stack \<Rightarrow> (goerr, u256) outcome" where
  "st_Back n st = index st n"

definition st_swap :: "nat \<Rightarrow> Stack \<Rightarrow> (goerr, Stack) outcome" where
  "st_swap n st =
     (if 0 < n \<and> n \<le> length st then Ok (st[n - 1 := st ! 0, 0 := st ! (n - 1)]) else Panic)"

definition st_dup :: "nat \<Rightarrow> Stack \<Rightarrow> (goerr, Stack) outcome" where
  "st_dup n st = (if 0 < n \<and> n \<le> length st then Ok (st_push (st ! (n - 1)) st) else Panic)"

section \<open>Memory\<close>

record Memory =
  m_store :: bytes
  m_lastGasCost :: u64

definition NewMemory :: Memory where
  "NewMemory = \<lparr>m_store = [], m_lastGasCost = 0\<rparr>"

definition overwrite :: "nat \<Rightarrow> bytes \<Rightarrow> bytes \<Rightarrow> bytes" where
  "overwrite off v store = take off store @ v @ drop (off + length v) store"

text \<open>
  \<^verbatim>\<open>copy\<close> copies at most \<open>size\<close> bytes; the bytes of the range that \<open>value\<close> does not reach stay.
\<close>

definition mem_Set :: "u64 \<Rightarrow> u64 \<Rightarrow> bytes \<Rightarrow> Memory \<Rightarrow> (goerr, Memory) outcome" where
  "mem_Set offset size1 val m =
     (if size1 > 0
      then if offset + size1 > of_nat (length (m_store m)) then Panic
        else if offset > offset + size1 then Panic
        else Ok (m\<lparr>m_store := overwrite (unat offset) (take (unat size1) val) (m_store m)\<rparr>)
      else Ok m)"

definition mem_Set32 :: "u64 \<Rightarrow> u256 \<Rightarrow> Memory \<Rightarrow> (goerr, Memory) outcome" where
  "mem_Set32 offset val m =
     (if offset + 32 > of_nat (length (m_store m)) then Panic
      else if offset > offset + 32 then Panic
      else Ok (m\<lparr>m_store := overwrite (unat offset) (u256_Bytes32 val) (m_store m)\<rparr>))"

definition mem_set_byte :: "u64 \<Rightarrow> u8 \<Rightarrow> Memory \<Rightarrow> (goerr, Memory) outcome" where
  "mem_set_byte offset b m =
     (if unat offset < length (m_store m)
      then Ok (m\<lparr>m_store := (m_store m)[unat offset := b]\<rparr>) else Panic)"

definition mem_Resize :: "u64 \<Rightarrow> Memory \<Rightarrow> Memory" where
  "mem_Resize size1 m =
     (if of_nat (length (m_store m)) < size1
      then m\<lparr>m_store := m_store m @ replicate (unat (size1 - of_nat (length (m_store m)))) 0\<rparr>
      else m)"

text \<open>
  The offset and the size are \<^verbatim>\<open>int64\<close>, converted from \<^verbatim>\<open>uint64\<close>. A slice end beyond the length is
  a panic here; the source would first read up to the capacity of the slice.
\<close>

definition mem_GetPtr :: "u64 \<Rightarrow> u64 \<Rightarrow> Memory \<Rightarrow> (goerr, bytes) outcome" where
  "mem_GetPtr offset size1 m =
     (if size1 = 0 then Ok []
      else if int (length (m_store m)) > sint offset
        then if sint offset < 0 \<or> sint (offset + size1) < sint offset
              \<or> int (length (m_store m)) < sint (offset + size1) then Panic
          else Ok (take (unat size1) (drop (unat offset) (m_store m)))
      else Ok [])"

definition mem_GetCopy :: "u64 \<Rightarrow> u64 \<Rightarrow> Memory \<Rightarrow> (goerr, bytes) outcome" where
  "mem_GetCopy offset size1 m = mem_GetPtr offset size1 m"

section \<open>Jump destination analysis\<close>

text \<open>
  One bit per byte of code, set for the bytes that are data of a \<^verbatim>\<open>PUSH\<close>. The writes below set bits
  from \<open>pos\<close> on; a byte of the vector that starts inside the new run is overwritten.
\<close>

type_synonym bitvec = bytes

definition bv_update :: "nat \<Rightarrow> (u8 \<Rightarrow> u8) \<Rightarrow> bitvec \<Rightarrow> (goerr, bitvec) outcome" where
  "bv_update i f bits = (if i < length bits then Ok (bits[i := f (bits ! i)]) else Panic)"

definition set1 :: "nat \<Rightarrow> bitvec \<Rightarrow> (goerr, bitvec) outcome" where
  "set1 pos bits = bv_update (pos div 8) (\<lambda>x. x OR push_bit (pos mod 8) 1) bits"

definition setN :: "u16 \<Rightarrow> nat \<Rightarrow> bitvec \<Rightarrow> (goerr, bitvec) outcome" where
  "setN flag pos bits =
     (let a = push_bit (pos mod 8) flag; b = ucast (drop_bit 8 a) :: u8 in
      and_then (bv_update (pos div 8) (\<lambda>x. x OR ucast a) bits) (\<lambda>bits1.
        if b \<noteq> 0 then bv_update (pos div 8 + 1) (\<lambda>_. b) bits1 else Ok bits1))"

definition set8 :: "nat \<Rightarrow> bitvec \<Rightarrow> (goerr, bitvec) outcome" where
  "set8 pos bits =
     (let a = push_bit (pos mod 8) 0xFF in
      and_then (bv_update (pos div 8) (\<lambda>x. x OR a) bits)
        (bv_update (pos div 8 + 1) (\<lambda>_. NOT a)))"

definition set16 :: "nat \<Rightarrow> bitvec \<Rightarrow> (goerr, bitvec) outcome" where
  "set16 pos bits =
     (let a = push_bit (pos mod 8) 0xFF in
      and_then (bv_update (pos div 8) (\<lambda>x. x OR a) bits) (\<lambda>bits1.
        and_then (bv_update (pos div 8 + 1) (\<lambda>_. 0xFF) bits1)
          (bv_update (pos div 8 + 2) (\<lambda>_. NOT a))))"

definition codeSegment :: "bitvec \<Rightarrow> nat \<Rightarrow> (goerr, bool) outcome" where
  "codeSegment bits pos =
     and_then (index bits (pos div 8)) (\<lambda>b. Ok (drop_bit (pos mod 8) b AND 1 = 0))"

text \<open>The two inner loops and the switch on what is left of \<open>numbits\<close>.\<close>

fun set_numbits :: "nat \<Rightarrow> nat \<Rightarrow> bitvec \<Rightarrow> (goerr, bitvec) outcome" where
  "set_numbits n pc bits =
     (if n \<ge> 16 then and_then (set16 pc bits) (set_numbits (n - 16) (pc + 16))
      else if n \<ge> 8 then and_then (set8 pc bits) (set_numbits (n - 8) (pc + 8))
      else if n = 0 then Ok bits
      else if n = 1 then set1 pc bits
      else setN (mask n) pc bits)"

declare set_numbits.simps [simp del]

text \<open>\<open>PUSH1\<close> is 0x60 and \<open>PUSH32\<close> 0x7F; the data of a push is the bytes after it.\<close>

definition push_size :: "u8 \<Rightarrow> nat" where
  "push_size op = (if op < 0x60 \<or> op > 0x7F then 0 else unat (op - 0x60) + 1)"

function codeBitmapInternal :: "bytes \<Rightarrow> nat \<Rightarrow> bitvec \<Rightarrow> (goerr, bitvec) outcome" where
  "codeBitmapInternal code pc bits =
     (if pc < length code
      then and_then (set_numbits (push_size (code ! pc)) (pc + 1) bits)
        (codeBitmapInternal code (pc + 1 + push_size (code ! pc)))
      else Ok bits)"
  by pat_completeness auto
termination by (relation "measure (\<lambda>(code, pc, bits). length code - pc)") auto

declare codeBitmapInternal.simps [simp del]

definition codeBitmap :: "bytes \<Rightarrow> (goerr, bitvec) outcome" where
  "codeBitmap code = codeBitmapInternal code 0 (replicate (length code div 8 + 1 + 4) 0)"

text \<open>What the bits stand for: scanning the code from an instruction on, the data bytes of pushes.\<close>

function push_data :: "bytes \<Rightarrow> nat \<Rightarrow> nat \<Rightarrow> bool" where
  "push_data code pc pos =
     (if pc < length code
      then pc < pos \<and> pos \<le> pc + push_size (code ! pc)
        \<or> push_data code (pc + 1 + push_size (code ! pc)) pos
      else False)"
  by pat_completeness auto
termination by (relation "measure (\<lambda>(code, pc, pos). length code - pc)") auto

declare push_data.simps [simp del]

definition bv_get :: "bitvec \<Rightarrow> nat \<Rightarrow> bool" where
  "bv_get bits pos \<longleftrightarrow> bit (bits ! (pos div 8)) (pos mod 8)"

lemma codeSegment_get:
  "pos div 8 < length bits \<Longrightarrow> codeSegment bits pos = Ok (\<not> bv_get bits pos)"
  by (simp add: codeSegment_def index_def bv_get_def and_one_eq bit_iff_odd_drop_bit odd_iff_mod_2_eq_one)

text \<open>A write of \<open>n\<close> bits at \<open>pc\<close> over a vector that is clear from there on.\<close>

definition writes :: "nat \<Rightarrow> nat \<Rightarrow> bitvec \<Rightarrow> (goerr, bitvec) outcome \<Rightarrow> bool" where
  "writes n pc bits res \<longleftrightarrow>
     (\<exists>bits'. res = Ok bits' \<and> length bits' = length bits \<and>
       (\<forall>p. p div 8 < length bits \<longrightarrow> bv_get bits' p = (bv_get bits p \<or> pc \<le> p \<and> p < pc + n)))"

definition clear_from :: "nat \<Rightarrow> bitvec \<Rightarrow> bool" where
  "clear_from pc bits \<longleftrightarrow> (\<forall>p\<ge>pc. p div 8 < length bits \<longrightarrow> \<not> bv_get bits p)"

lemma bv_update_get:
  "i < length bits \<Longrightarrow>
    bv_get (bits[i := x]) p = (if p div 8 = i then bit x (p mod 8) else bv_get bits p)"
  by (simp add: bv_get_def)

lemma bit_FF: "bit (0xFF :: u8) k \<longleftrightarrow> k < 8"
proof -
  have "(0xFF :: u8) = mask 8" by (simp add: mask_eq_exp_minus_1)
  then show ?thesis by (simp only: bit_mask_iff) auto
qed

lemma bit_high: "bit (push_bit m (0xFF :: u8)) k \<longleftrightarrow> m \<le> k \<and> k < 8"
  unfolding bit_push_bit_iff bit_FF by auto

lemma bit_low: "k < 8 \<Longrightarrow> bit (NOT (push_bit m (0xFF :: u8))) k \<longleftrightarrow> k < m"
  by (auto simp: bit_not_iff bit_high)

lemma bit_flag:
  "k < 8 \<Longrightarrow> bit (ucast (push_bit m (mask n :: u16)) :: u8) k \<longleftrightarrow> m \<le> k \<and> k < m + n"
  by (auto simp: bit_ucast_iff bit_push_bit_iff bit_mask_iff)

lemma bit_flag_high:
  "k < 8 \<Longrightarrow> m + n \<le> 16 \<Longrightarrow>
    bit (ucast (drop_bit 8 (push_bit m (mask n :: u16))) :: u8) k \<longleftrightarrow> m \<le> k + 8 \<and> k + 8 < m + n"
  by (auto simp: bit_ucast_iff bit_drop_bit_eq bit_push_bit_iff bit_mask_iff)

lemma byte_zero: "(x :: u8) = 0 \<longleftrightarrow> (\<forall>k<8. \<not> bit x k)"
  by (auto simp: bit_eq_iff dest: bit_imp_le_length)

text \<open>Positions as byte and bit.\<close>

lemma position: "m < 8 \<Longrightarrow> (8 * j + m) div 8 = j" "m < 8 \<Longrightarrow> (8 * j + m) mod 8 = (m :: nat)"
  by simp_all

lemma writesI:
  assumes "res = Ok bits'" and "length bits' = length bits"
    and "\<And>i k. i < length bits \<Longrightarrow> k < 8 \<Longrightarrow>
      bit (bits' ! i) k = (bit (bits ! i) k \<or> pc \<le> 8 * i + k \<and> 8 * i + k < pc + n)"
  shows "writes n pc bits res"
  unfolding writes_def
proof (intro exI conjI allI impI)
  fix p
  assume "p div 8 < length bits"
  from assms(3) [OF this, of "p mod 8"] show
    "bv_get bits' p = (bv_get bits p \<or> pc \<le> p \<and> p < pc + n)" by (simp add: bv_get_def)
qed (use assms in auto)

lemma clear_bit:
  assumes "clear_from pc bits" and "i < length bits" and "pc \<le> 8 * i + k" and "k < 8"
  shows "\<not> bit (bits ! i) k"
  using assms by (auto simp: clear_from_def bv_get_def dest: spec [of _ "8 * i + k"])

lemma writes_set1:
  assumes "j < length bits" and "m < 8"
  shows "writes 1 (8 * j + m) bits (set1 (8 * j + m) bits)"
proof (rule writesI)
  let ?b = "bits[j := bits ! j OR push_bit m 1]"
  show "set1 (8 * j + m) bits = Ok ?b"
    unfolding set1_def position [OF assms(2)] using assms(1) by (simp add: bv_update_def)
  fix i k
  assume "i < length bits" "k < (8 :: nat)"
  then show "bit (?b ! i) k = (bit (bits ! i) k \<or> 8 * j + m \<le> 8 * i + k \<and> 8 * i + k < 8 * j + m + 1)"
    using assms(2) by (cases "i = j") (auto simp: bit_or_iff bit_simps)
qed simp

lemma writes_setN:
  assumes "(8 * j + m + n) div 8 < length bits" and "clear_from (8 * j + m) bits" and "n \<le> 8"
    and m: "m < 8"
  shows "writes n (8 * j + m) bits (setN (mask n) (8 * j + m) bits)"
proof (rule writesI)
  let ?a = "push_bit m (mask n :: u16)"
  let ?b = "ucast (drop_bit 8 ?a) :: u8"
  let ?b1 = "bits[j := bits ! j OR ucast ?a]"
  let ?b2 = "if ?b \<noteq> 0 then ?b1[j + 1 := ?b] else ?b1"
  have high: "bit ?b k \<longleftrightarrow> m \<le> k + 8 \<and> k + 8 < m + n" if "k < 8" for k
    using that assms(3) m by (intro bit_flag_high) auto
  have j: "j < length bits" using assms(1) by linarith
  have "j + 1 < length bits" if "?b \<noteq> 0"
  proof -
    have "8 < m + n" using that high byte_zero [of ?b] by force
    then have "j + 1 \<le> (8 * j + m + n) div 8" by linarith
    then show ?thesis using assms(1) by linarith
  qed
  then show "setN (mask n) (8 * j + m) bits = Ok ?b2"
    unfolding setN_def position [OF m] using j by (simp add: bv_update_def Let_def)
  fix i k
  assume i: "i < length bits" and k: "k < (8 :: nat)"
  consider "i = j" | "i = j + 1" | "i \<noteq> j" "i \<noteq> j + 1" by blast
  then show "bit (?b2 ! i) k =
      (bit (bits ! i) k \<or> 8 * j + m \<le> 8 * i + k \<and> 8 * i + k < 8 * j + m + n)"
  proof cases
    case 1
    then show ?thesis using i k by (auto simp: bit_or_iff bit_flag)
  next
    case 2
    then have "\<not> bit (bits ! i) k" using clear_bit [OF assms(2) i _ k] m by simp
    then show ?thesis using i k 2 high [OF k] byte_zero [of ?b] by auto
  next
    case 3
    then show ?thesis using i k assms(3) m by auto
  qed
qed simp

lemma writes_set8:
  assumes "j + 1 < length bits" and "clear_from (8 * j + m) bits" and m: "m < 8"
  shows "writes 8 (8 * j + m) bits (set8 (8 * j + m) bits)"
proof (rule writesI)
  let ?a = "push_bit m (0xFF :: u8)"
  let ?b = "bits[j := bits ! j OR ?a, j + 1 := NOT ?a]"
  show "set8 (8 * j + m) bits = Ok ?b"
    unfolding set8_def position [OF m] using assms(1) by (simp add: bv_update_def Let_def)
  fix i k
  assume i: "i < length bits" and k: "k < (8 :: nat)"
  consider "i = j" | "i = j + 1" | "i \<noteq> j" "i \<noteq> j + 1" by blast
  then show "bit (?b ! i) k = (bit (bits ! i) k \<or> 8 * j + m \<le> 8 * i + k \<and> 8 * i + k < 8 * j + m + 8)"
  proof cases
    case 1
    then show ?thesis using i k by (auto simp: bit_or_iff bit_high)
  next
    case 2
    then have "\<not> bit (bits ! i) k" using clear_bit [OF assms(2) i _ k] m by simp
    then show ?thesis using i 2 bit_low [OF k, of m] m by auto
  next
    case 3
    then show ?thesis using i k m by auto
  qed
qed simp

lemma writes_set16:
  assumes "j + 2 < length bits" and "clear_from (8 * j + m) bits" and m: "m < 8"
  shows "writes 16 (8 * j + m) bits (set16 (8 * j + m) bits)"
proof (rule writesI)
  let ?a = "push_bit m (0xFF :: u8)"
  let ?b = "bits[j := bits ! j OR ?a, j + 1 := 0xFF, j + 2 := NOT ?a]"
  show "set16 (8 * j + m) bits = Ok ?b"
    unfolding set16_def position [OF m] using assms(1) by (simp add: bv_update_def Let_def)
  fix i k
  assume i: "i < length bits" and k: "k < (8 :: nat)"
  consider "i = j" | "i = j + 1" | "i = j + 2" | "i \<noteq> j" "i \<noteq> j + 1" "i \<noteq> j + 2" by blast
  then show "bit (?b ! i) k = (bit (bits ! i) k \<or> 8 * j + m \<le> 8 * i + k \<and> 8 * i + k < 8 * j + m + 16)"
  proof cases
    case 1
    then show ?thesis using i k by (auto simp: bit_or_iff bit_high)
  next
    case 2
    then show ?thesis using i k m bit_FF [of k] by auto
  next
    case 3
    then have "\<not> bit (bits ! i) k" using clear_bit [OF assms(2) i _ k] m by simp
    then show ?thesis using i 3 bit_low [OF k, of m] m by auto
  next
    case 4
    then show ?thesis using i k m by auto
  qed
qed simp

text \<open>Any number of bits: chunks of sixteen, chunks of eight, and the rest.\<close>

lemma writes_append:
  assumes "writes a pc bits res" and "clear_from pc bits" and
    "\<And>bits'. length bits' = length bits \<Longrightarrow> clear_from (pc + a) bits' \<Longrightarrow> writes b (pc + a) bits' (f bits')"
  shows "writes (a + b) pc bits (and_then res f)"
proof -
  obtain b1 where b1: "res = Ok b1" "length b1 = length bits"
    "\<And>p. p div 8 < length bits \<Longrightarrow> bv_get b1 p = (bv_get bits p \<or> pc \<le> p \<and> p < pc + a)"
    using assms(1) by (auto simp: writes_def)
  have "clear_from (pc + a) b1" using assms(2) b1(2,3) by (auto simp: clear_from_def)
  from assms(3) [OF b1(2) this] obtain b2 where b2: "f b1 = Ok b2" "length b2 = length b1"
    "\<And>p. p div 8 < length b1 \<Longrightarrow> bv_get b2 p = (bv_get b1 p \<or> pc + a \<le> p \<and> p < pc + a + b)"
    by (auto simp: writes_def)
  show ?thesis unfolding writes_def
    by (rule exI [of _ b2]) (use b1 b2 in auto)
qed

lemma writes_numbits:
  "clear_from pc bits \<Longrightarrow> (pc + n) div 8 < length bits \<Longrightarrow> writes n pc bits (set_numbits n pc bits)"
proof (induction n arbitrary: pc bits rule: less_induct)
  case (less n)
  let ?j = "pc div 8" and ?m = "pc mod 8"
  have pc: "8 * ?j + ?m = pc" and m: "?m < 8" by simp_all
  have j: "?j < length bits" using less.prems(2) div_le_mono [of pc "pc + n" 8] by linarith
  have c: "clear_from (8 * ?j + ?m) bits" using less.prems(1) by simp
  consider "n \<ge> 16" | "n \<ge> 8" "n < 16" | "n = 0" | "n = 1" | "1 < n" "n < 8" by linarith
  then show ?case
  proof cases
    case 1
    then have "?j + 2 \<le> (pc + n) div 8" by linarith
    then have w: "writes 16 pc bits (set16 pc bits)"
      using writes_set16 [OF _ c m] less.prems(2) by simp
    have "writes (16 + (n - 16)) pc bits (and_then (set16 pc bits) (set_numbits (n - 16) (pc + 16)))"
      by (rule writes_append [OF w less.prems(1)], rule less.IH) (use 1 less.prems(2) in simp_all)
    then show ?thesis using 1 by (subst set_numbits.simps) simp
  next
    case 2
    then have "?j + 1 \<le> (pc + n) div 8" by linarith
    then have w: "writes 8 pc bits (set8 pc bits)"
      using writes_set8 [OF _ c m] less.prems(2) by simp
    have "writes (8 + (n - 8)) pc bits (and_then (set8 pc bits) (set_numbits (n - 8) (pc + 8)))"
      by (rule writes_append [OF w less.prems(1)], rule less.IH) (use 2 less.prems(2) in simp_all)
    then show ?thesis using 2 by (subst set_numbits.simps) simp
  next
    case 3
    then show ?thesis by (subst set_numbits.simps) (auto simp: writes_def)
  next
    case 4
    then show ?thesis using writes_set1 [of ?j bits ?m] j by (subst set_numbits.simps) simp
  next
    case 5
    then show ?thesis
      using writes_setN [OF _ c _ m, of n] less.prems(2) by (subst set_numbits.simps) simp
  qed
qed

text \<open>The scan: every position of the code gets its bit, without a panic.\<close>

lemma push_size_le: "push_size op \<le> 32"
  by (auto simp: push_size_def word_less_nat_alt unat_sub word_le_nat_alt)

lemma scan_bits:
  assumes "length bits = length code div 8 + 5" and "clear_from pc bits"
  shows "\<exists>bits'. codeBitmapInternal code pc bits = Ok bits' \<and> length bits' = length bits \<and>
    (\<forall>p. p div 8 < length bits \<longrightarrow> bv_get bits' p = (bv_get bits p \<or> push_data code pc p))"
  using assms
proof (induction code pc bits rule: codeBitmapInternal.induct)
  case (1 code pc bits)
  show ?case
  proof (cases "pc < length code")
    case True
    let ?n = "push_size (code ! pc)"
    have "clear_from (pc + 1) bits" using 1(3) by (auto simp: clear_from_def)
    moreover have "(pc + 1 + ?n) div 8 < length bits"
    proof -
      have "pc + 1 + ?n \<le> length code + 32" using True push_size_le [of "code ! pc"] by linarith
      from div_le_mono [OF this, of 8] show ?thesis using 1(2) by simp
    qed
    ultimately have "writes ?n (pc + 1) bits (set_numbits ?n (pc + 1) bits)" by (rule writes_numbits)
    then obtain b1 where b1: "set_numbits ?n (pc + 1) bits = Ok b1" "length b1 = length bits"
      "\<And>p. p div 8 < length bits \<Longrightarrow> bv_get b1 p = (bv_get bits p \<or> pc + 1 \<le> p \<and> p < pc + 1 + ?n)"
      by (auto simp: writes_def)
    have "clear_from (pc + 1 + ?n) b1" using 1(3) b1(2,3) by (auto simp: clear_from_def)
    with 1(1) [OF True] 1(2) b1(2) obtain b2 where
      "codeBitmapInternal code (pc + 1 + ?n) b1 = Ok b2" "length b2 = length bits"
      "\<And>p. p div 8 < length bits \<Longrightarrow> bv_get b2 p = (bv_get b1 p \<or> push_data code (pc + 1 + ?n) p)"
      by auto
    then show ?thesis using True b1
      by (intro exI [of _ b2]) (auto simp: codeBitmapInternal.simps [of code pc] push_data.simps [of code pc])
  next
    case False
    then show ?thesis
      by (simp add: codeBitmapInternal.simps [of code pc] push_data.simps [of code pc])
  qed
qed

text \<open>C40. The jump destination analysis is exact: \<^verbatim>\<open>codeBitmap\<close>, which sets bits in chunks of sixteen,
  eight and fewer, never writes out of range, and \<^verbatim>\<open>codeSegment\<close> of a position of the code tells
  whether it is an instruction rather than data of a push.\<close>

theorem codeBitmap_exact:
  assumes "pos < length code"
  shows "and_then (codeBitmap code) (\<lambda>bits. codeSegment bits pos) = Ok (\<not> push_data code 0 pos)"
proof -
  let ?bits = "replicate (length code div 8 + 5) 0 :: bitvec"
  have g: "\<not> bv_get ?bits p" if "p div 8 < length ?bits" for p
    using that by (simp add: bv_get_def)
  have "clear_from 0 ?bits" using g by (auto simp: clear_from_def)
  from scan_bits [OF _ this, of code] obtain b where b: "codeBitmap code = Ok b" "length b = length ?bits"
    "\<And>p. p div 8 < length ?bits \<Longrightarrow> bv_get b p = (bv_get ?bits p \<or> push_data code 0 p)"
    by (auto simp: codeBitmap_def add.commute)
  have "pos div 8 < length ?bits" using div_le_mono [of pos "length code" 8] assms by simp
  then show ?thesis using b g codeSegment_get [of pos b] by simp
qed

theorem codeBitmap_exact_witness:
  "and_then (codeBitmap [0x61, 0x5B, 0x5B, 0x5B]) (\<lambda>bits. codeSegment bits 2) = Ok False \<and>
   and_then (codeBitmap [0x61, 0x5B, 0x5B, 0x5B]) (\<lambda>bits. codeSegment bits 3) = Ok True"
  using codeBitmap_exact [of 2 "[0x61, 0x5B, 0x5B, 0x5B]"] codeBitmap_exact [of 3 "[0x61, 0x5B, 0x5B, 0x5B]"]
  by (simp add: push_data.simps push_size_def)

end
