(* ===== verification/Zond_EVM.thy ===== *)
theory Zond_EVM
  imports Zond_Effect Zond_VM Zond_RLP
begin

text \<open>
  The call layer of the virtual machine (\<^verbatim>\<open>core/vm/evm.go\<close>, \<^verbatim>\<open>contract.go\<close>): message calls and
  contract creation on the world state, with the snapshot each takes and reverts. The interpreter
  that runs the code of a contract is an argument here and is tied to it in the interpreter's
  theory. The tracer is only told what happens and is left out.
\<close>

section \<open>Contexts\<close>

record Rules =
  IsHomestead :: bool
  IsEIP150 :: bool
  IsEIP155 :: bool
  IsEIP158 :: bool
  IsByzantium :: bool
  IsConstantinople :: bool
  IsPetersburg :: bool
  IsIstanbul :: bool
  IsBerlin :: bool
  IsLondon :: bool
  IsMerge :: bool

text \<open>Every fork test of this chain's configuration answers yes, whatever the block number.\<close>

definition ChainConfig_Rules :: "bool \<Rightarrow> Rules" where
  "ChainConfig_Rules isMerge =
     \<lparr>IsHomestead = True, IsEIP150 = True, IsEIP155 = True, IsEIP158 = True, IsByzantium = True,
      IsConstantinople = True, IsPetersburg = True, IsIstanbul = True, IsBerlin = True,
      IsLondon = True, IsMerge = isMerge\<rparr>"

record BlockContext =
  bc_GetHash :: "u64 \<Rightarrow> Hash"
  bc_Coinbase :: Address
  bc_GasLimit :: u64
  bc_BlockNumber :: int
  bc_Time :: int
  bc_Difficulty :: int
  bc_BaseFee :: "int option"
  bc_Random :: "Hash option"

record TxContext =
  tc_Origin :: Address
  tc_GasPrice :: int

text \<open>A precompiled contract; pricing or running it panics when the result is \<open>None\<close>.\<close>

record PrecompiledContract =
  RequiredGas :: "bytes \<Rightarrow> u64 option"
  pc_Run :: "bytes \<Rightarrow> (bytes \<times> VMError option) option"

text \<open>
  What the machine takes from the 256-bit integer library beyond the wrapping operations, which
  are those of \<open>256 word\<close>.
\<close>

record U256Lib =
  lib_SDiv :: "u256 \<Rightarrow> u256 \<Rightarrow> u256"
  lib_SMod :: "u256 \<Rightarrow> u256 \<Rightarrow> u256"
  lib_Exp :: "u256 \<Rightarrow> u256 \<Rightarrow> u256"
  lib_ExtendSign :: "u256 \<Rightarrow> u256 \<Rightarrow> u256"
  lib_Byte :: "u256 \<Rightarrow> u256 \<Rightarrow> u256"
  lib_AddMod :: "u256 \<Rightarrow> u256 \<Rightarrow> u256 \<Rightarrow> u256"
  lib_MulMod :: "u256 \<Rightarrow> u256 \<Rightarrow> u256 \<Rightarrow> u256"
  lib_SRsh :: "u256 \<Rightarrow> nat \<Rightarrow> u256"

text \<open>
  The fields of \<^verbatim>\<open>EVM\<close> that stay fixed during a transaction. \<^verbatim>\<open>depth\<close>, \<^verbatim>\<open>readOnly\<close> and the state are
  arguments of the operations; \<^verbatim>\<open>abort\<close> is set only from outside.
\<close>

record EVM =
  evm_env :: StateEnv
  evm_Context :: BlockContext
  evm_TxContext :: TxContext
  evm_ChainID :: int
  evm_rules :: Rules
  evm_EnablePreimageRecording :: bool
  evm_abort :: bool
  evm_precompiles :: "Address \<Rightarrow> PrecompiledContract option"
  evm_lib :: U256Lib

definition CallCreateDepth :: nat where "CallCreateDepth = 1024"
definition MaxCodeSize :: nat where "MaxCodeSize = 24576"
definition CreateDataGas :: u64 where "CreateDataGas = 200"

section \<open>Contracts\<close>

type_synonym JumpDests = "Hash \<Rightarrow> bitvec option"

record Contract =
  c_CallerAddress :: Address
  c_self :: Address
  c_jumpdests :: JumpDests
  c_analysis :: "bitvec option"
  c_Code :: bytes
  c_CodeHash :: Hash
  c_CodeAddr :: "Address option"
  c_Input :: bytes
  c_Gas :: u64
  c_value :: int

datatype ContractRef = AccountRef Address | ContractOf Contract

fun cr_Address :: "ContractRef \<Rightarrow> Address" where
  "cr_Address (AccountRef a) = a"
| "cr_Address (ContractOf c) = c_self c"

fun parent_jumpdests :: "ContractRef \<Rightarrow> JumpDests" where
  "parent_jumpdests (AccountRef a) = Map.empty"
| "parent_jumpdests (ContractOf c) = c_jumpdests c"

definition NewContract :: "ContractRef \<Rightarrow> Address \<Rightarrow> int \<Rightarrow> u64 \<Rightarrow> Contract" where
  "NewContract caller object value1 gas =
     \<lparr>c_CallerAddress = cr_Address caller, c_self = object, c_jumpdests = parent_jumpdests caller,
      c_analysis = None, c_Code = [], c_CodeHash = zero_hash, c_CodeAddr = None, c_Input = [],
      c_Gas = gas, c_value = value1\<rparr>"

fun AsDelegate :: "ContractRef \<Rightarrow> Contract \<Rightarrow> (goerr, Contract) outcome" where
  "AsDelegate (AccountRef a) c = Panic"
| "AsDelegate (ContractOf parent) c =
     Ok (c\<lparr>c_CallerAddress := c_CallerAddress parent, c_value := c_value parent\<rparr>)"

definition SetCallCode :: "Address \<Rightarrow> Hash \<Rightarrow> bytes \<Rightarrow> Contract \<Rightarrow> Contract" where
  "SetCallCode addr hash code c =
     c\<lparr>c_Code := code, c_CodeHash := hash, c_CodeAddr := Some addr\<rparr>"

text \<open>\<^verbatim>\<open>UseGas\<close>: \<open>None\<close> when there is not enough.\<close>

definition UseGas :: "u64 \<Rightarrow> u64 \<Rightarrow> u64 option" where
  "UseGas gas have1 = (if have1 < gas then None else Some (have1 - gas))"

definition GetOp :: "u64 \<Rightarrow> bytes \<Rightarrow> u8" where
  "GetOp n code = (if unat n < length code then code ! unat n else 0)"

section \<open>Results\<close>

text \<open>
  What a call leaves: the returned bytes, the remaining gas, the error, the state, and the jump
  destination analyses that the contracts of one transaction share through a common map.
\<close>

record Result =
  r_ret :: bytes
  r_gas :: u64
  r_err :: "VMError option"
  r_db :: StateDB
  r_jumpdests :: JumpDests

definition result :: "bytes \<Rightarrow> u64 \<Rightarrow> VMError option \<Rightarrow> StateDB \<Rightarrow> JumpDests \<Rightarrow> Result" where
  "result ret gas err s jd = \<lparr>r_ret = ret, r_gas = gas, r_err = err, r_db = s, r_jumpdests = jd\<rparr>"

text \<open>The interpreter: call depth, read-only flag, contract, input, state.\<close>

type_synonym RunFn = "nat \<Rightarrow> bool \<Rightarrow> Contract \<Rightarrow> bytes \<Rightarrow> StateDB \<Rightarrow> (goerr, Result) outcome"

definition RunPrecompiledContract :: "PrecompiledContract \<Rightarrow> bytes \<Rightarrow> u64 \<Rightarrow> StateDB \<Rightarrow> JumpDests
    \<Rightarrow> (goerr, Result) outcome" where
  "RunPrecompiledContract p input suppliedGas s jd =
     and_then (deref (RequiredGas p input)) (\<lambda>gasCost.
      if suppliedGas < gasCost then Ok (result [] 0 (Some ErrOutOfGas) s jd)
      else and_then (deref (pc_Run p input)) (\<lambda>(output, err).
        Ok (result output (suppliedGas - gasCost) err s jd)))"

text \<open>The common end of the calls: on an error the snapshot is reverted, and the gas is gone unless the
  code itself reverted.\<close>

definition settle :: "EVM \<Rightarrow> int \<Rightarrow> Result \<Rightarrow> (goerr, Result) outcome" where
  "settle evm snapshot r =
     (case r_err r of
        None \<Rightarrow> Ok r
      | Some e \<Rightarrow>
          and_then (RevertToSnapshot (evm_env evm) snapshot (r_db r)) (\<lambda>s.
            Ok (r\<lparr>r_db := s, r_gas := (if e = ErrExecutionReverted then r_gas r else 0)\<rparr>)))"

definition code_at :: "EVM \<Rightarrow> Address \<Rightarrow> StateDB \<Rightarrow> bytes" where
  "code_at evm addr s = (case GetCode (evm_env evm) addr s of None \<Rightarrow> [] | Some c \<Rightarrow> c)"

definition load_code :: "EVM \<Rightarrow> Address \<Rightarrow> StateDB \<Rightarrow> Contract \<Rightarrow> Contract" where
  "load_code evm addr s c = SetCallCode addr (GetCodeHash (evm_env evm) addr s) (code_at evm addr s) c"

section \<open>Message calls\<close>

definition evm_Call :: "EVM \<Rightarrow> RunFn \<Rightarrow> nat \<Rightarrow> bool \<Rightarrow> ContractRef \<Rightarrow> Address \<Rightarrow> bytes \<Rightarrow> u64 \<Rightarrow> int
    \<Rightarrow> StateDB \<Rightarrow> (goerr, Result) outcome" where
  "evm_Call evm run depth ro caller addr input gas value1 s =
     (let env = evm_env evm; jd = parent_jumpdests caller in
      if depth > CallCreateDepth then Ok (result [] gas (Some ErrDepth) s jd)
      else if value1 \<noteq> 0 \<and> \<not> CanTransfer env (cr_Address caller) value1 s
        then Ok (result [] gas (Some ErrInsufficientBalance) s jd)
      else
        let (snapshot, s1) = sdb_Snapshot s; p = evm_precompiles evm addr in
        if \<not> sdb_Exist env addr s1 \<and> p = None \<and> IsEIP158 (evm_rules evm) \<and> value1 = 0
        then Ok (result [] gas None s1 jd)
        else
          let s2 = (if sdb_Exist env addr s1 then s1 else CreateAccount env addr s1);
              s3 = Transfer env (cr_Address caller) addr value1 s2
          in and_then
            (case p of
               Some pc \<Rightarrow> RunPrecompiledContract pc input gas s3 jd
             | None \<Rightarrow>
                 if length (code_at evm addr s3) = 0 then Ok (result [] gas None s3 jd)
                 else run depth ro (load_code evm addr s3 (NewContract caller addr value1 gas)) input s3)
            (settle evm snapshot))"

definition evm_CallCode :: "EVM \<Rightarrow> RunFn \<Rightarrow> nat \<Rightarrow> bool \<Rightarrow> ContractRef \<Rightarrow> Address \<Rightarrow> bytes \<Rightarrow> u64 \<Rightarrow> int
    \<Rightarrow> StateDB \<Rightarrow> (goerr, Result) outcome" where
  "evm_CallCode evm run depth ro caller addr input gas value1 s =
     (let env = evm_env evm; jd = parent_jumpdests caller in
      if depth > CallCreateDepth then Ok (result [] gas (Some ErrDepth) s jd)
      else if \<not> CanTransfer env (cr_Address caller) value1 s
        then Ok (result [] gas (Some ErrInsufficientBalance) s jd)
      else
        let (snapshot, s1) = sdb_Snapshot s in
        and_then
          (case evm_precompiles evm addr of
             Some pc \<Rightarrow> RunPrecompiledContract pc input gas s1 jd
           | None \<Rightarrow>
               run depth ro (load_code evm addr s1 (NewContract caller (cr_Address caller) value1 gas))
                 input s1)
          (settle evm snapshot))"

definition evm_DelegateCall :: "EVM \<Rightarrow> RunFn \<Rightarrow> nat \<Rightarrow> bool \<Rightarrow> ContractRef \<Rightarrow> Address \<Rightarrow> bytes \<Rightarrow> u64
    \<Rightarrow> StateDB \<Rightarrow> (goerr, Result) outcome" where
  "evm_DelegateCall evm run depth ro caller addr input gas s =
     (let jd = parent_jumpdests caller in
      if depth > CallCreateDepth then Ok (result [] gas (Some ErrDepth) s jd)
      else
        let (snapshot, s1) = sdb_Snapshot s in
        and_then
          (case evm_precompiles evm addr of
             Some pc \<Rightarrow> RunPrecompiledContract pc input gas s1 jd
           | None \<Rightarrow>
               and_then (AsDelegate caller (NewContract caller (cr_Address caller) 0 gas)) (\<lambda>c.
                 run depth ro (load_code evm addr s1 c) input s1))
          (settle evm snapshot))"

definition evm_StaticCall :: "EVM \<Rightarrow> RunFn \<Rightarrow> nat \<Rightarrow> bool \<Rightarrow> ContractRef \<Rightarrow> Address \<Rightarrow> bytes \<Rightarrow> u64
    \<Rightarrow> StateDB \<Rightarrow> (goerr, Result) outcome" where
  "evm_StaticCall evm run depth ro caller addr input gas s =
     (let env = evm_env evm; jd = parent_jumpdests caller in
      if depth > CallCreateDepth then Ok (result [] gas (Some ErrDepth) s jd)
      else
        let (snapshot, s0) = sdb_Snapshot s; s1 = sdb_AddBalance env addr 0 s0 in
        and_then
          (case evm_precompiles evm addr of
             Some pc \<Rightarrow> RunPrecompiledContract pc input gas s1 jd
           | None \<Rightarrow> run depth True (load_code evm addr s1 (NewContract caller addr 0 gas)) input s1)
          (settle evm snapshot))"

section \<open>Contract creation\<close>

text \<open>The checks on the code that the constructor returned, and storing it.\<close>

definition store_code :: "EVM \<Rightarrow> Address \<Rightarrow> Result \<Rightarrow> Result" where
  "store_code evm address r =
     (let rules = evm_rules evm; ret = r_ret r;
          err1 = (if r_err r = None \<and> IsEIP158 rules \<and> length ret > MaxCodeSize
                  then Some ErrMaxCodeSizeExceeded else r_err r);
          err2 = (if err1 = None \<and> length ret \<ge> 1 \<and> ret ! 0 = 0xEF \<and> IsLondon rules
                  then Some ErrInvalidCode else err1)
      in if err2 = None
         then (case UseGas (of_nat (length ret) * CreateDataGas) (r_gas r) of
                 Some g \<Rightarrow> r\<lparr>r_err := None, r_gas := g, r_db := sdb_SetCode (evm_env evm) address ret (r_db r)\<rparr>
               | None \<Rightarrow> r\<lparr>r_err := Some ErrCodeStoreOutOfGas\<rparr>)
         else r\<lparr>r_err := err2\<rparr>)"

definition settle_create :: "EVM \<Rightarrow> int \<Rightarrow> Result \<Rightarrow> (goerr, Result) outcome" where
  "settle_create evm snapshot r =
     (if r_err r \<noteq> None \<and> (IsHomestead (evm_rules evm) \<or> r_err r \<noteq> Some ErrCodeStoreOutOfGas)
      then settle evm snapshot r else Ok r)"

definition evm_create :: "EVM \<Rightarrow> RunFn \<Rightarrow> nat \<Rightarrow> bool \<Rightarrow> ContractRef \<Rightarrow> bytes \<Rightarrow> Hash \<Rightarrow> u64 \<Rightarrow> int \<Rightarrow> Address
    \<Rightarrow> StateDB \<Rightarrow> (goerr, Address \<times> Result) outcome" where
  "evm_create evm run depth ro caller code hash gas value1 address s =
     (let env = evm_env evm; jd = parent_jumpdests caller; me = cr_Address caller in
      if depth > CallCreateDepth then Ok (zero_address, result [] gas (Some ErrDepth) s jd)
      else if \<not> CanTransfer env me value1 s
        then Ok (zero_address, result [] gas (Some ErrInsufficientBalance) s jd)
      else
        let nonce = GetNonce env me s in
        if nonce + 1 < nonce then Ok (zero_address, result [] gas (Some ErrNonceUintOverflow) s jd)
        else
          let s1 = sdb_SetNonce env me (nonce + 1) s;
              s2 = (if IsBerlin (evm_rules evm) then AddAddressToAccessList address s1 else s1);
              contractHash = GetCodeHash env address s2
          in if GetNonce env address s2 \<noteq> 0
                \<or> contractHash \<noteq> zero_hash \<and> contractHash \<noteq> emptyCodeHash env
             then Ok (zero_address, result [] 0 (Some ErrContractAddressCollision) s2 jd)
             else
               let (snapshot, s3) = sdb_Snapshot s2;
                   s4 = CreateAccount env address s3;
                   s5 = (if IsEIP158 (evm_rules evm) then sdb_SetNonce env address 1 s4 else s4);
                   s6 = Transfer env me address value1 s5;
                   c = (NewContract caller address value1 gas)
                         \<lparr>c_Code := code, c_CodeHash := hash, c_CodeAddr := Some address\<rparr>
               in and_then (run depth ro c [] s6) (\<lambda>r.
                    and_then (settle_create evm snapshot (store_code evm address r)) (\<lambda>r1.
                      Ok (address, r1))))"

text \<open>The list of an address and a nonce always encodes.\<close>

definition CreateAddress :: "(bytes \<Rightarrow> bytes) \<Rightarrow> Address \<Rightarrow> u64 \<Rightarrow> Address" where
  "CreateAddress keccak b nonce =
     (case EncodeToBytes (RlpSlice [RlpByteArray b, RlpUint nonce]) of
        Ok data \<Rightarrow> BytesToAddress (drop 12 (keccak data))
      | _ \<Rightarrow> BytesToAddress (drop 12 (keccak [])))"

definition CreateAddress2 :: "(bytes \<Rightarrow> bytes) \<Rightarrow> Address \<Rightarrow> bytes \<Rightarrow> bytes \<Rightarrow> Address" where
  "CreateAddress2 keccak b salt inithash =
     BytesToAddress (drop 12 (keccak ([0xFF] @ b @ salt @ inithash)))"

definition evm_Create :: "EVM \<Rightarrow> RunFn \<Rightarrow> nat \<Rightarrow> bool \<Rightarrow> ContractRef \<Rightarrow> bytes \<Rightarrow> u64 \<Rightarrow> int
    \<Rightarrow> StateDB \<Rightarrow> (goerr, Address \<times> Result) outcome" where
  "evm_Create evm run depth ro caller code gas value1 s =
     (let env = evm_env evm;
          contractAddr = CreateAddress (env_keccak env) (cr_Address caller) (GetNonce env (cr_Address caller) s)
      in evm_create evm run depth ro caller code zero_hash gas value1 contractAddr s)"

definition evm_Create2 :: "EVM \<Rightarrow> RunFn \<Rightarrow> nat \<Rightarrow> bool \<Rightarrow> ContractRef \<Rightarrow> bytes \<Rightarrow> u64 \<Rightarrow> int \<Rightarrow> u256
    \<Rightarrow> StateDB \<Rightarrow> (goerr, Address \<times> Result) outcome" where
  "evm_Create2 evm run depth ro caller code gas endowment salt s =
     (let env = evm_env evm; hash = BytesToHash (env_keccak env code);
          contractAddr = CreateAddress2 (env_keccak env) (cr_Address caller) (u256_Bytes32 salt) hash
      in evm_create evm run depth ro caller code hash gas endowment contractAddr s)"

section \<open>Calls keep the effects their code keeps\<close>

lemma result_sel [simp]:
  "r_ret (result ret gas err s jd) = ret" "r_gas (result ret gas err s jd) = gas"
  "r_err (result ret gas err s jd) = err" "r_db (result ret gas err s jd) = s"
  "r_jumpdests (result ret gas err s jd) = jd"
  by (simp_all add: result_def)

lemma RunPrecompiled_db: "RunPrecompiledContract p input gas s jd = Ok r \<Longrightarrow> r_db r = s"
  by (auto simp: RunPrecompiledContract_def Let_def outcome_simps split: if_splits)

lemma RunPrecompiled_loop_free: "RunPrecompiledContract p input gas s jd \<noteq> Loops"
  by (auto simp: RunPrecompiledContract_def Let_def outcome_simps deref_def split: option.splits)

context state_effect
begin

lemma settle_effect:
  assumes "settle evm rid r = Ok r1" and "evm_env evm = env" and "sdb_Snapshot s = (rid, s1)"
    and "R ro s1 (r_db r)"
  shows "R ro s (r_db r1)"
proof (cases "r_err r")
  case None
  then show ?thesis
    using assms effect_trans [OF effect_snapshot [of ro s], of "r_db r"] by (simp add: settle_def)
next
  case (Some e)
  then show ?thesis
    using assms effect_revert [OF assms(3,4)] by (auto simp: settle_def outcome_simps)
qed

text \<open>
  How a call ends: with the state as it was, with the snapshot only, or by settling a result whose
  state is reached from the snapshot.
\<close>

definition settles :: "EVM \<Rightarrow> bool \<Rightarrow> StateDB \<Rightarrow> Result \<Rightarrow> bool" where
  "settles evm ro s r \<longleftrightarrow> r_db r = s \<or> r_db r = snd (sdb_Snapshot s) \<and> r_err r = None
     \<or> (\<exists>r0. settle evm (fst (sdb_Snapshot s)) r0 = Ok r \<and> R ro (snd (sdb_Snapshot s)) (r_db r0))"

lemma settles_effect: "settles evm ro s r \<Longrightarrow> evm_env evm = env \<Longrightarrow> R ro s (r_db r)"
  unfolding settles_def
  by (elim disjE exE conjE) (simp_all add: effect_refl effect_snapshot settle_effect [OF _ _ prod.collapse [symmetric]])

lemma Call_settles:
  assumes run: "\<And>c s1 r. run depth ro c input s1 = Ok r \<Longrightarrow> R ro s1 (r_db r)"
    and env: "evm_env evm = env" and val: "0 \<le> v" "ro \<longrightarrow> v = 0"
    and call: "evm_Call evm run depth ro caller addr input gas v s = Ok r"
  shows "settles evm ro s r"
proof -
  obtain rid s1 where snap: "sdb_Snapshot s = (rid, s1)" by (cases "sdb_Snapshot s")
  have s1: "s1 = snd (sdb_Snapshot s)" using snap by simp
  let ?a = "cr_Address caller"
  let ?s2 = "if sdb_Exist env addr s1 then s1 else CreateAccount env addr s1"
  let ?s3 = "Transfer env ?a addr v ?s2"
  have e2: "R ro s1 ?s2" by (simp add: effect_refl effect_create_missing)
  have b: "GetBalance env ?a ?s2 = GetBalance env ?a s"
    by (simp add: s1 getters_account account_CreateAccount)
  have e3: "R ro s1 ?s3" if "v \<noteq> 0 \<longrightarrow> CanTransfer env ?a v s"
    by (rule effect_trans [OF e2 effect_transfer]) (use val b that in \<open>auto simp: CanTransfer_def\<close>)
  from call env snap consider "r_db r = s" | "r_db r = s1" "r_err r = None"
    | r0 where "v \<noteq> 0 \<longrightarrow> CanTransfer env ?a v s" "settle evm rid r0 = Ok r" "R ro ?s3 (r_db r0)"
    by (auto simp: evm_Call_def Let_def outcome_simps effect_refl
        split: if_splits option.splits dest: run RunPrecompiled_db)
  then show ?thesis
  proof cases
    case 3
    then show ?thesis using effect_trans [OF e3] snap by (auto simp: settles_def)
  qed (use snap in \<open>simp_all add: settles_def\<close>)
qed

lemma CallCode_settles:
  assumes run: "\<And>c s1 r. run depth ro c input s1 = Ok r \<Longrightarrow> R ro s1 (r_db r)"
    and env: "evm_env evm = env"
    and call: "evm_CallCode evm run depth ro caller addr input gas v s = Ok r"
  shows "settles evm ro s r"
proof -
  obtain rid s1 where snap: "sdb_Snapshot s = (rid, s1)" by (cases "sdb_Snapshot s")
  from call env snap consider "r_db r = s"
    | r0 where "settle evm rid r0 = Ok r" "R ro s1 (r_db r0)"
    by (auto simp: evm_CallCode_def Let_def outcome_simps effect_refl
        split: if_splits option.splits dest: run RunPrecompiled_db)
  then show ?thesis using snap by cases (auto simp: settles_def)
qed

lemma DelegateCall_settles:
  assumes run: "\<And>c s1 r. run depth ro c input s1 = Ok r \<Longrightarrow> R ro s1 (r_db r)"
    and env: "evm_env evm = env"
    and call: "evm_DelegateCall evm run depth ro caller addr input gas s = Ok r"
  shows "settles evm ro s r"
proof -
  obtain rid s1 where snap: "sdb_Snapshot s = (rid, s1)" by (cases "sdb_Snapshot s")
  from call env snap consider "r_db r = s"
    | r0 where "settle evm rid r0 = Ok r" "R ro s1 (r_db r0)"
    by (auto simp: evm_DelegateCall_def Let_def outcome_simps effect_refl
        split: if_splits option.splits dest: run RunPrecompiled_db)
  then show ?thesis using snap by cases (auto simp: settles_def)
qed

text \<open>A static call is read-only whatever the caller is.\<close>

lemma StaticCall_settles:
  assumes run: "\<And>c s1 r. run depth True c input s1 = Ok r \<Longrightarrow> R True s1 (r_db r)"
    and env: "evm_env evm = env"
    and call: "evm_StaticCall evm run depth ro caller addr input gas s = Ok r"
  shows "settles evm True s r"
proof -
  obtain rid s1 where snap: "sdb_Snapshot s = (rid, s1)" by (cases "sdb_Snapshot s")
  from call env snap consider "r_db r = s"
    | r0 where "settle evm rid r0 = Ok r" "R True (sdb_AddBalance env addr 0 s1) (r_db r0)"
    by (auto simp: evm_StaticCall_def Let_def outcome_simps effect_refl
        split: if_splits option.splits dest: run RunPrecompiled_db)
  then show ?thesis using snap by cases (auto simp: settles_def intro: effect_trans [OF effect_touch])
qed

lemma store_code_effect:
  assumes "evm_env evm = env"
  shows "R False (r_db r) (r_db (store_code evm address r))"
  using assms effect_code
  by (auto simp: store_code_def Let_def effect_refl split: option.split)

lemma settle_create_effect:
  assumes "settle_create evm rid r = Ok r1" and "evm_env evm = env" and "sdb_Snapshot s = (rid, s1)"
    and "R ro s1 (r_db r)"
  shows "R ro s (r_db r1)"
proof (cases "r_err r \<noteq> None \<and> (IsHomestead (evm_rules evm) \<or> r_err r \<noteq> Some ErrCodeStoreOutOfGas)")
  case True
  then show ?thesis using assms settle_effect by (simp add: settle_create_def)
next
  case False
  then have "r1 = r" using assms(1) by (auto simp: settle_create_def split: if_splits)
  then show ?thesis
    using assms(3,4) effect_trans [OF effect_snapshot [of ro s]] by simp
qed

lemma create_effect:
  assumes run: "\<And>c s1 r. run depth False c [] s1 = Ok r \<Longrightarrow> R False s1 (r_db r)"
    and env: "evm_env evm = env" and val: "0 \<le> v"
    and call: "evm_create evm run depth False caller code hash gas v address s = Ok (a, r)"
  shows "R False s (r_db r)"
proof -
  let ?me = "cr_Address caller"
  let ?s1 = "sdb_SetNonce env ?me (GetNonce env ?me s + 1) s"
  let ?s2 = "if IsBerlin (evm_rules evm) then AddAddressToAccessList address ?s1 else ?s1"
  obtain rid s3 where snap: "sdb_Snapshot ?s2 = (rid, s3)" by (cases "sdb_Snapshot ?s2")
  have s3: "s3 = snd (sdb_Snapshot ?s2)" using snap by simp
  let ?s4 = "CreateAccount env address s3"
  let ?s5 = "if IsEIP158 (evm_rules evm) then sdb_SetNonce env address 1 ?s4 else ?s4"
  let ?s6 = "Transfer env ?me address v ?s5"
  have e2: "R False s ?s2"
    using effect_trans [OF effect_nonce effect_add_address] effect_nonce by auto
  have e6: "R False s3 ?s6" if "GetNonce env address ?s2 = 0" "CanTransfer env ?me v s"
  proof -
    have "R False s3 ?s4" using that(1) by (intro effect_create) (simp add: s3 getters_account)
    then have "R False s3 ?s5" using effect_trans effect_nonce by auto
    moreover have "GetBalance env ?me ?s5 = GetBalance env ?me s"
      by (simp add: s3 getters_account account_CreateAccount account_SetNonce)
    ultimately show ?thesis
      using val that(2) effect_trans effect_transfer by (auto simp: CanTransfer_def)
  qed
  from call env snap consider "r_db r = s" | "r_db r = ?s2"
    | r0 where "GetNonce env address ?s2 = 0" "CanTransfer env ?me v s"
        "settle_create evm rid (store_code evm address r0) = Ok r" "R False ?s6 (r_db r0)"
    by (auto simp: evm_create_def Let_def outcome_simps split: if_splits dest: run)
  then show ?thesis
  proof cases
    case 3
    have "R False s3 (r_db (store_code evm address r0))"
      using effect_trans [OF effect_trans [OF e6 [OF 3(1,2)] 3(4)] store_code_effect [OF env]] .
    then show ?thesis using settle_create_effect [OF 3(3) env snap] effect_trans [OF e2] by blast
  qed (use e2 in \<open>auto simp: effect_refl\<close>)
qed

end

section \<open>Gas only shrinks\<close>

lemma UseGas_eq: "UseGas g h = Some x \<longleftrightarrow> g \<le> h \<and> x = h - g"
  by (auto simp: UseGas_def)

lemma unat_sub_le: "g \<le> (h :: u64) \<Longrightarrow> unat (h - g) = unat h - unat g"
  by (simp add: unat_sub)

lemma RunPrecompiled_gas: "RunPrecompiledContract p input gas s jd = Ok r \<Longrightarrow> r_gas r \<le> gas"
proof -
  have "gas - g \<le> gas" if "\<not> gas < g" for g
    using that by (simp add: not_less word_le_nat_alt unat_sub)
  then show "RunPrecompiledContract p input gas s jd = Ok r \<Longrightarrow> r_gas r \<le> gas"
    by (cases "RequiredGas p input"; cases "pc_Run p input")
      (auto simp: RunPrecompiledContract_def deref_def split: if_split_asm)
qed

lemma settle_gas: "settle evm rid r = Ok r1 \<Longrightarrow> r_gas r1 \<le> r_gas r"
  by (auto simp: settle_def outcome_simps split: option.splits if_splits)

lemma load_code_gas [simp]: "c_Gas (load_code evm addr s c) = c_Gas c" "c_Gas (NewContract caller a v g) = g"
  by (simp_all add: load_code_def SetCallCode_def NewContract_def)

lemma AsDelegate_gas: "AsDelegate caller c = Ok c1 \<Longrightarrow> c_Gas c1 = c_Gas c"
  by (cases caller) auto

lemma call_gas:
  assumes run: "\<And>d ro c i s1 r. run d ro c i s1 = Ok r \<Longrightarrow> r_gas r \<le> c_Gas c"
  shows "evm_Call evm run depth ro caller addr input gas v s = Ok r \<Longrightarrow> r_gas r \<le> gas"
    and "evm_CallCode evm run depth ro caller addr input gas v s = Ok r \<Longrightarrow> r_gas r \<le> gas"
    and "evm_DelegateCall evm run depth ro caller addr input gas s = Ok r \<Longrightarrow> r_gas r \<le> gas"
    and "evm_StaticCall evm run depth ro caller addr input gas s = Ok r \<Longrightarrow> r_gas r \<le> gas"
  by (auto simp: evm_Call_def evm_CallCode_def evm_DelegateCall_def evm_StaticCall_def Let_def outcome_simps
      split: if_splits option.splits prod.splits
      dest!: settle_gas AsDelegate_gas run RunPrecompiled_gas intro: order_trans)

lemma store_code_gas: "r_gas (store_code evm a r) \<le> r_gas r"
  by (auto simp: store_code_def Let_def UseGas_eq word_le_nat_alt unat_sub split: option.split)

lemma settle_create_gas:
  "settle_create evm rid (store_code evm a r) = Ok r1 \<Longrightarrow> r_gas r1 \<le> r_gas r"
  using settle_gas [of evm rid "store_code evm a r" r1] store_code_gas [of evm a r]
  by (auto simp: settle_create_def split: if_splits)

lemma create_gas:
  assumes run: "\<And>d ro c i s1 r. run d ro c i s1 = Ok r \<Longrightarrow> r_gas r \<le> c_Gas c"
    and call: "evm_create evm run depth ro caller code hash gas v address s = Ok (a, r)"
  shows "r_gas r \<le> gas"
proof -
  from call consider "r_gas r = gas" | "r_gas r = 0"
    | rid r0 where "r_gas r0 \<le> gas" "settle_create evm rid (store_code evm address r0) = Ok r"
    by (auto simp: evm_create_def Let_def outcome_simps split: if_splits prod.splits dest!: run)
  then show ?thesis by cases (auto dest: settle_create_gas intro: order_trans)
qed

end
