(* ===== verification/Zond_Instructions.thy ===== *)
theory Zond_Instructions
  imports Zond_EVM
begin

text \<open>
  The instructions of the virtual machine (\<^verbatim>\<open>core/vm/instructions.go\<close>, \<^verbatim>\<open>eips.go\<close>,
  \<^verbatim>\<open>contract.go\<close>): what each does to the frame it runs in.
\<close>

unbundle bit_operations_syntax

named_theorems loop_free \<open>operations whose outcome is never \<open>Loops\<close>\<close>

section \<open>Frames\<close>

text \<open>
  A frame is one run of the interpreter: the program counter, the \<^verbatim>\<open>ScopeContext\<close> (memory, stack,
  contract), the return data of the last call, the gas set aside for the next call, and the state.
\<close>

record Frame =
  f_pc :: u64
  f_stack :: Stack
  f_mem :: Memory
  f_contract :: Contract
  f_returnData :: bytes
  f_callGasTemp :: u64
  f_db :: StateDB

text \<open>The result of an instruction: the frame, the bytes it returns and its error.\<close>

type_synonym Step = "(goerr, Frame \<times> bytes \<times> VMError option) outcome"

text \<open>An instruction: the machine, the interpreter for calls, the depth, the read-only flag, the frame.\<close>

type_synonym Exec = "EVM \<Rightarrow> RunFn \<Rightarrow> nat \<Rightarrow> bool \<Rightarrow> Frame \<Rightarrow> Step"

definition step_ok :: "Frame \<Rightarrow> Step" where
  "step_ok fr = Ok (fr, [], None)"

definition step_err :: "VMError \<Rightarrow> Frame \<Rightarrow> Step" where
  "step_err e fr = Ok (fr, [], Some e)"

definition step_push :: "u256 \<Rightarrow> Frame \<Rightarrow> Step" where
  "step_push x fr = step_ok (fr\<lparr>f_stack := st_push x (f_stack fr)\<rparr>)"

definition op_unary :: "(u256 \<Rightarrow> u256) \<Rightarrow> Frame \<Rightarrow> Step" where
  "op_unary f fr =
     (case f_stack fr of x # st \<Rightarrow> step_ok (fr\<lparr>f_stack := f x # st\<rparr>) | _ \<Rightarrow> Panic)"

definition op_binary :: "(u256 \<Rightarrow> u256 \<Rightarrow> u256) \<Rightarrow> Frame \<Rightarrow> Step" where
  "op_binary f fr =
     (case f_stack fr of x # y # st \<Rightarrow> step_ok (fr\<lparr>f_stack := f x y # st\<rparr>) | _ \<Rightarrow> Panic)"

definition op_ternary :: "(u256 \<Rightarrow> u256 \<Rightarrow> u256 \<Rightarrow> u256) \<Rightarrow> Frame \<Rightarrow> Step" where
  "op_ternary f fr =
     (case f_stack fr of x # y # z # st \<Rightarrow> step_ok (fr\<lparr>f_stack := f x y z # st\<rparr>) | _ \<Rightarrow> Panic)"

definition u256_bool :: "bool \<Rightarrow> u256" where
  "u256_bool b = (if b then 1 else 0)"

section \<open>Arithmetic, comparison, bits\<close>

definition opAdd :: Exec where "opAdd evm run d ro fr = op_binary (\<lambda>x y. x + y) fr"
definition opSub :: Exec where "opSub evm run d ro fr = op_binary (\<lambda>x y. x - y) fr"
definition opMul :: Exec where "opMul evm run d ro fr = op_binary (\<lambda>x y. x * y) fr"
definition opDiv :: Exec where "opDiv evm run d ro fr = op_binary (\<lambda>x y. x div y) fr"
definition opSdiv :: Exec where "opSdiv evm run d ro fr = op_binary (lib_SDiv (evm_lib evm)) fr"
definition opMod :: Exec where
  "opMod evm run d ro fr = op_binary (\<lambda>x y. if y = 0 then 0 else x mod y) fr"
definition opSmod :: Exec where "opSmod evm run d ro fr = op_binary (lib_SMod (evm_lib evm)) fr"
definition opExp :: Exec where "opExp evm run d ro fr = op_binary (lib_Exp (evm_lib evm)) fr"
definition opSignExtend :: Exec where
  "opSignExtend evm run d ro fr = op_binary (\<lambda>back num. lib_ExtendSign (evm_lib evm) num back) fr"
definition opNot :: Exec where "opNot evm run d ro fr = op_unary (\<lambda>x. NOT x) fr"
definition opLt :: Exec where "opLt evm run d ro fr = op_binary (\<lambda>x y. u256_bool (x < y)) fr"
definition opGt :: Exec where "opGt evm run d ro fr = op_binary (\<lambda>x y. u256_bool (x > y)) fr"
definition opSlt :: Exec where
  "opSlt evm run d ro fr = op_binary (\<lambda>x y. u256_bool (sint x < sint y)) fr"
definition opSgt :: Exec where
  "opSgt evm run d ro fr = op_binary (\<lambda>x y. u256_bool (sint x > sint y)) fr"
definition opEq :: Exec where "opEq evm run d ro fr = op_binary (\<lambda>x y. u256_bool (x = y)) fr"
definition opIszero :: Exec where "opIszero evm run d ro fr = op_unary (\<lambda>x. u256_bool (x = 0)) fr"
definition opAnd :: Exec where "opAnd evm run d ro fr = op_binary (\<lambda>x y. x AND y) fr"
definition opOr :: Exec where "opOr evm run d ro fr = op_binary (\<lambda>x y. x OR y) fr"
definition opXor :: Exec where "opXor evm run d ro fr = op_binary (\<lambda>x y. x XOR y) fr"
definition opByte :: Exec where
  "opByte evm run d ro fr = op_binary (\<lambda>th val. lib_Byte (evm_lib evm) val th) fr"
definition opAddmod :: Exec where
  "opAddmod evm run d ro fr =
     op_ternary (\<lambda>x y z. if z = 0 then 0 else lib_AddMod (evm_lib evm) x y z) fr"
definition opMulmod :: Exec where "opMulmod evm run d ro fr = op_ternary (lib_MulMod (evm_lib evm)) fr"
definition opSHL :: Exec where
  "opSHL evm run d ro fr =
     op_binary (\<lambda>shift val. if shift < 256 then push_bit (unat shift) val else 0) fr"
definition opSHR :: Exec where
  "opSHR evm run d ro fr =
     op_binary (\<lambda>shift val. if shift < 256 then drop_bit (unat shift) val else 0) fr"
definition opSAR :: Exec where
  "opSAR evm run d ro fr =
     op_binary (\<lambda>shift val. if shift > 256 then (if sint val \<ge> 0 then 0 else -1)
                            else lib_SRsh (evm_lib evm) val (unat (u256_Uint64 shift))) fr"

section \<open>Hashing and the environment\<close>

definition opKeccak256 :: Exec where
  "opKeccak256 evm run d ro fr =
     (case f_stack fr of
        offset # size1 # st \<Rightarrow>
          and_then (mem_GetPtr (u256_Uint64 offset) (u256_Uint64 size1) (f_mem fr)) (\<lambda>data.
            let h = BytesToHash (env_keccak (evm_env evm) data);
                db = (if evm_EnablePreimageRecording evm then sdb_AddPreimage h data (f_db fr)
                      else f_db fr)
            in step_ok (fr\<lparr>f_db := db, f_stack := u256_SetBytes h # st\<rparr>))
      | _ \<Rightarrow> Panic)"

definition opAddress :: Exec where
  "opAddress evm run d ro fr = step_push (u256_SetBytes (c_self (f_contract fr))) fr"
definition opBalance :: Exec where
  "opBalance evm run d ro fr =
     op_unary (\<lambda>slot. of_int (GetBalance (evm_env evm) (u256_Bytes20 slot) (f_db fr))) fr"
definition opOrigin :: Exec where
  "opOrigin evm run d ro fr = step_push (u256_SetBytes (tc_Origin (evm_TxContext evm))) fr"
definition opCaller :: Exec where
  "opCaller evm run d ro fr = step_push (u256_SetBytes (c_CallerAddress (f_contract fr))) fr"
definition opCallValue :: Exec where
  "opCallValue evm run d ro fr = step_push (of_int (c_value (f_contract fr))) fr"

definition opCallDataLoad :: Exec where
  "opCallDataLoad evm run d ro fr =
     (case f_stack fr of
        x # st \<Rightarrow>
          if u256_IsUint64 x
          then and_then (getData (c_Input (f_contract fr)) (u256_Uint64 x) 32) (\<lambda>data.
                 step_ok (fr\<lparr>f_stack := u256_SetBytes data # st\<rparr>))
          else step_ok (fr\<lparr>f_stack := 0 # st\<rparr>)
      | _ \<Rightarrow> Panic)"

definition opCallDataSize :: Exec where
  "opCallDataSize evm run d ro fr = step_push (of_nat (length (c_Input (f_contract fr)))) fr"

text \<open>An offset that does not fit is the largest one.\<close>

definition offset64 :: "u256 \<Rightarrow> u64" where
  "offset64 x = (if u256_IsUint64 x then u256_Uint64 x else 0xFFFFFFFFFFFFFFFF)"

text \<open>The common tail of the copy instructions: padded data into memory.\<close>

definition copy_to_memory :: "bytes \<Rightarrow> u256 \<Rightarrow> u256 \<Rightarrow> u256 \<Rightarrow> Stack \<Rightarrow> Frame \<Rightarrow> Step" where
  "copy_to_memory data memOffset dataOffset length1 st fr =
     and_then (getData data (offset64 dataOffset) (u256_Uint64 length1)) (\<lambda>val.
       and_then (mem_Set (u256_Uint64 memOffset) (u256_Uint64 length1) val (f_mem fr)) (\<lambda>m.
         step_ok (fr\<lparr>f_stack := st, f_mem := m\<rparr>)))"

definition opCallDataCopy :: Exec where
  "opCallDataCopy evm run d ro fr =
     (case f_stack fr of
        memOffset # dataOffset # length1 # st \<Rightarrow>
          copy_to_memory (c_Input (f_contract fr)) memOffset dataOffset length1 st fr
      | _ \<Rightarrow> Panic)"

definition opReturnDataSize :: Exec where
  "opReturnDataSize evm run d ro fr = step_push (of_nat (length (f_returnData fr))) fr"

definition opReturnDataCopy :: Exec where
  "opReturnDataCopy evm run d ro fr =
     (case f_stack fr of
        memOffset # dataOffset # length1 # st \<Rightarrow>
          let fr1 = fr\<lparr>f_stack := st\<rparr>; end1 = dataOffset + length1 in
          if \<not> u256_IsUint64 dataOffset then step_err ErrReturnDataOutOfBounds fr1
          else if \<not> u256_IsUint64 end1 \<or> length (f_returnData fr) < unat (u256_Uint64 end1)
            then step_err ErrReturnDataOutOfBounds fr1
          else if u256_Uint64 dataOffset > u256_Uint64 end1 then Panic
          else and_then (mem_Set (u256_Uint64 memOffset) (u256_Uint64 length1)
                   (take (unat (u256_Uint64 end1) - unat (u256_Uint64 dataOffset))
                     (drop (unat (u256_Uint64 dataOffset)) (f_returnData fr))) (f_mem fr)) (\<lambda>m.
                 step_ok (fr1\<lparr>f_mem := m\<rparr>))
      | _ \<Rightarrow> Panic)"

definition opExtCodeSize :: Exec where
  "opExtCodeSize evm run d ro fr =
     op_unary (\<lambda>slot. of_nat (GetCodeSize (evm_env evm) (u256_Bytes20 slot) (f_db fr))) fr"
definition opCodeSize :: Exec where
  "opCodeSize evm run d ro fr = step_push (of_nat (length (c_Code (f_contract fr)))) fr"

definition opCodeCopy :: Exec where
  "opCodeCopy evm run d ro fr =
     (case f_stack fr of
        memOffset # codeOffset # length1 # st \<Rightarrow>
          copy_to_memory (c_Code (f_contract fr)) memOffset codeOffset length1 st fr
      | _ \<Rightarrow> Panic)"

definition opExtCodeCopy :: Exec where
  "opExtCodeCopy evm run d ro fr =
     (case f_stack fr of
        a # memOffset # codeOffset # length1 # st \<Rightarrow>
          copy_to_memory (code_at evm (u256_Bytes20 a) (f_db fr)) memOffset codeOffset length1 st fr
      | _ \<Rightarrow> Panic)"

definition opExtCodeHash :: Exec where
  "opExtCodeHash evm run d ro fr =
     op_unary (\<lambda>slot. let a = u256_Bytes20 slot in
       if sdb_Empty (evm_env evm) a (f_db fr) then 0
       else u256_SetBytes (GetCodeHash (evm_env evm) a (f_db fr))) fr"

definition opGasprice :: Exec where
  "opGasprice evm run d ro fr = step_push (of_int (tc_GasPrice (evm_TxContext evm))) fr"

definition opBlockhash :: Exec where
  "opBlockhash evm run d ro fr =
     op_unary (\<lambda>num.
       if \<not> u256_IsUint64 num then 0
       else let num64 = u256_Uint64 num; upper = big_Uint64 (bc_BlockNumber (evm_Context evm));
                lower = (if upper < 257 then 0 else upper - 256)
            in if num64 \<ge> lower \<and> num64 < upper
               then u256_SetBytes (bc_GetHash (evm_Context evm) num64) else 0) fr"

definition opCoinbase :: Exec where
  "opCoinbase evm run d ro fr = step_push (u256_SetBytes (bc_Coinbase (evm_Context evm))) fr"
definition opTimestamp :: Exec where
  "opTimestamp evm run d ro fr = step_push (of_int (bc_Time (evm_Context evm))) fr"
definition opNumber :: Exec where
  "opNumber evm run d ro fr = step_push (of_int (bc_BlockNumber (evm_Context evm))) fr"
definition opDifficulty :: Exec where
  "opDifficulty evm run d ro fr = step_push (of_int (bc_Difficulty (evm_Context evm))) fr"
definition opRandom :: Exec where
  "opRandom evm run d ro fr =
     (case bc_Random (evm_Context evm) of None \<Rightarrow> Panic | Some r \<Rightarrow> step_push (u256_SetBytes r) fr)"
definition opGasLimit :: Exec where
  "opGasLimit evm run d ro fr = step_push (ucast (bc_GasLimit (evm_Context evm))) fr"
definition opSelfBalance :: Exec where
  "opSelfBalance evm run d ro fr =
     step_push (of_int (GetBalance (evm_env evm) (c_self (f_contract fr)) (f_db fr))) fr"
definition opChainID :: Exec where
  "opChainID evm run d ro fr = step_push (of_int (evm_ChainID evm)) fr"
definition opBaseFee :: Exec where
  "opBaseFee evm run d ro fr =
     (case bc_BaseFee (evm_Context evm) of None \<Rightarrow> Panic | Some f \<Rightarrow> step_push (of_int f) fr)"

section \<open>Stack, memory, storage and flow\<close>

definition opPop :: Exec where
  "opPop evm run d ro fr =
     and_then (st_pop (f_stack fr)) (\<lambda>(x, st). step_ok (fr\<lparr>f_stack := st\<rparr>))"

definition opMload :: Exec where
  "opMload evm run d ro fr =
     (case f_stack fr of
        v # st \<Rightarrow> and_then (mem_GetPtr (u256_Uint64 v) 32 (f_mem fr)) (\<lambda>data.
                   step_ok (fr\<lparr>f_stack := u256_SetBytes data # st\<rparr>))
      | _ \<Rightarrow> Panic)"

definition opMstore :: Exec where
  "opMstore evm run d ro fr =
     (case f_stack fr of
        mStart # val # st \<Rightarrow> and_then (mem_Set32 (u256_Uint64 mStart) val (f_mem fr)) (\<lambda>m.
                              step_ok (fr\<lparr>f_stack := st, f_mem := m\<rparr>))
      | _ \<Rightarrow> Panic)"

definition opMstore8 :: Exec where
  "opMstore8 evm run d ro fr =
     (case f_stack fr of
        off # val # st \<Rightarrow>
          and_then (mem_set_byte (u256_Uint64 off) (ucast (u256_Uint64 val)) (f_mem fr)) (\<lambda>m.
            step_ok (fr\<lparr>f_stack := st, f_mem := m\<rparr>))
      | _ \<Rightarrow> Panic)"

definition opSload :: Exec where
  "opSload evm run d ro fr =
     op_unary (\<lambda>loc. u256_SetBytes
       (GetState (evm_env evm) (c_self (f_contract fr)) (u256_Bytes32 loc) (f_db fr))) fr"

definition opSstore :: Exec where
  "opSstore evm run d ro fr =
     (if ro then step_err ErrWriteProtection fr
      else case f_stack fr of
        loc # val # st \<Rightarrow>
          step_ok (fr\<lparr>f_stack := st,
            f_db := sdb_SetState (evm_env evm) (c_self (f_contract fr)) (u256_Bytes32 loc)
                      (u256_Bytes32 val) (f_db fr)\<rparr>)
      | _ \<Rightarrow> Panic)"

text \<open>
  Whether a destination is an instruction: the analysis is kept in the contract, and for code
  with a hash in the map the contracts of one transaction share.
\<close>

definition isCode :: "u64 \<Rightarrow> Contract \<Rightarrow> (goerr, bool \<times> Contract) outcome" where
  "isCode udest c =
     (case c_analysis c of
        Some a \<Rightarrow> and_then (codeSegment a (unat udest)) (\<lambda>b. Ok (b, c))
      | None \<Rightarrow>
          if c_CodeHash c \<noteq> zero_hash
          then and_then
            (case c_jumpdests c (c_CodeHash c) of
               Some a \<Rightarrow> Ok (a, c)
             | None \<Rightarrow> and_then (codeBitmap (c_Code c)) (\<lambda>a.
                 Ok (a, c\<lparr>c_jumpdests := (c_jumpdests c)(c_CodeHash c \<mapsto> a)\<rparr>)))
            (\<lambda>(a, c1). and_then (codeSegment a (unat udest)) (\<lambda>b. Ok (b, c1\<lparr>c_analysis := Some a\<rparr>)))
          else and_then (codeBitmap (c_Code c)) (\<lambda>a.
            and_then (codeSegment a (unat udest)) (\<lambda>b. Ok (b, c\<lparr>c_analysis := Some a\<rparr>))))"

definition validJumpdest :: "u256 \<Rightarrow> Contract \<Rightarrow> (goerr, bool \<times> Contract) outcome" where
  "validJumpdest dest c =
     (let udest = u256_Uint64 dest in
      if \<not> u256_IsUint64 dest \<or> unat udest \<ge> length (c_Code c) then Ok (False, c)
      else if c_Code c ! unat udest \<noteq> 0x5B then Ok (False, c)
      else isCode udest c)"

text \<open>The jump itself: the loop adds the one that is taken off here.\<close>

definition jump_to :: "u256 \<Rightarrow> Frame \<Rightarrow> Step" where
  "jump_to pos fr =
     and_then (validJumpdest pos (f_contract fr)) (\<lambda>(valid, c).
       let fr1 = fr\<lparr>f_contract := c\<rparr> in
       if \<not> valid then step_err ErrInvalidJump fr1
       else step_ok (fr1\<lparr>f_pc := u256_Uint64 pos - 1\<rparr>))"

definition opJump :: Exec where
  "opJump evm run d ro fr =
     (if evm_abort evm then step_err errStopToken fr
      else case f_stack fr of pos # st \<Rightarrow> jump_to pos (fr\<lparr>f_stack := st\<rparr>) | _ \<Rightarrow> Panic)"

definition opJumpi :: Exec where
  "opJumpi evm run d ro fr =
     (if evm_abort evm then step_err errStopToken fr
      else case f_stack fr of
        pos # cond # st \<Rightarrow>
          if cond \<noteq> 0 then jump_to pos (fr\<lparr>f_stack := st\<rparr>) else step_ok (fr\<lparr>f_stack := st\<rparr>)
      | _ \<Rightarrow> Panic)"

definition opJumpdest :: Exec where "opJumpdest evm run d ro fr = step_ok fr"
definition opPc :: Exec where "opPc evm run d ro fr = step_push (ucast (f_pc fr)) fr"
definition opMsize :: Exec where
  "opMsize evm run d ro fr = step_push (of_nat (length (m_store (f_mem fr)))) fr"
definition opGas :: Exec where "opGas evm run d ro fr = step_push (ucast (c_Gas (f_contract fr))) fr"

definition opReturn :: Exec where
  "opReturn evm run d ro fr =
     (case f_stack fr of
        offset # size1 # st \<Rightarrow>
          and_then (mem_GetPtr (u256_Uint64 offset) (u256_Uint64 size1) (f_mem fr)) (\<lambda>ret.
            Ok (fr\<lparr>f_stack := st\<rparr>, ret, Some errStopToken))
      | _ \<Rightarrow> Panic)"

definition opRevert :: Exec where
  "opRevert evm run d ro fr =
     (case f_stack fr of
        offset # size1 # st \<Rightarrow>
          and_then (mem_GetPtr (u256_Uint64 offset) (u256_Uint64 size1) (f_mem fr)) (\<lambda>ret.
            Ok (fr\<lparr>f_stack := st, f_returnData := ret\<rparr>, ret, Some ErrExecutionReverted))
      | _ \<Rightarrow> Panic)"

definition opUndefined :: Exec where
  "opUndefined evm run d ro fr =
     and_then (index (c_Code (f_contract fr)) (unat (f_pc fr))) (\<lambda>op.
       step_err (ErrInvalidOpCode op) fr)"

definition opStop :: Exec where "opStop evm run d ro fr = step_err errStopToken fr"

definition opSelfdestruct :: Exec where
  "opSelfdestruct evm run d ro fr =
     (if ro then step_err ErrWriteProtection fr
      else case f_stack fr of
        beneficiary # st \<Rightarrow>
          let env = evm_env evm; self = c_self (f_contract fr);
              balance = GetBalance env self (f_db fr)
          in step_err errStopToken (fr\<lparr>f_stack := st,
               f_db := fst (sdb_Suicide env self
                 (sdb_AddBalance env (u256_Bytes20 beneficiary) balance (f_db fr)))\<rparr>)
      | _ \<Rightarrow> Panic)"

text \<open>\<^verbatim>\<open>makeLog\<close>; the fields that the log does not set are Go's zero values, which \<^verbatim>\<open>AddLog\<close> overwrites in part.\<close>

definition makeLog :: "nat \<Rightarrow> Exec" where
  "makeLog size1 evm run d ro fr =
     (if ro then step_err ErrWriteProtection fr
      else case f_stack fr of
        mStart # mSize # st \<Rightarrow>
          if length st < size1 then Panic
          else and_then (mem_GetCopy (u256_Uint64 mStart) (u256_Uint64 mSize) (f_mem fr)) (\<lambda>data.
            step_ok (fr\<lparr>f_stack := drop size1 st,
              f_db := sdb_AddLog
                \<lparr>log_Address = c_self (f_contract fr), log_Topics = map u256_Bytes32 (take size1 st),
                 log_Data = data, log_BlockNumber = big_Uint64 (bc_BlockNumber (evm_Context evm)),
                 log_TxHash = zero_hash, log_TxIndex = 0, log_BlockHash = zero_hash, log_Index = 0,
                 log_Removed = False\<rparr> (f_db fr)\<rparr>))
      | _ \<Rightarrow> Panic)"

definition opPush1 :: Exec where
  "opPush1 evm run d ro fr =
     (let pc = f_pc fr + 1; code = c_Code (f_contract fr) in
      step_push (if pc < of_nat (length code) then ucast (code ! unat pc) else 0) (fr\<lparr>f_pc := pc\<rparr>))"

text \<open>\<^verbatim>\<open>int(*pc+1)\<close> is signed; a negative start is a slice out of range.\<close>

definition makePush :: "u64 \<Rightarrow> nat \<Rightarrow> Exec" where
  "makePush size1 pushByteSize evm run d ro fr =
     (let code = c_Code (f_contract fr); codeLen = int (length code);
          startMin = (if sint (f_pc fr + 1) < codeLen then sint (f_pc fr + 1) else codeLen);
          endMin = (if startMin + int pushByteSize < codeLen then startMin + int pushByteSize else codeLen)
      in if startMin < 0 \<or> endMin < startMin then Panic
         else step_push
           (u256_SetBytes (RightPadBytes (take (nat (endMin - startMin)) (drop (nat startMin) code)) pushByteSize))
           (fr\<lparr>f_pc := f_pc fr + size1\<rparr>))"

definition makeDup :: "nat \<Rightarrow> Exec" where
  "makeDup size1 evm run d ro fr =
     and_then (st_dup size1 (f_stack fr)) (\<lambda>st. step_ok (fr\<lparr>f_stack := st\<rparr>))"

definition makeSwap :: "nat \<Rightarrow> Exec" where
  "makeSwap size1 evm run d ro fr =
     and_then (st_swap (size1 + 1) (f_stack fr)) (\<lambda>st. step_ok (fr\<lparr>f_stack := st\<rparr>))"

section \<open>Calls and creation\<close>

definition CallStipend :: u64 where "CallStipend = 2300"

text \<open>
  What follows every call: the flag on the stack, the returned bytes into memory unless the call
  failed outright, the left-over gas back, the return data.
\<close>

definition finish_call :: "u256 \<Rightarrow> u256 \<Rightarrow> Stack \<Rightarrow> Result \<Rightarrow> Frame \<Rightarrow> Step" where
  "finish_call retOffset retSize st r fr =
     (let temp = (if r_err r = None then 1 else 0); c = f_contract fr in
      and_then
        (if r_err r = None \<or> r_err r = Some ErrExecutionReverted
         then mem_Set (u256_Uint64 retOffset) (u256_Uint64 retSize) (r_ret r) (f_mem fr)
         else Ok (f_mem fr)) (\<lambda>m.
        Ok (fr\<lparr>f_stack := temp # st, f_mem := m, f_db := r_db r, f_returnData := r_ret r,
               f_contract := c\<lparr>c_Gas := c_Gas c + r_gas r, c_jumpdests := r_jumpdests r\<rparr>\<rparr>, r_ret r, None)))"

definition opCall :: Exec where
  "opCall evm run d ro fr =
     (case f_stack fr of
        temp # addr # value1 # inOffset # inSize # retOffset # retSize # st \<Rightarrow>
          and_then (mem_GetPtr (u256_Uint64 inOffset) (u256_Uint64 inSize) (f_mem fr)) (\<lambda>args.
            if ro \<and> value1 \<noteq> 0 then step_err ErrWriteProtection (fr\<lparr>f_stack := st\<rparr>)
            else
              let gas = (if value1 \<noteq> 0 then f_callGasTemp fr + CallStipend else f_callGasTemp fr) in
              and_then (evm_Call evm run d ro (ContractOf (f_contract fr)) (u256_Bytes20 addr) args gas
                  (uint value1) (f_db fr)) (\<lambda>r.
                finish_call retOffset retSize st r fr))
      | _ \<Rightarrow> Panic)"

definition opCallCode :: Exec where
  "opCallCode evm run d ro fr =
     (case f_stack fr of
        temp # addr # value1 # inOffset # inSize # retOffset # retSize # st \<Rightarrow>
          and_then (mem_GetPtr (u256_Uint64 inOffset) (u256_Uint64 inSize) (f_mem fr)) (\<lambda>args.
            let gas = (if value1 \<noteq> 0 then f_callGasTemp fr + CallStipend else f_callGasTemp fr) in
            and_then (evm_CallCode evm run d ro (ContractOf (f_contract fr)) (u256_Bytes20 addr) args gas
                (uint value1) (f_db fr)) (\<lambda>r.
              finish_call retOffset retSize st r fr))
      | _ \<Rightarrow> Panic)"

definition opDelegateCall :: Exec where
  "opDelegateCall evm run d ro fr =
     (case f_stack fr of
        temp # addr # inOffset # inSize # retOffset # retSize # st \<Rightarrow>
          and_then (mem_GetPtr (u256_Uint64 inOffset) (u256_Uint64 inSize) (f_mem fr)) (\<lambda>args.
            and_then (evm_DelegateCall evm run d ro (ContractOf (f_contract fr)) (u256_Bytes20 addr) args
                (f_callGasTemp fr) (f_db fr)) (\<lambda>r.
              finish_call retOffset retSize st r fr))
      | _ \<Rightarrow> Panic)"

definition opStaticCall :: Exec where
  "opStaticCall evm run d ro fr =
     (case f_stack fr of
        temp # addr # inOffset # inSize # retOffset # retSize # st \<Rightarrow>
          and_then (mem_GetPtr (u256_Uint64 inOffset) (u256_Uint64 inSize) (f_mem fr)) (\<lambda>args.
            and_then (evm_StaticCall evm run d ro (ContractOf (f_contract fr)) (u256_Bytes20 addr) args
                (f_callGasTemp fr) (f_db fr)) (\<lambda>r.
              finish_call retOffset retSize st r fr))
      | _ \<Rightarrow> Panic)"

text \<open>What follows a creation; \<open>stackvalue\<close> is what the instruction leaves for the result.\<close>

definition finish_create :: "u256 \<Rightarrow> Stack \<Rightarrow> Result \<Rightarrow> Frame \<Rightarrow> Step" where
  "finish_create stackvalue st r fr =
     (let c = f_contract fr;
          fr1 = fr\<lparr>f_stack := stackvalue # st, f_db := r_db r,
                   f_contract := c\<lparr>c_Gas := c_Gas c + r_gas r, c_jumpdests := r_jumpdests r\<rparr>\<rparr>
      in if r_err r = Some ErrExecutionReverted
         then Ok (fr1\<lparr>f_returnData := r_ret r\<rparr>, r_ret r, None)
         else step_ok (fr1\<lparr>f_returnData := []\<rparr>))"

text \<open>\<^verbatim>\<open>scope.Contract.UseGas(gas)\<close>, whose result the creations ignore.\<close>

definition use_gas :: "u64 \<Rightarrow> Contract \<Rightarrow> Contract" where
  "use_gas gas c = (case UseGas gas (c_Gas c) of None \<Rightarrow> c | Some g \<Rightarrow> c\<lparr>c_Gas := g\<rparr>)"

definition opCreate :: Exec where
  "opCreate evm run d ro fr =
     (if ro then step_err ErrWriteProtection fr
      else case f_stack fr of
        value1 # offset # size1 # st \<Rightarrow>
          and_then (mem_GetCopy (u256_Uint64 offset) (u256_Uint64 size1) (f_mem fr)) (\<lambda>input.
            let gas0 = c_Gas (f_contract fr);
                gas = (if IsEIP150 (evm_rules evm) then gas0 - gas0 div 64 else gas0);
                c = use_gas gas (f_contract fr)
            in and_then (evm_Create evm run d ro (ContractOf c) input gas (uint value1) (f_db fr)) (\<lambda>(addr, r).
                 let stackvalue =
                       (if IsHomestead (evm_rules evm) \<and> r_err r = Some ErrCodeStoreOutOfGas then 0
                        else if r_err r \<noteq> None \<and> r_err r \<noteq> Some ErrCodeStoreOutOfGas then 0
                        else u256_SetBytes addr)
                 in finish_create stackvalue st r (fr\<lparr>f_contract := c\<rparr>)))
      | _ \<Rightarrow> Panic)"

definition opCreate2 :: Exec where
  "opCreate2 evm run d ro fr =
     (if ro then step_err ErrWriteProtection fr
      else case f_stack fr of
        endowment # offset # size1 # salt # st \<Rightarrow>
          and_then (mem_GetCopy (u256_Uint64 offset) (u256_Uint64 size1) (f_mem fr)) (\<lambda>input.
            let gas0 = c_Gas (f_contract fr);
                gas = gas0 - gas0 div 64;
                c = use_gas gas (f_contract fr)
            in and_then (evm_Create2 evm run d ro (ContractOf c) input gas (uint endowment) salt (f_db fr)) (\<lambda>(addr, r).
                 let stackvalue = (if r_err r \<noteq> None then 0 else u256_SetBytes addr)
                 in finish_create stackvalue st r (fr\<lparr>f_contract := c\<rparr>)))
      | _ \<Rightarrow> Panic)"

section \<open>What an instruction leaves alone\<close>

text \<open>The size of the memory, which only charging changes, and what it has cost.\<close>

definition mem_shape :: "Memory \<Rightarrow> nat \<times> u64" where
  "mem_shape m = (length (m_store m), m_lastGasCost m)"

text \<open>A quiet instruction keeps the state, the gas and the shape of the memory.\<close>

definition quiet :: "Exec \<Rightarrow> bool" where
  "quiet ex \<longleftrightarrow> (\<forall>evm run d ro fr fr1 ret e. ex evm run d ro fr = Ok (fr1, ret, e) \<longrightarrow>
     f_db fr1 = f_db fr \<and> c_Gas (f_contract fr1) = c_Gas (f_contract fr)
       \<and> mem_shape (f_mem fr1) = mem_shape (f_mem fr))"

definition quiet_step :: "Frame \<Rightarrow> Step \<Rightarrow> bool" where
  "quiet_step fr r \<longleftrightarrow> (\<forall>fr1 ret e. r = Ok (fr1, ret, e) \<longrightarrow>
     f_db fr1 = f_db fr \<and> c_Gas (f_contract fr1) = c_Gas (f_contract fr)
       \<and> mem_shape (f_mem fr1) = mem_shape (f_mem fr))"

lemma quietI: "(\<And>evm run d ro fr. quiet_step fr (ex evm run d ro fr)) \<Longrightarrow> quiet ex"
  by (simp add: quiet_def quiet_step_def)

lemma overwrite_length: "off + length v \<le> length store \<Longrightarrow> length (overwrite off v store) = length store"
  by (simp add: overwrite_def)

lemma no_wrap:
  fixes a b :: u64
  assumes "\<not> a + b < a"
  shows "unat (a + b) = unat a + unat b"
proof (cases "unat a + unat b < 2 ^ 64")
  case True
  then show ?thesis by (simp add: unat_word_ariths)
next
  case False
  have lt: "unat a < 2 ^ 64" "unat b < 2 ^ 64" using unat_bound [of a] unat_bound [of b] by simp_all
  obtain r where r: "unat a + unat b = 2 ^ 64 + r" using False by (auto simp: not_less dest: le_Suc_ex)
  then have "r < 2 ^ 64" and small: "r < unat a" using lt by linarith+
  moreover have "unat (a + b) = (2 ^ 64 + r) mod 2 ^ 64" using r by (simp add: unat_word_ariths)
  ultimately have "unat (a + b) = r" by (metis mod_add_self1 mod_less)
  then show ?thesis using assms small by (simp add: word_less_nat_alt)
qed

lemma word_sum_le_length:
  fixes offset size1 :: u64
  assumes "\<not> of_nat n < offset + size1" and "\<not> offset + size1 < offset"
  shows "unat offset + unat size1 \<le> n"
proof -
  have "unat (offset + size1) \<le> unat (of_nat n :: u64)"
    using assms(1) by (simp add: word_le_nat_alt not_less del: unat_of_nat)
  also have "\<dots> \<le> n" by (simp add: unat_of_nat)
  finally show ?thesis using no_wrap [OF assms(2)] by simp
qed

lemma mem_Set_shape: "mem_Set off size1 v m = Ok m1 \<Longrightarrow> mem_shape m1 = mem_shape m"
  by (auto simp: mem_Set_def mem_shape_def split: if_splits
      intro!: overwrite_length dest!: word_sum_le_length)

lemma mem_Set32_shape: "mem_Set32 off v m = Ok m1 \<Longrightarrow> mem_shape m1 = mem_shape m"
  by (auto simp: mem_Set32_def mem_shape_def u256_Bytes32_def split: if_splits
      intro!: overwrite_length dest!: word_sum_le_length)

lemma mem_set_byte_shape: "mem_set_byte off v m = Ok m1 \<Longrightarrow> mem_shape m1 = mem_shape m"
  by (auto simp: mem_set_byte_def mem_shape_def split: if_splits)

lemma quiet_step_simps [simp]:
  "quiet_step fr Panic" "quiet_step fr Loops" "quiet_step fr (Err e)"
  "quiet_step fr (step_ok fr1) \<longleftrightarrow>
     f_db fr1 = f_db fr \<and> c_Gas (f_contract fr1) = c_Gas (f_contract fr)
       \<and> mem_shape (f_mem fr1) = mem_shape (f_mem fr)"
  "quiet_step fr (step_err e1 fr1) \<longleftrightarrow>
     f_db fr1 = f_db fr \<and> c_Gas (f_contract fr1) = c_Gas (f_contract fr)
       \<and> mem_shape (f_mem fr1) = mem_shape (f_mem fr)"
  "quiet_step fr (Ok (fr1, ret, e2)) \<longleftrightarrow>
     f_db fr1 = f_db fr \<and> c_Gas (f_contract fr1) = c_Gas (f_contract fr)
       \<and> mem_shape (f_mem fr1) = mem_shape (f_mem fr)"
  by (simp_all add: quiet_step_def step_ok_def step_err_def)

lemma quiet_and_then: "(\<And>x. r = Ok x \<Longrightarrow> quiet_step fr (k x)) \<Longrightarrow> quiet_step fr (and_then r k)"
  by (cases r) auto

lemma quiet_helpers [simp]:
  "quiet_step fr (op_unary f1 fr)" "quiet_step fr (op_binary f2 fr)" "quiet_step fr (op_ternary f3 fr)"
  "quiet_step fr (step_push x fr)"
  by (auto simp: op_unary_def op_binary_def op_ternary_def step_push_def split: list.split)

lemma quiet_copy [simp]: "quiet_step fr (copy_to_memory data mo off l st fr)"
  by (auto simp: copy_to_memory_def intro!: quiet_and_then dest: mem_Set_shape)

lemma quiet_simple:
  "quiet opAdd" "quiet opSub" "quiet opMul" "quiet opDiv" "quiet opSdiv" "quiet opMod"
  "quiet opSmod" "quiet opExp" "quiet opSignExtend" "quiet opNot" "quiet opLt" "quiet opGt"
  "quiet opSlt" "quiet opSgt" "quiet opEq" "quiet opIszero" "quiet opAnd" "quiet opOr"
  "quiet opXor" "quiet opByte" "quiet opAddmod" "quiet opMulmod" "quiet opSHL" "quiet opSHR"
  "quiet opSAR" "quiet opAddress" "quiet opBalance" "quiet opOrigin" "quiet opCaller"
  "quiet opCallValue" "quiet opCallDataSize" "quiet opReturnDataSize" "quiet opExtCodeSize"
  "quiet opCodeSize" "quiet opExtCodeHash" "quiet opGasprice" "quiet opBlockhash"
  "quiet opCoinbase" "quiet opTimestamp" "quiet opNumber" "quiet opDifficulty" "quiet opGasLimit"
  "quiet opSelfBalance" "quiet opChainID" "quiet opSload" "quiet opPc" "quiet opMsize"
  "quiet opGas"
  by (rule quietI, simp add: opAdd_def opSub_def opMul_def opDiv_def opSdiv_def opMod_def opSmod_def opExp_def
      opSignExtend_def opNot_def opLt_def opGt_def opSlt_def opSgt_def opEq_def opIszero_def
      opAnd_def opOr_def opXor_def opByte_def opAddmod_def opMulmod_def opSHL_def opSHR_def
      opSAR_def opAddress_def opBalance_def opOrigin_def opCaller_def opCallValue_def
      opCallDataSize_def opReturnDataSize_def opExtCodeSize_def opCodeSize_def opExtCodeHash_def
      opGasprice_def opBlockhash_def opCoinbase_def opTimestamp_def opNumber_def opDifficulty_def
      opGasLimit_def opSelfBalance_def opChainID_def opSload_def opPc_def opMsize_def opGas_def)+

lemma quiet_cases:
  "quiet opCallDataLoad" "quiet opCallDataCopy" "quiet opCodeCopy" "quiet opExtCodeCopy" "quiet opRandom"
  "quiet opBaseFee" "quiet opPop" "quiet opMload" "quiet opJumpdest" "quiet opReturn" "quiet opRevert"
  "quiet opUndefined" "quiet opStop"
  by (rule quietI, auto simp: opCallDataLoad_def opCallDataCopy_def opCodeCopy_def opExtCodeCopy_def
      opRandom_def opBaseFee_def opPop_def opMload_def opJumpdest_def opReturn_def opRevert_def
      opUndefined_def opStop_def intro!: quiet_and_then split: list.split option.split)+

lemma quiet_memory: "quiet opMstore" "quiet opMstore8" "quiet opReturnDataCopy"
  by (rule quietI, auto simp: opMstore_def opMstore8_def opReturnDataCopy_def Let_def intro!: quiet_and_then
      split: list.split dest: mem_Set32_shape mem_set_byte_shape mem_Set_shape)+

lemma isCode_contract: "isCode x c = Ok (b, c1) \<Longrightarrow> c_Gas c1 = c_Gas c"
  by (auto simp: isCode_def outcome_simps split: option.splits if_splits)

lemma validJumpdest_contract: "validJumpdest x c = Ok (b, c1) \<Longrightarrow> c_Gas c1 = c_Gas c"
  by (auto simp: validJumpdest_def Let_def split: if_splits dest: isCode_contract)

lemma quiet_jump_to: "quiet_step fr (jump_to pos (fr\<lparr>f_stack := st\<rparr>))"
  by (auto simp: jump_to_def Let_def intro!: quiet_and_then dest: validJumpdest_contract)

lemma quiet_jumps: "quiet opJump" "quiet opJumpi"
  by (rule quietI, auto simp: opJump_def opJumpi_def quiet_jump_to split: list.split)+

lemma quiet_push:
  "quiet opPush1" "quiet (makePush n k)" "quiet (makeDup m)" "quiet (makeSwap m)"
  by (rule quietI, auto simp: opPush1_def makePush_def makeDup_def makeSwap_def step_push_def Let_def
      intro!: quiet_and_then)+

lemmas quiet_ops = quiet_simple quiet_cases quiet_memory quiet_jumps quiet_push

section \<open>Instructions return\<close>

lemma loop_free_basic [loop_free]:
  "step_ok fr \<noteq> Loops" "step_err e fr \<noteq> Loops" "step_push x fr \<noteq> Loops" "op_unary f1 fr \<noteq> Loops"
  "op_binary f2 fr \<noteq> Loops" "op_ternary f3 fr \<noteq> Loops" "getData data off l \<noteq> Loops"
  "st_pop st \<noteq> Loops" "st_peek st \<noteq> Loops" "st_Back n st \<noteq> Loops" "st_dup n st \<noteq> Loops"
  "st_swap n st \<noteq> Loops" "mem_Set a b v m \<noteq> Loops" "mem_Set32 a x m \<noteq> Loops"
  "mem_set_byte a w m \<noteq> Loops" "mem_GetPtr a b m \<noteq> Loops" "mem_GetCopy a b m \<noteq> Loops"
  "bv_update i g bits \<noteq> Loops" "codeSegment bits i \<noteq> Loops"
  by (simp_all add: step_ok_def step_err_def step_push_def op_unary_def op_binary_def op_ternary_def
      getData_def st_pop_def st_peek_def st_Back_def st_dup_def st_swap_def mem_Set_def mem_Set32_def
      mem_set_byte_def mem_GetPtr_def mem_GetCopy_def bv_update_def codeSegment_def outcome_simps Let_def
      split: list.split)

lemma set_numbits_loop_free [loop_free]: "set_numbits n pc bits \<noteq> Loops"
proof (induction n pc bits rule: set_numbits.induct)
  case (1 n pc bits)
  show ?case
    using 1 by (subst set_numbits.simps)
      (auto simp: set16_def set8_def set1_def setN_def Let_def outcome_simps loop_free)
qed

lemma codeBitmap_loop_free [loop_free]: "codeBitmap code \<noteq> Loops"
proof -
  have "codeBitmapInternal code pc bits \<noteq> Loops" for pc bits
  proof (induction code pc bits rule: codeBitmapInternal.induct)
    case (1 code pc bits)
    show ?case using 1 by (subst codeBitmapInternal.simps) (auto simp: outcome_simps loop_free)
  qed
  then show ?thesis by (simp add: codeBitmap_def)
qed

lemma jump_to_loop_free [loop_free]: "jump_to pos fr \<noteq> Loops"
  by (auto simp: jump_to_def validJumpdest_def isCode_def Let_def outcome_simps loop_free
      split: option.split if_split)

lemma copy_loop_free [loop_free]: "copy_to_memory data mo off l st fr \<noteq> Loops"
  by (simp add: copy_to_memory_def outcome_simps loop_free)

lemma ops_loop_free [loop_free]:
  "opAdd evm run d ro fr \<noteq> Loops" "opSub evm run d ro fr \<noteq> Loops"
  "opMul evm run d ro fr \<noteq> Loops" "opDiv evm run d ro fr \<noteq> Loops"
  "opSdiv evm run d ro fr \<noteq> Loops" "opMod evm run d ro fr \<noteq> Loops"
  "opSmod evm run d ro fr \<noteq> Loops" "opExp evm run d ro fr \<noteq> Loops"
  "opSignExtend evm run d ro fr \<noteq> Loops" "opNot evm run d ro fr \<noteq> Loops"
  "opLt evm run d ro fr \<noteq> Loops" "opGt evm run d ro fr \<noteq> Loops"
  "opSlt evm run d ro fr \<noteq> Loops" "opSgt evm run d ro fr \<noteq> Loops"
  "opEq evm run d ro fr \<noteq> Loops" "opIszero evm run d ro fr \<noteq> Loops"
  "opAnd evm run d ro fr \<noteq> Loops" "opOr evm run d ro fr \<noteq> Loops"
  "opXor evm run d ro fr \<noteq> Loops" "opByte evm run d ro fr \<noteq> Loops"
  "opAddmod evm run d ro fr \<noteq> Loops" "opMulmod evm run d ro fr \<noteq> Loops"
  "opSHL evm run d ro fr \<noteq> Loops" "opSHR evm run d ro fr \<noteq> Loops"
  "opSAR evm run d ro fr \<noteq> Loops" "opKeccak256 evm run d ro fr \<noteq> Loops"
  "opAddress evm run d ro fr \<noteq> Loops" "opBalance evm run d ro fr \<noteq> Loops"
  "opOrigin evm run d ro fr \<noteq> Loops" "opCaller evm run d ro fr \<noteq> Loops"
  "opCallValue evm run d ro fr \<noteq> Loops" "opCallDataLoad evm run d ro fr \<noteq> Loops"
  "opCallDataSize evm run d ro fr \<noteq> Loops" "opCallDataCopy evm run d ro fr \<noteq> Loops"
  "opReturnDataSize evm run d ro fr \<noteq> Loops"
  "opReturnDataCopy evm run d ro fr \<noteq> Loops" "opExtCodeSize evm run d ro fr \<noteq> Loops"
  "opCodeSize evm run d ro fr \<noteq> Loops" "opCodeCopy evm run d ro fr \<noteq> Loops"
  "opExtCodeCopy evm run d ro fr \<noteq> Loops" "opExtCodeHash evm run d ro fr \<noteq> Loops"
  "opGasprice evm run d ro fr \<noteq> Loops" "opBlockhash evm run d ro fr \<noteq> Loops"
  "opCoinbase evm run d ro fr \<noteq> Loops" "opTimestamp evm run d ro fr \<noteq> Loops"
  "opNumber evm run d ro fr \<noteq> Loops" "opDifficulty evm run d ro fr \<noteq> Loops"
  "opRandom evm run d ro fr \<noteq> Loops" "opGasLimit evm run d ro fr \<noteq> Loops"
  "opSelfBalance evm run d ro fr \<noteq> Loops" "opChainID evm run d ro fr \<noteq> Loops"
  "opBaseFee evm run d ro fr \<noteq> Loops" "opPop evm run d ro fr \<noteq> Loops"
  "opMload evm run d ro fr \<noteq> Loops" "opMstore evm run d ro fr \<noteq> Loops"
  "opMstore8 evm run d ro fr \<noteq> Loops" "opSload evm run d ro fr \<noteq> Loops"
  "opSstore evm run d ro fr \<noteq> Loops" "opJump evm run d ro fr \<noteq> Loops"
  "opJumpi evm run d ro fr \<noteq> Loops" "opJumpdest evm run d ro fr \<noteq> Loops"
  "opPc evm run d ro fr \<noteq> Loops" "opMsize evm run d ro fr \<noteq> Loops"
  "opGas evm run d ro fr \<noteq> Loops" "opReturn evm run d ro fr \<noteq> Loops"
  "opRevert evm run d ro fr \<noteq> Loops" "opUndefined evm run d ro fr \<noteq> Loops"
  "opStop evm run d ro fr \<noteq> Loops" "opSelfdestruct evm run d ro fr \<noteq> Loops"
  "makeLog k evm run d ro fr \<noteq> Loops" "opPush1 evm run d ro fr \<noteq> Loops"
  "makePush w k evm run d ro fr \<noteq> Loops" "makeDup k evm run d ro fr \<noteq> Loops"
  "makeSwap k evm run d ro fr \<noteq> Loops"
  by (simp_all add: opAdd_def opSub_def opMul_def opDiv_def opSdiv_def opMod_def opSmod_def opExp_def
      opSignExtend_def opNot_def opLt_def opGt_def opSlt_def opSgt_def opEq_def opIszero_def
      opAnd_def opOr_def opXor_def opByte_def opAddmod_def opMulmod_def opSHL_def opSHR_def
      opSAR_def opKeccak256_def opAddress_def opBalance_def opOrigin_def opCaller_def
      opCallValue_def opCallDataLoad_def opCallDataSize_def opCallDataCopy_def opReturnDataSize_def
      opReturnDataCopy_def opExtCodeSize_def opCodeSize_def opCodeCopy_def opExtCodeCopy_def
      opExtCodeHash_def opGasprice_def opBlockhash_def opCoinbase_def opTimestamp_def opNumber_def
      opDifficulty_def opRandom_def opGasLimit_def opSelfBalance_def opChainID_def opBaseFee_def
      opPop_def opMload_def opMstore_def opMstore8_def opSload_def opSstore_def opJump_def
      opJumpi_def opJumpdest_def opPc_def opMsize_def opGas_def opReturn_def opRevert_def
      opUndefined_def opStop_def opSelfdestruct_def makeLog_def opPush1_def makePush_def
      makeDup_def makeSwap_def
      loop_free outcome_simps Let_def split: list.split option.split)

lemma fold_outcome_loop_free: "(\<And>x s. f x s \<noteq> Loops) \<Longrightarrow> fold_outcome f xs s \<noteq> Loops"
  by (induction xs arbitrary: s) (auto simp: outcome_simps)

lemma state_loop_free [loop_free]:
  "sdb_SubRefund g s \<noteq> Loops" "AddSlotToAccessList a k s \<noteq> Loops" "SlotInAccessList a k s \<noteq> Loops"
  by (auto simp: sdb_SubRefund_def AddSlotToAccessList_def SlotInAccessList_def al_AddSlot_def
      al_Contains_def Let_def outcome_simps split: option.split)

lemma revert_entry_loop_free: "revert_entry env e s \<noteq> Loops"
  by (cases e) (auto simp: undo_object_def so_setOTSBitfield_def set_ots_def deref_def al_DeleteSlot_def
      GetMaxOTSBitfieldSizeFromAddress_def
      Let_def outcome_simps split: option.splits prod.split if_splits)

lemma RevertToSnapshot_loop_free [loop_free]: "RevertToSnapshot env rid s \<noteq> Loops"
  by (auto simp: RevertToSnapshot_def journal_revert_def outcome_simps revert_entry_loop_free
      intro!: fold_outcome_loop_free split: option.split)

lemma settle_loop_free [loop_free]: "settle evm rid r \<noteq> Loops" "settle_create evm rid r \<noteq> Loops"
  by (auto simp: settle_def settle_create_def outcome_simps loop_free split: option.split)

text \<open>A call runs code only within the depth limit, at its own depth.\<close>

definition run_ends :: "nat \<Rightarrow> RunFn \<Rightarrow> bool" where
  "run_ends d run \<longleftrightarrow> (d \<le> CallCreateDepth \<longrightarrow> (\<forall>ro c i s. run d ro c i s \<noteq> Loops))"

lemma AsDelegate_loop_free [loop_free]: "AsDelegate caller c \<noteq> Loops"
  by (cases caller) auto

lemma calls_loop_free:
  assumes "run_ends d run"
  shows "evm_Call evm run d ro caller a i g v s \<noteq> Loops"
    and "evm_CallCode evm run d ro caller a i g v s \<noteq> Loops"
    and "evm_DelegateCall evm run d ro caller a i g s \<noteq> Loops"
    and "evm_StaticCall evm run d ro caller a i g s \<noteq> Loops"
    and "evm_create evm run d ro caller i h g v a s \<noteq> Loops"
  using assms unfolding run_ends_def
  by (auto simp: evm_Call_def evm_CallCode_def evm_DelegateCall_def evm_StaticCall_def evm_create_def Let_def
      outcome_simps loop_free RunPrecompiled_loop_free split: option.split prod.split)

lemma finish_loop_free [loop_free]:
  "finish_call ro rs st r fr \<noteq> Loops" "finish_create v st r fr \<noteq> Loops"
  by (auto simp: finish_call_def finish_create_def Let_def outcome_simps loop_free)

lemma call_ops_loop_free:
  assumes "run_ends d run"
  shows "opCall evm run d ro fr \<noteq> Loops" and "opCallCode evm run d ro fr \<noteq> Loops"
    and "opDelegateCall evm run d ro fr \<noteq> Loops" and "opStaticCall evm run d ro fr \<noteq> Loops"
    and "opCreate evm run d ro fr \<noteq> Loops" and "opCreate2 evm run d ro fr \<noteq> Loops"
  by (auto simp: opCall_def opCallCode_def opDelegateCall_def opStaticCall_def opCreate_def opCreate2_def
      evm_Create_def evm_Create2_def Let_def outcome_simps loop_free calls_loop_free [OF assms]
      split: list.split)

section \<open>The gas an instruction gives back\<close>

text \<open>The runs of the code never return more gas than they were given.\<close>

definition run_gas :: "RunFn \<Rightarrow> bool" where
  "run_gas run \<longleftrightarrow> (\<forall>d ro c i s r. run d ro c i s = Ok r \<longrightarrow> r_gas r \<le> c_Gas c)"

text \<open>An instruction keeps the shape of the memory and adds at most \<open>bonus\<close> to the gas.\<close>

definition gives_back :: "(Frame \<Rightarrow> nat) \<Rightarrow> Exec \<Rightarrow> bool" where
  "gives_back bonus ex \<longleftrightarrow> (\<forall>evm run d ro fr fr1 ret e. run_gas run \<longrightarrow> ex evm run d ro fr = Ok (fr1, ret, e) \<longrightarrow>
     unat (c_Gas (f_contract fr1)) \<le> unat (c_Gas (f_contract fr)) + bonus fr
       \<and> mem_shape (f_mem fr1) = mem_shape (f_mem fr))"

lemma quiet_gives_back: "quiet ex \<Longrightarrow> gives_back (\<lambda>_. 0) ex"
  unfolding quiet_def gives_back_def by (metis add_0_right order_refl)

lemma unat_plus_le: "unat (a + b :: u64) \<le> unat a + unat b"
  by (simp add: unat_word_ariths)

lemma state_ops_give_back:
  "gives_back (\<lambda>_. 0) opKeccak256" "gives_back (\<lambda>_. 0) opSstore" "gives_back (\<lambda>_. 0) opSelfdestruct"
  "gives_back (\<lambda>_. 0) (makeLog n)"
  by (auto simp: gives_back_def opKeccak256_def opSstore_def opSelfdestruct_def makeLog_def step_ok_def
      step_err_def outcome_simps Let_def split: list.splits if_splits)

lemma finish_call_gas:
  assumes "finish_call ro rs st r fr = Ok (fr1, ret, e)"
  shows "unat (c_Gas (f_contract fr1)) \<le> unat (c_Gas (f_contract fr)) + unat (r_gas r)
    \<and> mem_shape (f_mem fr1) = mem_shape (f_mem fr)"
  using assms unat_plus_le
  by (auto simp: finish_call_def Let_def outcome_simps split: if_splits dest: mem_Set_shape)

text \<open>The gas of a call is what was set aside, with the stipend when it carries value.\<close>

definition set_aside :: "Frame \<Rightarrow> nat" where
  "set_aside fr = unat (f_callGasTemp fr)"

definition set_aside_value :: "Frame \<Rightarrow> nat" where
  "set_aside_value fr = unat (f_callGasTemp fr) + (if f_stack fr ! 2 \<noteq> 0 then 2300 else 0)"

lemma stipend_le: "unat (x + CallStipend) \<le> unat x + 2300"
  using unat_plus_le [of x CallStipend] by (simp add: CallStipend_def)

lemma calls_give_back:
  "gives_back set_aside_value opCall" "gives_back set_aside_value opCallCode"
  "gives_back set_aside opDelegateCall" "gives_back set_aside opStaticCall"
proof -
  have plain: "unat g1 \<le> unat g0 + unat t" if "r \<le> t" "unat g1 \<le> unat g0 + unat r" for g0 g1 r t :: u64
    using that by (simp add: word_le_nat_alt)
  have stipend: "unat g1 \<le> unat g0 + (unat t + 2300)"
    if "r \<le> t + CallStipend" "unat g1 \<le> unat g0 + unat r" for g0 g1 r t :: u64
    using that stipend_le [of t] by (simp add: word_le_nat_alt)
  show "gives_back set_aside_value opCall" "gives_back set_aside_value opCallCode"
    "gives_back set_aside opDelegateCall" "gives_back set_aside opStaticCall"
    unfolding gives_back_def run_gas_def
    by (auto simp: opCall_def opCallCode_def opDelegateCall_def opStaticCall_def set_aside_def set_aside_value_def
        Let_def outcome_simps step_err_def split: list.splits if_splits
        dest!: finish_call_gas call_gas [rotated] intro: plain stipend)
qed

lemma finish_create_gas:
  assumes "finish_create v st r fr = Ok (fr1, ret, e)"
  shows "unat (c_Gas (f_contract fr1)) \<le> unat (c_Gas (f_contract fr)) + unat (r_gas r)
    \<and> f_mem fr1 = f_mem fr"
  using assms unat_plus_le by (auto simp: finish_create_def Let_def step_ok_def split: if_splits)

lemma use_gas_sum: "g \<le> c_Gas c \<Longrightarrow> r \<le> g \<Longrightarrow> unat (c_Gas (use_gas g c)) + unat r \<le> unat (c_Gas c)"
  by (auto simp: use_gas_def UseGas_def word_le_nat_alt word_less_nat_alt unat_sub)

lemma gas_part_le: "g - g div 64 \<le> (g :: u64)"
  by (simp add: word_le_nat_alt unat_sub unat_div)

lemma create_part:
  assumes "finish_create v st r (fr\<lparr>f_contract := use_gas g (f_contract fr)\<rparr>) = Ok (fr1, ret, e)"
    and "g \<le> c_Gas (f_contract fr)" and "r_gas r \<le> g"
  shows "unat (c_Gas (f_contract fr1)) \<le> unat (c_Gas (f_contract fr)) \<and> f_mem fr1 = f_mem fr"
  using finish_create_gas [OF assms(1)] use_gas_sum [OF assms(2,3)] by simp

lemma create_step:
  assumes "run_gas run" and "g \<le> c_Gas (f_contract fr)"
    and "evm_create evm run d ro caller i h g v a s = Ok (x, r)"
    and "finish_create w st r (fr\<lparr>f_contract := use_gas g (f_contract fr)\<rparr>) = Ok (fr1, ret, e)"
  shows "unat (c_Gas (f_contract fr1)) \<le> unat (c_Gas (f_contract fr)) \<and> f_mem fr1 = f_mem fr"
proof (rule create_part [OF assms(4,2)])
  show "r_gas r \<le> g" using assms(1) by (intro create_gas [OF _ assms(3)]) (simp add: run_gas_def)
qed

text \<open>A creation that goes through is one call of \<^verbatim>\<open>create\<close>, outside read-only mode.\<close>

definition creates :: "EVM \<Rightarrow> RunFn \<Rightarrow> nat \<Rightarrow> bool \<Rightarrow> Frame \<Rightarrow> Frame \<times> bytes \<times> VMError option \<Rightarrow> bool" where
  "creates evm run d ro fr res \<longleftrightarrow>
     (\<exists>caller i h g v a x r w st. \<not> ro \<and> 0 \<le> v \<and> g \<le> c_Gas (f_contract fr)
       \<and> evm_create evm run d False caller i h g v a (f_db fr) = Ok (x, r)
       \<and> finish_create w st r (fr\<lparr>f_contract := use_gas g (f_contract fr)\<rparr>) = Ok res)"

lemma createsI:
  "evm_create evm run d False caller i h g v a (f_db fr) = Ok (x, r) \<Longrightarrow>
   finish_create w st r (fr\<lparr>f_contract := use_gas g (f_contract fr)\<rparr>) = Ok res \<Longrightarrow>
   g \<le> c_Gas (f_contract fr) \<Longrightarrow> 0 \<le> v \<Longrightarrow> creates evm run d False fr res"
  unfolding creates_def by blast

lemma opCreate_cases:
  assumes "opCreate evm run d ro fr = Ok res"
  shows "fst res = fr \<or> creates evm run d ro fr res"
proof (cases ro)
  case True
  then show ?thesis using assms by (auto simp: opCreate_def step_err_def)
next
  case False
  then show ?thesis
    using assms gas_part_le [of "c_Gas (f_contract fr)"] unfolding opCreate_def evm_Create_def Let_def
    by (auto simp: outcome_simps split: list.splits intro!: createsI)
qed

lemma opCreate2_cases:
  assumes "opCreate2 evm run d ro fr = Ok res"
  shows "fst res = fr \<or> creates evm run d ro fr res"
proof (cases ro)
  case True
  then show ?thesis using assms by (auto simp: opCreate2_def step_err_def)
next
  case False
  then show ?thesis
    using assms gas_part_le [of "c_Gas (f_contract fr)"] unfolding opCreate2_def evm_Create2_def Let_def
    by (auto simp: outcome_simps split: list.splits intro!: createsI)
qed

lemma creates_give_back: "gives_back (\<lambda>_. 0) opCreate" "gives_back (\<lambda>_. 0) opCreate2"
  unfolding gives_back_def
  by (fastforce simp: creates_def dest!: opCreate_cases opCreate2_cases dest: create_step)+

section \<open>Instructions keep the effects their calls keep\<close>

context state_effect
begin

definition run_effect :: "RunFn \<Rightarrow> bool" where
  "run_effect run \<longleftrightarrow> (\<forall>d ro c i s r. run d ro c i s = Ok r \<longrightarrow> R ro s (r_db r))"

definition exec_effect :: "Exec \<Rightarrow> bool" where
  "exec_effect ex \<longleftrightarrow> (\<forall>evm run d ro fr fr1 ret e. evm_env evm = env \<longrightarrow> run_effect run \<longrightarrow>
     ex evm run d ro fr = Ok (fr1, ret, e) \<longrightarrow> R ro (f_db fr) (f_db fr1))"

lemma quiet_effect: "quiet ex \<Longrightarrow> exec_effect ex"
  unfolding quiet_def exec_effect_def by (metis effect_refl)

lemma state_ops_effect:
  "exec_effect opKeccak256" "exec_effect opSstore" "exec_effect opSelfdestruct" "exec_effect (makeLog n)"
  by (auto simp: exec_effect_def opKeccak256_def opSstore_def opSelfdestruct_def makeLog_def step_ok_def
      step_err_def outcome_simps Let_def effect_refl effect_preimage effect_set_state effect_suicide effect_log
      split: list.splits if_splits)

lemma finish_call_db: "finish_call ro rs st r fr = Ok (fr1, ret, e) \<Longrightarrow> f_db fr1 = r_db r"
  by (auto simp: finish_call_def Let_def outcome_simps)

lemma finish_create_db: "finish_create v st r fr = Ok (fr1, ret, e) \<Longrightarrow> f_db fr1 = r_db r"
  by (auto simp: finish_create_def Let_def step_ok_def split: if_splits)

lemma calls_effect:
  assumes "run_effect run" and "evm_env evm = env"
  shows "evm_Call evm run d ro caller a i g v s = Ok r \<Longrightarrow> 0 \<le> v \<Longrightarrow> ro \<longrightarrow> v = 0 \<Longrightarrow> R ro s (r_db r)"
    and "evm_CallCode evm run d ro caller a i g v s = Ok r \<Longrightarrow> R ro s (r_db r)"
    and "evm_DelegateCall evm run d ro caller a i g s = Ok r \<Longrightarrow> R ro s (r_db r)"
    and "evm_StaticCall evm run d ro caller a i g s = Ok r \<Longrightarrow> R ro s (r_db r)"
    and "evm_create evm run d False caller i h g v a s = Ok (a1, r) \<Longrightarrow> 0 \<le> v \<Longrightarrow> R False s (r_db r)"
proof -
  have run: "run d1 ro1 c i1 s1 = Ok r1 \<Longrightarrow> R ro1 s1 (r_db r1)" for d1 ro1 c i1 s1 r1
    using assms(1) by (simp add: run_effect_def)
  show "evm_Call evm run d ro caller a i g v s = Ok r \<Longrightarrow> 0 \<le> v \<Longrightarrow> ro \<longrightarrow> v = 0 \<Longrightarrow> R ro s (r_db r)"
    by (rule settles_effect [OF Call_settles [OF run assms(2)] assms(2)])
  show "evm_CallCode evm run d ro caller a i g v s = Ok r \<Longrightarrow> R ro s (r_db r)"
    by (rule settles_effect [OF CallCode_settles [OF run assms(2)] assms(2)])
  show "evm_DelegateCall evm run d ro caller a i g s = Ok r \<Longrightarrow> R ro s (r_db r)"
    by (rule settles_effect [OF DelegateCall_settles [OF run assms(2)] assms(2)])
  show "evm_StaticCall evm run d ro caller a i g s = Ok r \<Longrightarrow> R ro s (r_db r)"
    by (rule effect_static [OF settles_effect [OF StaticCall_settles [OF run assms(2)] assms(2)]])
  show "evm_create evm run d False caller i h g v a s = Ok (a1, r) \<Longrightarrow> 0 \<le> v \<Longrightarrow> R False s (r_db r)"
    by (rule create_effect [OF run assms(2)])
qed

lemma call_ops_effect:
  "exec_effect opCall" "exec_effect opCallCode" "exec_effect opDelegateCall" "exec_effect opStaticCall"
  unfolding exec_effect_def
  by (auto simp: opCall_def opCallCode_def opDelegateCall_def opStaticCall_def step_err_def outcome_simps
      Let_def effect_refl split: list.splits if_splits dest!: finish_call_db dest: calls_effect [rotated 2])

lemma creates_effect:
  assumes "creates evm run d ro fr (fr1, ret, e)" and "run_effect run" and "evm_env evm = env"
  shows "R ro (f_db fr) (f_db fr1)"
  using assms calls_effect(5) [OF assms(2,3)] unfolding creates_def by (auto dest: finish_create_db)

lemma create_ops_effect: "exec_effect opCreate" "exec_effect opCreate2"
  unfolding exec_effect_def
  by (auto dest!: opCreate_cases opCreate2_cases simp: effect_refl intro: creates_effect)

end

end
