(* ===== verification/Zond_GasTable.thy ===== *)
theory Zond_GasTable
  imports Zond_Instructions
begin

text \<open>
  What instructions cost (\<^verbatim>\<open>core/vm/gas.go\<close>, \<^verbatim>\<open>gas_table.go\<close>, \<^verbatim>\<open>operations_acl.go\<close>) and how much memory
  they need (\<^verbatim>\<open>memory_table.go\<close>), with the laws the interpreter relies on: memory is charged for
  before it grows, and a call costs at least the gas it passes on.
\<close>

section \<open>Prices\<close>

definition GasQuickStep :: u64 where "GasQuickStep = 2"
definition GasFastestStep :: u64 where "GasFastestStep = 3"
definition GasFastStep :: u64 where "GasFastStep = 5"
definition GasMidStep :: u64 where "GasMidStep = 8"
definition GasSlowStep :: u64 where "GasSlowStep = 10"
definition GasExtStep :: u64 where "GasExtStep = 20"

definition CallValueTransferGas :: u64 where "CallValueTransferGas = 9000"
definition CallNewAccountGas :: u64 where "CallNewAccountGas = 25000"
definition QuadCoeffDiv :: u64 where "QuadCoeffDiv = 512"
definition LogDataGas :: u64 where "LogDataGas = 8"
definition Keccak256Gas :: u64 where "Keccak256Gas = 30"
definition Keccak256WordGas :: u64 where "Keccak256WordGas = 6"
definition SstoreSetGas :: u64 where "SstoreSetGas = 20000"
definition SstoreResetGas :: u64 where "SstoreResetGas = 5000"
definition SstoreClearGas :: u64 where "SstoreClearGas = 5000"
definition SstoreRefundGas :: u64 where "SstoreRefundGas = 15000"
definition NetSstoreNoopGas :: u64 where "NetSstoreNoopGas = 200"
definition NetSstoreInitGas :: u64 where "NetSstoreInitGas = 20000"
definition NetSstoreCleanGas :: u64 where "NetSstoreCleanGas = 5000"
definition NetSstoreDirtyGas :: u64 where "NetSstoreDirtyGas = 200"
definition NetSstoreClearRefund :: u64 where "NetSstoreClearRefund = 15000"
definition NetSstoreResetRefund :: u64 where "NetSstoreResetRefund = 4800"
definition NetSstoreResetClearRefund :: u64 where "NetSstoreResetClearRefund = 19800"
definition SstoreSentryGasEIP2200 :: u64 where "SstoreSentryGasEIP2200 = 2300"
definition SstoreSetGasEIP2200 :: u64 where "SstoreSetGasEIP2200 = 20000"
definition SstoreResetGasEIP2200 :: u64 where "SstoreResetGasEIP2200 = 5000"
definition SstoreClearsScheduleRefundEIP2200 :: u64 where "SstoreClearsScheduleRefundEIP2200 = 15000"
definition ColdAccountAccessCostEIP2929 :: u64 where "ColdAccountAccessCostEIP2929 = 2600"
definition ColdSloadCostEIP2929 :: u64 where "ColdSloadCostEIP2929 = 2100"
definition WarmStorageReadCostEIP2929 :: u64 where "WarmStorageReadCostEIP2929 = 100"
definition TxAccessListStorageKeyGas :: u64 where "TxAccessListStorageKeyGas = 1900"
definition SstoreClearsScheduleRefundEIP3529 :: u64 where
  "SstoreClearsScheduleRefundEIP3529 =
     SstoreResetGasEIP2200 - ColdSloadCostEIP2929 + TxAccessListStorageKeyGas"
definition SloadGasEIP2200 :: u64 where "SloadGasEIP2200 = 800"
definition ExpGas :: u64 where "ExpGas = 10"
definition ExpByteFrontier :: u64 where "ExpByteFrontier = 10"
definition ExpByteEIP158 :: u64 where "ExpByteEIP158 = 50"
definition LogGas :: u64 where "LogGas = 375"
definition LogTopicGas :: u64 where "LogTopicGas = 375"
definition CopyGas :: u64 where "CopyGas = 3"
definition MemoryGas :: u64 where "MemoryGas = 3"
definition SelfdestructGasEIP150 :: u64 where "SelfdestructGasEIP150 = 5000"
definition SelfdestructRefundGas :: u64 where "SelfdestructRefundGas = 24000"
definition CreateBySelfdestructGas :: u64 where "CreateBySelfdestructGas = 25000"

lemmas gas_prices = GasQuickStep_def GasFastestStep_def GasFastStep_def GasMidStep_def GasSlowStep_def
  GasExtStep_def CallValueTransferGas_def CallNewAccountGas_def QuadCoeffDiv_def LogDataGas_def
  Keccak256Gas_def Keccak256WordGas_def SstoreSetGas_def SstoreResetGas_def SstoreClearGas_def
  NetSstoreNoopGas_def NetSstoreInitGas_def NetSstoreCleanGas_def NetSstoreDirtyGas_def
  SstoreSentryGasEIP2200_def SstoreSetGasEIP2200_def SstoreResetGasEIP2200_def
  ColdAccountAccessCostEIP2929_def ColdSloadCostEIP2929_def WarmStorageReadCostEIP2929_def
  SloadGasEIP2200_def ExpGas_def ExpByteFrontier_def ExpByteEIP158_def LogGas_def LogTopicGas_def
  CopyGas_def MemoryGas_def SelfdestructGasEIP150_def CreateBySelfdestructGas_def CallStipend_def

section \<open>Gas functions\<close>

text \<open>
  A gas function sees the machine, the memory size the instruction needs and the frame; it returns
  the frame (access list, refund, memory's last cost, gas set aside for a call) and the cost or an error.
\<close>

type_synonym GasRes = "(goerr, Frame \<times> (VMError + u64)) outcome"
type_synonym gasFunc = "EVM \<Rightarrow> u64 \<Rightarrow> Frame \<Rightarrow> GasRes"

definition gas_ok :: "Frame \<Rightarrow> u64 \<Rightarrow> GasRes" where "gas_ok fr g = Ok (fr, Inr g)"
definition gas_err :: "Frame \<Rightarrow> VMError \<Rightarrow> GasRes" where "gas_err fr e = Ok (fr, Inl e)"

definition gas_then :: "GasRes \<Rightarrow> (Frame \<Rightarrow> u64 \<Rightarrow> GasRes) \<Rightarrow> GasRes" where
  "gas_then r k = and_then r (\<lambda>(fr, res). case res of Inl e \<Rightarrow> gas_err fr e | Inr g \<Rightarrow> k fr g)"

text \<open>The checked arithmetic of the gas functions, an overflow being their error.\<close>

definition checked :: "Frame \<Rightarrow> u64 \<times> bool \<Rightarrow> GasRes" where
  "checked fr r = (if snd r then gas_err fr ErrGasUintOverflow else gas_ok fr (fst r))"

definition Uint64WithOverflow :: "u256 \<Rightarrow> u64 \<times> bool" where
  "Uint64WithOverflow x = (u256_Uint64 x, \<not> u256_IsUint64 x)"

definition memoryGasCost :: "Memory \<Rightarrow> u64 \<Rightarrow> Memory \<times> (VMError + u64)" where
  "memoryGasCost mem newMemSize =
     (if newMemSize = 0 then (mem, Inr 0)
      else if newMemSize > 0x1FFFFFFFE0 then (mem, Inl ErrGasUintOverflow)
      else
        let newMemSizeWords = toWordSize newMemSize in
        if newMemSizeWords * 32 > of_nat (length (m_store mem))
        then
          let square = newMemSizeWords * newMemSizeWords;
              linCoef = newMemSizeWords * MemoryGas;
              quadCoef = square div QuadCoeffDiv;
              newTotalFee = linCoef + quadCoef
          in (mem\<lparr>m_lastGasCost := newTotalFee\<rparr>, Inr (newTotalFee - m_lastGasCost mem))
        else (mem, Inr 0))"

definition pureMemoryGascost :: gasFunc where
  "pureMemoryGascost evm memorySize fr =
     (case memoryGasCost (f_mem fr) memorySize of (m, res) \<Rightarrow> Ok (fr\<lparr>f_mem := m\<rparr>, res))"

text \<open>A price per word of the size at a stack position, added to the memory cost.\<close>

definition word_gas :: "u64 \<Rightarrow> nat \<Rightarrow> gasFunc" where
  "word_gas price stackpos evm memorySize fr =
     gas_then (pureMemoryGascost evm memorySize fr) (\<lambda>fr1 gas.
       and_then (st_Back stackpos (f_stack fr1)) (\<lambda>x.
         gas_then (checked fr1 (Uint64WithOverflow x)) (\<lambda>fr2 words.
           gas_then (checked fr2 (SafeMul (toWordSize words) price)) (\<lambda>fr3 words1.
             checked fr3 (SafeAdd gas words1)))))"

definition memoryCopierGas :: "nat \<Rightarrow> gasFunc" where
  "memoryCopierGas stackpos = word_gas CopyGas stackpos"

definition gasKeccak256 :: gasFunc where "gasKeccak256 = word_gas Keccak256WordGas 1"
definition gasCreate2 :: gasFunc where "gasCreate2 = word_gas Keccak256WordGas 2"

definition makeGasLog :: "u64 \<Rightarrow> gasFunc" where
  "makeGasLog n evm memorySize fr =
     and_then (st_Back 1 (f_stack fr)) (\<lambda>x.
       gas_then (checked fr (Uint64WithOverflow x)) (\<lambda>fr0 requestedSize.
         gas_then (pureMemoryGascost evm memorySize fr0) (\<lambda>fr1 gas.
           gas_then (checked fr1 (SafeAdd gas LogGas)) (\<lambda>fr2 gas1.
             gas_then (checked fr2 (SafeAdd gas1 (n * LogTopicGas))) (\<lambda>fr3 gas2.
               gas_then (checked fr3 (SafeMul requestedSize LogDataGas)) (\<lambda>fr4 memorySizeGas.
                 checked fr4 (SafeAdd gas2 memorySizeGas)))))))"

text \<open>\<^verbatim>\<open>gasExpFrontier\<close> and \<^verbatim>\<open>gasExpEIP158\<close> differ in the price per byte of the exponent.\<close>

definition gas_exp :: "u64 \<Rightarrow> gasFunc" where
  "gas_exp byte_price evm memorySize fr =
     and_then (st_Back 1 (f_stack fr)) (\<lambda>x.
       let expByteLen = of_nat ((bit_length (unat x) + 7) div 8)
       in checked fr (SafeAdd (expByteLen * byte_price) ExpGas))"

definition gasExpFrontier :: gasFunc where "gasExpFrontier = gas_exp ExpByteFrontier"
definition gasExpEIP158 :: gasFunc where "gasExpEIP158 = gas_exp ExpByteEIP158"

section \<open>Calls\<close>

definition callGas :: "bool \<Rightarrow> u64 \<Rightarrow> u64 \<Rightarrow> u256 \<Rightarrow> VMError + u64" where
  "callGas isEip150 availableGas base callCost =
     (let gas = (availableGas - base) - (availableGas - base) div 64 in
      if isEip150 \<and> (\<not> u256_IsUint64 callCost \<or> gas < u256_Uint64 callCost) then Inr gas
      else if \<not> u256_IsUint64 callCost then Inl ErrGasUintOverflow
      else Inr (u256_Uint64 callCost))"

text \<open>The common tail of the call costs: set the gas of the call aside and add it to the cost.\<close>

definition with_call_gas :: "EVM \<Rightarrow> u64 \<Rightarrow> Frame \<Rightarrow> GasRes" where
  "with_call_gas evm gas fr =
     and_then (st_Back 0 (f_stack fr)) (\<lambda>x.
       case callGas (IsEIP150 (evm_rules evm)) (c_Gas (f_contract fr)) gas x of
         Inl e \<Rightarrow> gas_err (fr\<lparr>f_callGasTemp := 0\<rparr>) e
       | Inr g \<Rightarrow> checked (fr\<lparr>f_callGasTemp := g\<rparr>) (SafeAdd gas g))"

text \<open>What a call costs before memory and the gas it passes on: a new account, a transfer of value.\<close>

definition call_base :: "EVM \<Rightarrow> bool \<Rightarrow> Address \<Rightarrow> StateDB \<Rightarrow> u64" where
  "call_base evm transfersValue address s =
     (let env = evm_env evm;
          gas = (if IsEIP158 (evm_rules evm)
                 then if transfersValue \<and> sdb_Empty env address s then CallNewAccountGas else 0
                 else if \<not> sdb_Exist env address s then CallNewAccountGas else 0)
      in if transfersValue then gas + CallValueTransferGas else gas)"

definition gasCall :: gasFunc where
  "gasCall evm memorySize fr =
     and_then (st_Back 2 (f_stack fr)) (\<lambda>v. and_then (st_Back 1 (f_stack fr)) (\<lambda>a.
       gas_then (pureMemoryGascost evm memorySize fr) (\<lambda>fr1 memoryGas.
         gas_then (checked fr1 (SafeAdd (call_base evm (v \<noteq> 0) (u256_Bytes20 a) (f_db fr)) memoryGas))
           (\<lambda>fr2 gas. with_call_gas evm gas fr2))))"

definition gasCallCode :: gasFunc where
  "gasCallCode evm memorySize fr =
     gas_then (pureMemoryGascost evm memorySize fr) (\<lambda>fr1 memoryGas.
       and_then (st_Back 2 (f_stack fr1)) (\<lambda>v.
         gas_then (checked fr1 (SafeAdd (if v \<noteq> 0 then CallValueTransferGas else 0) memoryGas)) (\<lambda>fr2 gas.
           with_call_gas evm gas fr2)))"

definition gasDelegateCall :: gasFunc where
  "gasDelegateCall evm memorySize fr =
     gas_then (pureMemoryGascost evm memorySize fr) (\<lambda>fr1 gas. with_call_gas evm gas fr1)"

definition gasStaticCall :: gasFunc where
  "gasStaticCall evm memorySize fr =
     gas_then (pureMemoryGascost evm memorySize fr) (\<lambda>fr1 gas. with_call_gas evm gas fr1)"

definition gasSelfdestruct :: gasFunc where
  "gasSelfdestruct evm memorySize fr =
     and_then (if IsEIP150 (evm_rules evm) then and_then (st_Back 0 (f_stack fr)) (\<lambda>x.
         let address = u256_Bytes20 x; env = evm_env evm; self = c_self (f_contract fr) in
         Ok (SelfdestructGasEIP150 +
           (if IsEIP158 (evm_rules evm)
            then if sdb_Empty env address (f_db fr) \<and> GetBalance env self (f_db fr) \<noteq> 0
                 then CreateBySelfdestructGas else 0
            else if \<not> sdb_Exist env address (f_db fr) then CreateBySelfdestructGas else 0)))
       else Ok 0) (\<lambda>gas.
       gas_ok (if \<not> HasSuicided (evm_env evm) (c_self (f_contract fr)) (f_db fr)
               then fr\<lparr>f_db := sdb_AddRefund SelfdestructRefundGas (f_db fr)\<rparr> else fr) gas)"

section \<open>Storage writes\<close>

text \<open>
  The net-metered rules, which the forks share: \<open>noop\<close>, \<open>init\<close>, \<open>clean\<close> and \<open>dirty\<close> are the costs of
  their cases, \<open>clear\<close>, \<open>resetClear\<close> and \<open>reset\<close> the refunds.
\<close>

record SstorePrices =
  p_noop :: u64
  p_init :: u64
  p_clean :: u64
  p_dirty :: u64
  p_clear :: u64
  p_resetClear :: u64
  p_reset :: u64

definition net_refund :: "SstorePrices \<Rightarrow> Hash \<Rightarrow> Hash \<Rightarrow> Hash \<Rightarrow> StateDB \<Rightarrow> (goerr, StateDB) outcome" where
  "net_refund p original current val s =
     and_then
       (if original \<noteq> zero_hash
        then if current = zero_hash then sdb_SubRefund (p_clear p) s
          else if val = zero_hash then Ok (sdb_AddRefund (p_clear p) s) else Ok s
        else Ok s) (\<lambda>s1.
       Ok (if original = val
           then if original = zero_hash then sdb_AddRefund (p_resetClear p) s1
             else sdb_AddRefund (p_reset p) s1
           else s1))"

definition net_sstore :: "SstorePrices \<Rightarrow> EVM \<Rightarrow> Hash \<Rightarrow> Hash \<Rightarrow> Hash \<Rightarrow> Frame \<Rightarrow> GasRes" where
  "net_sstore p evm slot current val fr =
     (if current = val then gas_ok fr (p_noop p)
      else
        let original = GetCommittedState (evm_env evm) (c_self (f_contract fr)) slot (f_db fr) in
        if original = current
        then if original = zero_hash then gas_ok fr (p_init p)
          else gas_ok (if val = zero_hash then fr\<lparr>f_db := sdb_AddRefund (p_clear p) (f_db fr)\<rparr> else fr)
                 (p_clean p)
        else and_then (net_refund p original current val (f_db fr)) (\<lambda>s.
          gas_ok (fr\<lparr>f_db := s\<rparr>) (p_dirty p)))"

definition gasSStore :: gasFunc where
  "gasSStore evm memorySize fr =
     and_then (st_Back 1 (f_stack fr)) (\<lambda>y. and_then (st_Back 0 (f_stack fr)) (\<lambda>x.
       let current = GetState (evm_env evm) (c_self (f_contract fr)) (u256_Bytes32 x) (f_db fr) in
       if IsPetersburg (evm_rules evm) \<or> \<not> IsConstantinople (evm_rules evm)
       then if current = zero_hash \<and> y \<noteq> 0 then gas_ok fr SstoreSetGas
         else if current \<noteq> zero_hash \<and> y = 0
           then gas_ok (fr\<lparr>f_db := sdb_AddRefund SstoreRefundGas (f_db fr)\<rparr>) SstoreClearGas
         else gas_ok fr SstoreResetGas
       else net_sstore
         \<lparr>p_noop = NetSstoreNoopGas, p_init = NetSstoreInitGas, p_clean = NetSstoreCleanGas,
          p_dirty = NetSstoreDirtyGas, p_clear = NetSstoreClearRefund,
          p_resetClear = NetSstoreResetClearRefund, p_reset = NetSstoreResetRefund\<rparr>
         evm (u256_Bytes32 x) current (u256_Bytes32 y) fr))"

definition gasSStoreEIP2200 :: gasFunc where
  "gasSStoreEIP2200 evm memorySize fr =
     (if c_Gas (f_contract fr) \<le> SstoreSentryGasEIP2200
      then gas_err fr (ErrText ''not enough gas for reentrancy sentry'')
      else and_then (st_Back 1 (f_stack fr)) (\<lambda>y. and_then (st_Back 0 (f_stack fr)) (\<lambda>x.
        let current = GetState (evm_env evm) (c_self (f_contract fr)) (u256_Bytes32 x) (f_db fr) in
        net_sstore
          \<lparr>p_noop = SloadGasEIP2200, p_init = SstoreSetGasEIP2200, p_clean = SstoreResetGasEIP2200,
           p_dirty = SloadGasEIP2200, p_clear = SstoreClearsScheduleRefundEIP2200,
           p_resetClear = SstoreSetGasEIP2200 - SloadGasEIP2200,
           p_reset = SstoreResetGasEIP2200 - SloadGasEIP2200\<rparr>
          evm (u256_Bytes32 x) current (u256_Bytes32 y) fr)))"

section \<open>Access lists\<close>

definition makeGasSStoreFunc :: "u64 \<Rightarrow> gasFunc" where
  "makeGasSStoreFunc clearingRefund evm memorySize fr =
     (if c_Gas (f_contract fr) \<le> SstoreSentryGasEIP2200
      then gas_err fr (ErrText ''not enough gas for reentrancy sentry'')
      else and_then (st_Back 1 (f_stack fr)) (\<lambda>y. and_then (st_peek (f_stack fr)) (\<lambda>x.
        let self = c_self (f_contract fr); slot = u256_Bytes32 x;
            current = GetState (evm_env evm) self slot (f_db fr)
        in and_then (SlotInAccessList self slot (f_db fr)) (\<lambda>(addrPresent, slotPresent).
        and_then
          (if \<not> slotPresent
           then and_then (AddSlotToAccessList self slot (f_db fr)) (\<lambda>s.
             if \<not> addrPresent then Panic else Ok (ColdSloadCostEIP2929, fr\<lparr>f_db := s\<rparr>))
           else Ok (0, fr)) (\<lambda>(cost, fr1).
          net_sstore
            \<lparr>p_noop = cost + WarmStorageReadCostEIP2929, p_init = cost + SstoreSetGasEIP2200,
             p_clean = cost + (SstoreResetGasEIP2200 - ColdSloadCostEIP2929),
             p_dirty = cost + WarmStorageReadCostEIP2929, p_clear = clearingRefund,
             p_resetClear = SstoreSetGasEIP2200 - WarmStorageReadCostEIP2929,
             p_reset = (SstoreResetGasEIP2200 - ColdSloadCostEIP2929) - WarmStorageReadCostEIP2929\<rparr>
            evm slot current (u256_Bytes32 y) fr1)))))"

definition gasSLoadEIP2929 :: gasFunc where
  "gasSLoadEIP2929 evm memorySize fr =
     and_then (st_peek (f_stack fr)) (\<lambda>loc.
       let self = c_self (f_contract fr); slot = u256_Bytes32 loc in
       and_then (SlotInAccessList self slot (f_db fr)) (\<lambda>(addrPresent, slotPresent).
         if \<not> slotPresent
         then and_then (AddSlotToAccessList self slot (f_db fr)) (\<lambda>s.
           gas_ok (fr\<lparr>f_db := s\<rparr>) ColdSloadCostEIP2929)
         else gas_ok fr WarmStorageReadCostEIP2929))"

definition gasExtCodeCopyEIP2929 :: gasFunc where
  "gasExtCodeCopyEIP2929 evm memorySize fr =
     gas_then (memoryCopierGas 3 evm memorySize fr) (\<lambda>fr1 gas.
       and_then (st_peek (f_stack fr1)) (\<lambda>x.
         let addr = u256_Bytes20 x in
         if \<not> AddressInAccessList addr (f_db fr1)
         then checked (fr1\<lparr>f_db := AddAddressToAccessList addr (f_db fr1)\<rparr>)
                (SafeAdd gas (ColdAccountAccessCostEIP2929 - WarmStorageReadCostEIP2929))
         else gas_ok fr1 gas))"

definition gasEip2929AccountCheck :: gasFunc where
  "gasEip2929AccountCheck evm memorySize fr =
     and_then (st_peek (f_stack fr)) (\<lambda>x.
       let addr = u256_Bytes20 x in
       if \<not> AddressInAccessList addr (f_db fr)
       then gas_ok (fr\<lparr>f_db := AddAddressToAccessList addr (f_db fr)\<rparr>)
              (ColdAccountAccessCostEIP2929 - WarmStorageReadCostEIP2929)
       else gas_ok fr 0)"

definition makeCallVariantGasCallEIP2929 :: "gasFunc \<Rightarrow> gasFunc" where
  "makeCallVariantGasCallEIP2929 oldCalculator evm memorySize fr =
     and_then (st_Back 1 (f_stack fr)) (\<lambda>x.
       let addr = u256_Bytes20 x;
           coldCost = ColdAccountAccessCostEIP2929 - WarmStorageReadCostEIP2929;
           c = f_contract fr
       in if AddressInAccessList addr (f_db fr) then oldCalculator evm memorySize fr
          else
            let fr0 = fr\<lparr>f_db := AddAddressToAccessList addr (f_db fr)\<rparr> in
            case UseGas coldCost (c_Gas c) of
              None \<Rightarrow> gas_err fr0 ErrOutOfGas
            | Some g \<Rightarrow>
                gas_then (oldCalculator evm memorySize (fr0\<lparr>f_contract := c\<lparr>c_Gas := g\<rparr>\<rparr>)) (\<lambda>fr1 gas.
                  gas_ok (fr1\<lparr>f_contract := (f_contract fr1)\<lparr>c_Gas := c_Gas (f_contract fr1) + coldCost\<rparr>\<rparr>)
                    (gas + coldCost)))"

definition makeSelfdestructGasFn :: "bool \<Rightarrow> gasFunc" where
  "makeSelfdestructGasFn refundsEnabled evm memorySize fr =
     and_then (st_peek (f_stack fr)) (\<lambda>x.
       let address = u256_Bytes20 x; env = evm_env evm; self = c_self (f_contract fr);
           warm = AddressInAccessList address (f_db fr);
           s1 = (if warm then f_db fr else AddAddressToAccessList address (f_db fr));
           gas0 = (if warm then 0 else ColdAccountAccessCostEIP2929);
           gas1 = (if sdb_Empty env address s1 \<and> GetBalance env self s1 \<noteq> 0
                   then gas0 + CreateBySelfdestructGas else gas0);
           s2 = (if refundsEnabled \<and> \<not> HasSuicided env self s1
                 then sdb_AddRefund SelfdestructRefundGas s1 else s1)
       in gas_ok (fr\<lparr>f_db := s2\<rparr>) gas1)"

definition gasCallEIP2929 :: gasFunc where
  "gasCallEIP2929 = makeCallVariantGasCallEIP2929 gasCall"
definition gasDelegateCallEIP2929 :: gasFunc where
  "gasDelegateCallEIP2929 = makeCallVariantGasCallEIP2929 gasDelegateCall"
definition gasStaticCallEIP2929 :: gasFunc where
  "gasStaticCallEIP2929 = makeCallVariantGasCallEIP2929 gasStaticCall"
definition gasCallCodeEIP2929 :: gasFunc where
  "gasCallCodeEIP2929 = makeCallVariantGasCallEIP2929 gasCallCode"
definition gasSelfdestructEIP2929 :: gasFunc where
  "gasSelfdestructEIP2929 = makeSelfdestructGasFn True"
definition gasSelfdestructEIP3529 :: gasFunc where
  "gasSelfdestructEIP3529 = makeSelfdestructGasFn False"
definition gasSStoreEIP2929 :: gasFunc where
  "gasSStoreEIP2929 = makeGasSStoreFunc SstoreClearsScheduleRefundEIP2200"
definition gasSStoreEIP3529 :: gasFunc where
  "gasSStoreEIP3529 = makeGasSStoreFunc SstoreClearsScheduleRefundEIP3529"

section \<open>Memory sizes\<close>

type_synonym memorySizeFunc = "Stack \<Rightarrow> (goerr, u64 \<times> bool) outcome"

text \<open>The size that covers a range given by two stack positions.\<close>

definition mem_range :: "nat \<Rightarrow> nat \<Rightarrow> memorySizeFunc" where
  "mem_range off len st =
     and_then (st_Back off st) (\<lambda>o1. and_then (st_Back len st) (\<lambda>l. Ok (calcMemSize64 o1 l)))"

definition mem_fixed :: "u64 \<Rightarrow> memorySizeFunc" where
  "mem_fixed n st = and_then (st_Back 0 st) (\<lambda>o1. Ok (calcMemSize64WithUint o1 n))"

text \<open>The larger of two ranges, the return area looked at first.\<close>

definition mem_ranges :: "nat \<Rightarrow> nat \<Rightarrow> nat \<Rightarrow> nat \<Rightarrow> memorySizeFunc" where
  "mem_ranges ro rl ao al st =
     and_then (mem_range ro rl st) (\<lambda>(x, overflow).
       if overflow then Ok (0, True)
       else and_then (mem_range ao al st) (\<lambda>(y, overflow1).
         if overflow1 then Ok (0, True) else Ok (if x > y then x else y, False)))"

definition memoryKeccak256 :: memorySizeFunc where "memoryKeccak256 = mem_range 0 1"
definition memoryCallDataCopy :: memorySizeFunc where "memoryCallDataCopy = mem_range 0 2"
definition memoryReturnDataCopy :: memorySizeFunc where "memoryReturnDataCopy = mem_range 0 2"
definition memoryCodeCopy :: memorySizeFunc where "memoryCodeCopy = mem_range 0 2"
definition memoryExtCodeCopy :: memorySizeFunc where "memoryExtCodeCopy = mem_range 1 3"
definition memoryMLoad :: memorySizeFunc where "memoryMLoad = mem_fixed 32"
definition memoryMStore8 :: memorySizeFunc where "memoryMStore8 = mem_fixed 1"
definition memoryMStore :: memorySizeFunc where "memoryMStore = mem_fixed 32"
definition memoryCreate :: memorySizeFunc where "memoryCreate = mem_range 1 2"
definition memoryCreate2 :: memorySizeFunc where "memoryCreate2 = mem_range 1 2"
definition memoryCall :: memorySizeFunc where "memoryCall = mem_ranges 5 6 3 4"
definition memoryDelegateCall :: memorySizeFunc where "memoryDelegateCall = mem_ranges 4 5 2 3"
definition memoryStaticCall :: memorySizeFunc where "memoryStaticCall = mem_ranges 4 5 2 3"
definition memoryReturn :: memorySizeFunc where "memoryReturn = mem_range 0 1"
definition memoryRevert :: memorySizeFunc where "memoryRevert = mem_range 0 1"
definition memoryLog :: memorySizeFunc where "memoryLog = mem_range 0 1"

section \<open>Memory is paid for\<close>

text \<open>The fee for a memory of a number of bytes, and the memories the interpreter has: what was paid
  never exceeds the fee for the size.\<close>

definition mem_fee :: "nat \<Rightarrow> nat" where
  "mem_fee n = 3 * (n div 32) + (n div 32)\<^sup>2 div 512"

definition mem_wf :: "Memory \<Rightarrow> bool" where
  "mem_wf m \<longleftrightarrow> unat (m_lastGasCost m) \<le> mem_fee (length (m_store m)) \<and> length (m_store m) \<le> 0x1FFFFFFFE0"

lemma NewMemory_wf: "mem_wf NewMemory"
  by (simp add: mem_wf_def NewMemory_def)

lemma mem_wf_shape: "mem_shape m1 = mem_shape m \<Longrightarrow> mem_wf m1 = mem_wf m"
  by (simp add: mem_wf_def mem_shape_def)

lemma mem_fee_mono: "m \<le> n \<Longrightarrow> mem_fee m \<le> mem_fee n"
  unfolding mem_fee_def by (intro add_mono mult_le_mono div_le_mono power_mono) auto

lemma mem_fee_bound: "n \<le> 0x1FFFFFFFE0 \<Longrightarrow> mem_fee n < 2 ^ 56"
proof -
  assume "n \<le> 0x1FFFFFFFE0"
  then have "mem_fee n \<le> mem_fee 0x1FFFFFFFE0" by (rule mem_fee_mono)
  also have "\<dots> < 2 ^ 56" by (simp add: mem_fee_def)
  finally show ?thesis .
qed

lemma toWordSize_small:
  assumes "ms \<le> 0x1FFFFFFFE0"
  shows "unat (toWordSize ms) = (unat ms + 31) div 32"
proof -
  have m: "unat ms \<le> 0x1FFFFFFFE0" using assms by (simp add: word_le_nat_alt)
  have "unat (ms + 31) = unat ms + 31" using m by (simp add: unat_word_ariths)
  then show ?thesis
    using m by (simp add: toWordSize_def unat_div word_less_nat_alt)
qed

lemma fee_words:
  fixes w :: u64
  assumes "unat w \<le> 0xFFFFFFFF"
  shows "unat (w * MemoryGas + w * w div QuadCoeffDiv) = 3 * unat w + (unat w)\<^sup>2 div 512"
proof -
  have sq: "unat w * unat w \<le> 0xFFFFFFFF * 0xFFFFFFFF" using assms by (intro mult_le_mono) auto
  have "unat (w * w) = unat w * unat w" using sq by (simp add: unat_word_ariths)
  moreover have "unat (w * 3) = unat w * 3" using assms by (simp add: unat_word_ariths)
  moreover have "unat w * unat w div 512 \<le> 0xFFFFFFFF * 0xFFFFFFFF div 512" using sq by (rule div_le_mono)
  ultimately show ?thesis
    using assms by (simp add: MemoryGas_def QuadCoeffDiv_def unat_word_ariths unat_div power2_eq_square)
qed

definition charged :: "u64 \<Rightarrow> Memory \<Rightarrow> Memory" where
  "charged ms m = (if ms > 0 then mem_Resize ms m else m)"

lemma Resize_length:
  assumes "length (m_store m) < 2 ^ 64"
  shows "length (m_store (mem_Resize ms m)) = max (length (m_store m)) (unat ms)"
proof -
  have l: "unat (of_nat (length (m_store m)) :: u64) = length (m_store m)"
    using assms by (simp add: unat_of_nat take_bit_nat_eq_self)
  show ?thesis
  proof (cases "of_nat (length (m_store m)) < ms")
    case True
    then have "unat (ms - of_nat (length (m_store m))) = unat ms - length (m_store m)"
      using l by (simp add: unat_sub_le less_imp_le)
    then show ?thesis using True l by (simp add: mem_Resize_def word_less_nat_alt)
  next
    case False
    then have "unat ms \<le> length (m_store m)" using l by (simp add: word_less_nat_alt)
    then show ?thesis using False by (simp add: mem_Resize_def)
  qed
qed

lemma Resize_last [simp]: "m_lastGasCost (mem_Resize ms m) = m_lastGasCost m"
  by (simp add: mem_Resize_def)

lemma memoryGasCost_law:
  assumes wf: "mem_wf m" and cost: "memoryGasCost m ms = (m1, Inr g)" and words: "32 dvd unat ms"
  shows "m_store m1 = m_store m \<and> unat g < 2 ^ 56 \<and> mem_wf (charged ms m1)"
proof (cases "ms = 0")
  case True
  then show ?thesis using cost wf by (simp add: memoryGasCost_def charged_def)
next
  case False
  let ?l = "length (m_store m)" and ?w = "toWordSize ms"
  have small: "ms \<le> 0x1FFFFFFFE0" using False cost by (auto simp: memoryGasCost_def split: if_splits)
  have n: "unat ms \<le> 0x1FFFFFFFE0" using small by (simp add: word_le_nat_alt)
  have w: "unat ?w = unat ms div 32" using toWordSize_small [OF small] words by auto
  have w32: "unat (?w * 32) = unat ms" using w words n by (simp add: unat_word_ariths)
  have len: "?l < 2 ^ 64" "unat (of_nat ?l :: u64) = ?l"
    using wf by (simp_all add: mem_wf_def unat_of_nat take_bit_nat_eq_self)
  have rs: "length (m_store (mem_Resize ms m)) = max ?l (unat ms)" by (rule Resize_length [OF len(1)])
  have fee: "unat (?w * MemoryGas + ?w * ?w div QuadCoeffDiv) = mem_fee (unat ms)"
    using fee_words [of ?w] w n by (simp add: mem_fee_def)
  show ?thesis
  proof (cases "?w * 32 > of_nat ?l")
    case True
    then have big: "?l < unat ms" using w32 len(2) by (simp add: word_less_nat_alt)
    let ?m = "m\<lparr>m_lastGasCost := ?w * MemoryGas + ?w * ?w div QuadCoeffDiv\<rparr>"
    have eq: "m1 = ?m" "g = ?w * MemoryGas + ?w * ?w div QuadCoeffDiv - m_lastGasCost m"
      using cost True False small by (simp_all add: memoryGasCost_def Let_def split: if_split_asm)
    have "unat (m_lastGasCost m) \<le> mem_fee (unat ms)"
      using wf big mem_fee_mono [of ?l "unat ms"] by (simp add: mem_wf_def)
    then have "unat g \<le> mem_fee (unat ms)" using fee eq(2) by (simp add: unat_sub_le word_le_nat_alt)
    moreover have "length (m_store (mem_Resize ms ?m)) = unat ms"
      using Resize_length [of ?m ms] len(1) big by simp
    ultimately show ?thesis
      using eq(1) False fee n mem_fee_bound [OF n] by (simp add: mem_wf_def charged_def word_greater_zero_iff)
  next
    case no: False
    then have "m1 = m" "g = 0" using cost no False small by (simp_all add: memoryGasCost_def Let_def split: if_split_asm)
    moreover have "unat ms \<le> ?l" using no w32 len(2) by (simp add: word_less_nat_alt)
    ultimately show ?thesis using wf rs by (simp add: mem_wf_def charged_def)
  qed
qed

section \<open>What the gas functions guarantee\<close>

text \<open>
  A cost leaves the stack and the gas of the frame, covers \<open>bonus\<close> (what the instruction may give
  back) and \<open>base\<close> on top of it, and has paid for the memory of the instruction.
\<close>

definition gas_law :: "bool \<Rightarrow> (Frame \<Rightarrow> nat) \<Rightarrow> nat \<Rightarrow> gasFunc \<Rightarrow> bool" where
  "gas_law mem bonus base dyn \<longleftrightarrow> (\<forall>evm ms fr fr1 g. IsEIP150 (evm_rules evm) \<longrightarrow> mem_wf (f_mem fr) \<longrightarrow>
     (if mem then 32 dvd unat ms else ms = 0) \<longrightarrow> dyn evm ms fr = Ok (fr1, Inr g) \<longrightarrow>
       f_stack fr1 = f_stack fr \<and> c_Gas (f_contract fr1) = c_Gas (f_contract fr)
       \<and> base + bonus fr1 \<le> unat g \<and> mem_wf (charged ms (f_mem fr1)))"

lemma gas_then_Ok: "gas_then r k = Ok (fr, Inr g) \<longleftrightarrow> (\<exists>fr0 g0. r = Ok (fr0, Inr g0) \<and> k fr0 g0 = Ok (fr, Inr g))"
  by (cases r) (auto simp: gas_then_def gas_err_def split: sum.splits)

lemma checked_Ok: "checked fr r = Ok (fr1, Inr g) \<longleftrightarrow> fr1 = fr \<and> \<not> snd r \<and> g = fst r"
  by (auto simp: checked_def gas_err_def gas_ok_def)

lemma gas_ok_Ok: "gas_ok fr g = Ok (fr1, Inr g1) \<longleftrightarrow> fr1 = fr \<and> g1 = g"
  by (auto simp: gas_ok_def)

lemma gas_err_Ok: "gas_err fr e \<noteq> Ok (fr1, Inr g)"
  by (simp add: gas_err_def)

lemma pureMemoryGascost_Ok:
  "pureMemoryGascost evm ms fr = Ok (fr1, Inr g) \<longleftrightarrow>
     (\<exists>m. memoryGasCost (f_mem fr) ms = (m, Inr g) \<and> fr1 = fr\<lparr>f_mem := m\<rparr>)"
  by (auto simp: pureMemoryGascost_def split: prod.split)

lemma SafeAdd_sum: "\<not> snd (SafeAdd a b) \<Longrightarrow> unat (fst (SafeAdd a b)) = unat a + unat b"
  by (simp add: SafeAdd_def unat_word_ariths)

lemmas gas_simps = gas_then_Ok checked_Ok gas_ok_Ok gas_err_Ok pureMemoryGascost_Ok

lemma pure_memory_law: "gas_law True (\<lambda>_. 0) 0 pureMemoryGascost"
  by (auto simp: gas_law_def gas_simps dest: memoryGasCost_law)

lemma word_gas_law: "gas_law True (\<lambda>_. 0) 0 (word_gas price k)"
  by (auto simp: gas_law_def word_gas_def gas_simps outcome_simps dest: memoryGasCost_law)

lemma log_law: "gas_law True (\<lambda>_. 0) 1 (makeGasLog n)"
  by (auto simp: gas_law_def makeGasLog_def gas_simps outcome_simps LogGas_def
      dest: memoryGasCost_law dest!: SafeAdd_sum)

lemma exp_law: "gas_law False (\<lambda>_. 0) 1 (gas_exp price)"
  by (auto simp: gas_law_def gas_exp_def gas_simps outcome_simps ExpGas_def charged_def dest!: SafeAdd_sum)

lemma net_sstore_Ok:
  assumes "net_sstore p evm slot current val fr = Ok (fr1, Inr g)"
  shows "f_stack fr1 = f_stack fr \<and> f_contract fr1 = f_contract fr \<and> f_mem fr1 = f_mem fr
    \<and> (g = p_noop p \<or> g = p_init p \<or> g = p_clean p \<or> g = p_dirty p)"
  using assms by (auto simp: net_sstore_def gas_simps outcome_simps Let_def split: if_splits)

lemma net_sstore_law:
  assumes "net_sstore p evm slot current val fr = Ok (fr1, Inr g)"
    and "0 < p_noop p" "0 < p_init p" "0 < p_clean p" "0 < p_dirty p"
  shows "f_stack fr1 = f_stack fr \<and> c_Gas (f_contract fr1) = c_Gas (f_contract fr) \<and> f_mem fr1 = f_mem fr
    \<and> 0 < unat g"
  using net_sstore_Ok [OF assms(1)] assms(2-) by (auto simp: word_less_nat_alt)

lemma sstore_law: "gas_law False (\<lambda>_. 0) 1 gasSStore"
proof -
  have "f_stack fr1 = f_stack fr \<and> c_Gas (f_contract fr1) = c_Gas (f_contract fr) \<and> f_mem fr1 = f_mem fr
    \<and> 0 < unat g" if cost: "gasSStore evm ms fr = Ok (fr1, Inr g)" for evm ms fr fr1 g
  proof -
    obtain x y where "st_Back 1 (f_stack fr) = Ok y" "st_Back 0 (f_stack fr) = Ok x"
      using cost by (auto simp: gasSStore_def outcome_simps)
    then show ?thesis
      using cost
      by (auto simp: gasSStore_def Let_def gas_simps gas_prices split: if_split_asm dest!: net_sstore_law)
  qed
  then show ?thesis by (auto simp: gas_law_def charged_def Suc_le_eq)
qed

lemma sstore2200_law: "gas_law False (\<lambda>_. 0) 1 gasSStoreEIP2200"
proof -
  have "f_stack fr1 = f_stack fr \<and> c_Gas (f_contract fr1) = c_Gas (f_contract fr) \<and> f_mem fr1 = f_mem fr
    \<and> 0 < unat g" if cost: "gasSStoreEIP2200 evm ms fr = Ok (fr1, Inr g)" for evm ms fr fr1 g
  proof -
    obtain x y where "st_Back 1 (f_stack fr) = Ok y" "st_Back 0 (f_stack fr) = Ok x"
      using cost by (auto simp: gasSStoreEIP2200_def outcome_simps gas_simps split: if_split_asm)
    then show ?thesis
      using cost
      by (auto simp: gasSStoreEIP2200_def Let_def gas_simps gas_prices split: if_split_asm dest!: net_sstore_law)
  qed
  then show ?thesis by (auto simp: gas_law_def charged_def Suc_le_eq)
qed

lemma sstore2929_law: "gas_law False (\<lambda>_. 0) 1 (makeGasSStoreFunc refund)"
proof -
  have "f_stack fr1 = f_stack fr \<and> c_Gas (f_contract fr1) = c_Gas (f_contract fr) \<and> f_mem fr1 = f_mem fr
    \<and> 0 < unat g" if cost: "makeGasSStoreFunc refund evm ms fr = Ok (fr1, Inr g)" for evm ms fr fr1 g
  proof -
    obtain p fr0 slot current val where "net_sstore p evm slot current val fr0 = Ok (fr1, Inr g)"
      and "0 < p_noop p" "0 < p_init p" "0 < p_clean p" "0 < p_dirty p"
      and "f_stack fr0 = f_stack fr" "f_contract fr0 = f_contract fr" "f_mem fr0 = f_mem fr"
      using cost unfolding makeGasSStoreFunc_def gas_prices
      by (auto simp: gas_simps outcome_simps Let_def split: if_split_asm)
    then show ?thesis using net_sstore_law by metis
  qed
  then show ?thesis by (auto simp: gas_law_def charged_def Suc_le_eq)
qed

lemma sload_law: "gas_law False (\<lambda>_. 0) 1 gasSLoadEIP2929"
  by (auto simp: gas_law_def gasSLoadEIP2929_def gas_simps outcome_simps Let_def charged_def gas_prices
      split: if_split_asm)

lemma account_check_law: "gas_law False (\<lambda>_. 0) 0 gasEip2929AccountCheck"
  by (auto simp: gas_law_def gasEip2929AccountCheck_def gas_simps outcome_simps Let_def charged_def
      split: if_split_asm)

lemma extcodecopy_law: "gas_law True (\<lambda>_. 0) 0 gasExtCodeCopyEIP2929"
  by (auto simp: gas_law_def gasExtCodeCopyEIP2929_def memoryCopierGas_def word_gas_def gas_simps outcome_simps
      Let_def split: if_split_asm dest: memoryGasCost_law)

lemma selfdestruct_law: "gas_law False (\<lambda>_. 0) 0 gasSelfdestruct"
  unfolding gas_law_def gasSelfdestruct_def and_then_eq_Ok gas_ok_Ok by (auto simp: charged_def)

lemma selfdestruct2929_db:
  "makeSelfdestructGasFn b evm ms fr = Ok (fr1, Inr g) \<Longrightarrow> \<exists>s. fr1 = fr\<lparr>f_db := s\<rparr>"
  unfolding makeSelfdestructGasFn_def and_then_eq_Ok Let_def gas_ok_Ok by blast

lemma selfdestruct2929_law: "gas_law False (\<lambda>_. 0) 0 (makeSelfdestructGasFn b)"
  by (auto simp: gas_law_def charged_def dest!: selfdestruct2929_db)

section \<open>The cost of a call covers the gas it passes on\<close>

lemma callGas_bound: "callGas True a b x = Inr t \<Longrightarrow> t \<le> (a - b) - (a - b) div 64"
  by (auto simp: callGas_def Let_def split: if_splits)

text \<open>
  The subtraction in \<^verbatim>\<open>callGas\<close> wraps when the base cost exceeds the gas at hand; the sum then stays
  clear of the wrap-around, and far above any gas there is.
\<close>

lemma callGas_sum:
  assumes "callGas True a b x = Inr t" and "unat b < 2 ^ 57"
  shows "unat b + unat t \<le> unat a \<or> unat b + unat t < 2 ^ 64 - 2 ^ 56"
proof -
  have t: "unat t \<le> unat (a - b) - unat (a - b) div 64"
    using callGas_bound [OF assms(1)] gas_part_le [of "a - b"] by (simp add: word_le_nat_alt unat_sub_le unat_div)
  show ?thesis
  proof (cases "b \<le> a")
    case True
    then have "unat (a - b) = unat a - unat b" "unat b \<le> unat a" by (simp_all add: unat_sub_le word_le_nat_alt)
    then have "unat b + unat t \<le> unat a" using t by linarith
    then show ?thesis ..
  next
    case False
    then have lt: "unat a < unat b" by (simp add: word_le_nat_alt)
    have b: "unat b < 2 ^ 64" using unat_bound [of b] by simp
    then have e: "a - b = of_nat (2 ^ 64 + unat a - unat b)" by (simp add: of_nat_diff)
    have "unat (a - b) = (2 ^ 64 + unat a - unat b) mod 2 ^ 64" by (simp only: e unat_of_nat take_bit_nat_def) simp
    also have "\<dots> = 2 ^ 64 + unat a - unat b" using lt b by (intro mod_less) simp
    finally have "unat (a - b) = 2 ^ 64 + unat a - unat b" .
    then show ?thesis using t lt assms(2) by simp
  qed
qed

lemma with_call_gas_Ok:
  assumes "with_call_gas evm b fr = Ok (fr1, Inr g)" and "IsEIP150 (evm_rules evm)" and "unat b < 2 ^ 57"
  shows "\<exists>t. fr1 = fr\<lparr>f_callGasTemp := t\<rparr> \<and> unat g = unat b + unat t
    \<and> (unat g \<le> unat (c_Gas (f_contract fr)) \<or> unat g < 2 ^ 64 - 2 ^ 56)"
proof -
  let ?c = "\<lambda>x. callGas True (c_Gas (f_contract fr)) b x"
  obtain x where x: "(case ?c x of Inl e \<Rightarrow> gas_err (fr\<lparr>f_callGasTemp := 0\<rparr>) e
      | Inr t \<Rightarrow> checked (fr\<lparr>f_callGasTemp := t\<rparr>) (SafeAdd b t)) = Ok (fr1, Inr g)"
    using assms(1,2) by (auto simp only: with_call_gas_def and_then_eq_Ok)
  show ?thesis
  proof (cases "?c x")
    case (Inl e)
    then show ?thesis using x by (simp add: gas_simps)
  next
    case (Inr t)
    then have "fr1 = fr\<lparr>f_callGasTemp := t\<rparr>" "\<not> snd (SafeAdd b t)" "g = fst (SafeAdd b t)"
      using x by (simp_all add: gas_simps)
    then show ?thesis using callGas_sum [OF Inr assms(3)] SafeAdd_sum [of b t] by auto
  qed
qed

definition call_law :: "(Frame \<Rightarrow> nat) \<Rightarrow> gasFunc \<Rightarrow> bool" where
  "call_law bonus dyn \<longleftrightarrow> (\<forall>evm ms fr fr1 g. IsEIP150 (evm_rules evm) \<longrightarrow> mem_wf (f_mem fr) \<longrightarrow> 32 dvd unat ms \<longrightarrow>
     dyn evm ms fr = Ok (fr1, Inr g) \<longrightarrow>
       f_stack fr1 = f_stack fr \<and> f_contract fr1 = f_contract fr \<and> bonus fr1 \<le> unat g
       \<and> mem_wf (charged ms (f_mem fr1))
       \<and> (unat g \<le> unat (c_Gas (f_contract fr)) \<or> unat g < 2 ^ 64 - 2 ^ 56))"

lemma delegate_call_law: "call_law set_aside gasDelegateCall" "call_law set_aside gasStaticCall"
  unfolding call_law_def gasDelegateCall_def gasStaticCall_def
  by (auto simp: gas_simps set_aside_def dest!: with_call_gas_Ok dest: memoryGasCost_law)

text \<open>A call that carries value costs more than the stipend it adds.\<close>

lemma value_call_law:
  assumes mem: "mem_wf (f_mem fr)" "32 dvd unat ms" "pureMemoryGascost evm ms fr = Ok (fr1, Inr mg)"
    and add: "checked fr1 (SafeAdd gas1 mg) = Ok (fr2, Inr b)"
    and call: "with_call_gas evm b fr2 = Ok (fr3, Inr g)" and eip: "IsEIP150 (evm_rules evm)"
    and v: "st_Back 2 (f_stack fr) = Ok v" and gas1: "v \<noteq> 0 \<longrightarrow> 2300 \<le> unat gas1" "unat gas1 \<le> 34000"
  shows "f_stack fr3 = f_stack fr \<and> f_contract fr3 = f_contract fr \<and> set_aside_value fr3 \<le> unat g
    \<and> mem_wf (charged ms (f_mem fr3))
    \<and> (unat g \<le> unat (c_Gas (f_contract fr)) \<or> unat g < 2 ^ 64 - 2 ^ 56)"
proof -
  obtain m where m: "memoryGasCost (f_mem fr) ms = (m, Inr mg)" "fr1 = fr\<lparr>f_mem := m\<rparr>"
    using mem(3) by (auto simp: gas_simps)
  have law: "unat mg < 2 ^ 56" "mem_wf (charged ms m)" using memoryGasCost_law [OF mem(1) m(1) mem(2)] by auto
  have b: "fr2 = fr1" "unat b = unat gas1 + unat mg" using add SafeAdd_sum by (auto simp: gas_simps)
  then have "unat b < 2 ^ 57" using gas1(2) law(1) by simp
  then obtain t where t: "fr3 = fr2\<lparr>f_callGasTemp := t\<rparr>" "unat g = unat b + unat t"
    "unat g \<le> unat (c_Gas (f_contract fr2)) \<or> unat g < 2 ^ 64 - 2 ^ 56"
    using with_call_gas_Ok [OF call eip] by blast
  have "f_stack fr ! 2 = v" using v by (simp add: st_Back_def outcome_simps)
  then have "set_aside_value fr3 \<le> unat g"
    using gas1(1) t(1,2) b m(2) by (auto simp: set_aside_value_def)
  then show ?thesis using t b m(2) law(2) by auto
qed

lemma call_code_law: "call_law set_aside_value gasCallCode"
  unfolding call_law_def gasCallCode_def
proof (intro allI impI)
  fix evm ms fr fr1 g
  assume eip: "IsEIP150 (evm_rules evm)" and mem: "mem_wf (f_mem fr)" "32 dvd unat ms"
    and cost: "gas_then (pureMemoryGascost evm ms fr) (\<lambda>fr1 memoryGas.
      and_then (st_Back 2 (f_stack fr1)) (\<lambda>v.
        gas_then (checked fr1 (SafeAdd (if v \<noteq> 0 then CallValueTransferGas else 0) memoryGas))
          (\<lambda>fr2 gas. with_call_gas evm gas fr2))) = Ok (fr1, Inr g)"
  obtain fr0 mg v fr2 b where c: "pureMemoryGascost evm ms fr = Ok (fr0, Inr mg)" "st_Back 2 (f_stack fr0) = Ok v"
      "checked fr0 (SafeAdd (if v \<noteq> 0 then CallValueTransferGas else 0) mg) = Ok (fr2, Inr b)"
      "with_call_gas evm b fr2 = Ok (fr1, Inr g)"
    using cost by (auto simp only: gas_then_Ok and_then_eq_Ok)
  have "f_stack fr0 = f_stack fr" using c(1) by (auto simp: gas_simps)
  then show "f_stack fr1 = f_stack fr \<and> f_contract fr1 = f_contract fr \<and> set_aside_value fr1 \<le> unat g
    \<and> mem_wf (charged ms (f_mem fr1)) \<and> (unat g \<le> unat (c_Gas (f_contract fr)) \<or> unat g < 2 ^ 64 - 2 ^ 56)"
    using c(2) by (intro value_call_law [OF mem c(1,3,4) eip, of v]) (auto simp: CallValueTransferGas_def)
qed

lemma call_base_bounds:
  "transfers \<longrightarrow> 2300 \<le> unat (call_base evm transfers a s)" "unat (call_base evm transfers a s) \<le> 34000"
  by (auto simp: call_base_def Let_def CallNewAccountGas_def CallValueTransferGas_def)

lemma gas_call_law: "call_law set_aside_value gasCall"
  unfolding call_law_def
proof (intro allI impI)
  fix evm ms fr fr1 g
  assume eip: "IsEIP150 (evm_rules evm)" and mem: "mem_wf (f_mem fr)" "32 dvd unat ms"
    and cost: "gasCall evm ms fr = Ok (fr1, Inr g)"
  obtain v a fr0 mg fr2 b where c: "st_Back 2 (f_stack fr) = Ok v"
      "pureMemoryGascost evm ms fr = Ok (fr0, Inr mg)"
      "checked fr0 (SafeAdd (call_base evm (v \<noteq> 0) a (f_db fr)) mg) = Ok (fr2, Inr b)"
      "with_call_gas evm b fr2 = Ok (fr1, Inr g)"
    using cost unfolding gasCall_def gas_then_Ok and_then_eq_Ok by blast
  show "f_stack fr1 = f_stack fr \<and> f_contract fr1 = f_contract fr \<and> set_aside_value fr1 \<le> unat g
    \<and> mem_wf (charged ms (f_mem fr1)) \<and> (unat g \<le> unat (c_Gas (f_contract fr)) \<or> unat g < 2 ^ 64 - 2 ^ 56)"
    by (rule value_call_law [OF mem c(2,3,4) eip c(1) call_base_bounds])
qed

section \<open>The same for the first touch of an account\<close>

lemma call_variant_law:
  assumes "call_law bonus dyn" and bonus: "\<And>fr c. bonus (fr\<lparr>f_contract := c\<rparr>) = bonus fr"
  shows "gas_law True bonus 0 (makeCallVariantGasCallEIP2929 dyn)"
  unfolding gas_law_def if_True
proof (intro allI impI)
  fix evm :: EVM and ms :: u64 and fr fr1 :: Frame and g :: u64
  let ?goal = "f_stack fr1 = f_stack fr \<and> c_Gas (f_contract fr1) = c_Gas (f_contract fr)
    \<and> 0 + bonus fr1 \<le> unat g \<and> mem_wf (charged ms (f_mem fr1))"
  assume eip: "IsEIP150 (evm_rules evm)" and mem: "mem_wf (f_mem fr)" "32 dvd unat ms"
    and cost: "makeCallVariantGasCallEIP2929 dyn evm ms fr = Ok (fr1, Inr g)"
  have law: "f_stack fr1 = f_stack fr \<and> f_contract fr1 = f_contract fr \<and> bonus fr1 \<le> unat g
       \<and> mem_wf (charged ms (f_mem fr1)) \<and> (unat g \<le> unat (c_Gas (f_contract fr)) \<or> unat g < 2 ^ 64 - 2 ^ 56)"
    if "mem_wf (f_mem fr)" "dyn evm ms fr = Ok (fr1, Inr g)" for fr fr1 g
    using assms(1) eip mem(2) that unfolding call_law_def by blast
  have warm: ?goal if "dyn evm ms fr = Ok (fr1, Inr g)" using law [OF mem(1) that] by simp
  have cold: ?goal if g0: "UseGas 2500 (c_Gas (f_contract fr)) = Some g0"
      and d: "dyn evm ms (fr\<lparr>f_db := s, f_contract := (f_contract fr)\<lparr>c_Gas := g0\<rparr>\<rparr>) = Ok (fr2, Inr g2)"
      and fr1: "fr1 = fr2\<lparr>f_contract := (f_contract fr2)\<lparr>c_Gas := c_Gas (f_contract fr2) + 2500\<rparr>\<rparr>"
      and g: "g = g2 + 2500" for g0 s fr2 g2
  proof -
    have u: "2500 \<le> c_Gas (f_contract fr)" "g0 = c_Gas (f_contract fr) - 2500" using g0 by (auto simp: UseGas_eq)
    have l: "f_stack fr2 = f_stack fr \<and> f_contract fr2 = (f_contract fr)\<lparr>c_Gas := g0\<rparr> \<and> bonus fr2 \<le> unat g2
       \<and> mem_wf (charged ms (f_mem fr2)) \<and> (unat g2 \<le> unat g0 \<or> unat g2 < 2 ^ 64 - 2 ^ 56)"
      using law [OF _ d] mem(1) by simp
    have "unat g0 = unat (c_Gas (f_contract fr)) - 2500" using u by (simp add: unat_sub_le word_le_nat_alt)
    then have "unat g2 + 2500 < 2 ^ 64"
      using l u(1) unat_bound [of "c_Gas (f_contract fr)"] by (auto simp: word_le_nat_alt)
    then have "unat g = unat g2 + 2500" using g by (simp add: unat_word_ariths)
    then show ?thesis using l u(2) fr1 by (simp add: bonus)
  qed
  show ?goal
    using cost unfolding makeCallVariantGasCallEIP2929_def Let_def and_then_eq_Ok
    by (auto simp: gas_simps gas_prices split: if_split_asm option.split_asm dest: warm cold)
qed

lemma call_law_gas: "call_law bonus dyn \<Longrightarrow> gas_law True bonus 0 dyn"
  unfolding call_law_def gas_law_def by auto

section \<open>Gas functions return\<close>

lemma gas_loop_free [loop_free]:
  "gas_ok fr g \<noteq> Loops" "gas_err fr e \<noteq> Loops" "checked fr r \<noteq> Loops" "pureMemoryGascost evm ms fr \<noteq> Loops"
  by (simp_all add: gas_ok_def gas_err_def checked_def pureMemoryGascost_def split: prod.split)

lemma gas_then_eq_Loops:
  "gas_then r k = Loops \<longleftrightarrow> r = Loops \<or> (\<exists>fr g. r = Ok (fr, Inr g) \<and> k fr g = Loops)"
  by (cases r) (auto simp: gas_then_def gas_err_def split: sum.splits)

lemma with_call_gas_loop_free [loop_free]: "with_call_gas evm g fr \<noteq> Loops"
  by (auto simp: with_call_gas_def outcome_simps loop_free split: sum.split)

lemma net_sstore_loop_free [loop_free]: "net_sstore p evm slot current val fr \<noteq> Loops"
  by (auto simp: net_sstore_def net_refund_def Let_def outcome_simps loop_free split: if_split)

lemma gas_functions_loop_free [loop_free]:
  "word_gas price k evm ms fr \<noteq> Loops" "makeGasLog n evm ms fr \<noteq> Loops" "gas_exp price evm ms fr \<noteq> Loops"
  "gasCall evm ms fr \<noteq> Loops" "gasCallCode evm ms fr \<noteq> Loops" "gasDelegateCall evm ms fr \<noteq> Loops"
  "gasStaticCall evm ms fr \<noteq> Loops" "gasSelfdestruct evm ms fr \<noteq> Loops"
  unfolding word_gas_def makeGasLog_def gas_exp_def gasCall_def gasCallCode_def gasDelegateCall_def
    gasStaticCall_def gasSelfdestruct_def Let_def
  by (simp_all add: outcome_simps gas_then_eq_Loops loop_free split: prod.split)

lemma access_gas_loop_free [loop_free]:
  "gasSStore evm ms fr \<noteq> Loops" "gasSStoreEIP2200 evm ms fr \<noteq> Loops" "makeGasSStoreFunc r evm ms fr \<noteq> Loops"
  "gasSLoadEIP2929 evm ms fr \<noteq> Loops" "gasExtCodeCopyEIP2929 evm ms fr \<noteq> Loops"
  "gasEip2929AccountCheck evm ms fr \<noteq> Loops" "makeSelfdestructGasFn b evm ms fr \<noteq> Loops"
  unfolding gasSStore_def gasSStoreEIP2200_def makeGasSStoreFunc_def gasSLoadEIP2929_def
    gasExtCodeCopyEIP2929_def gasEip2929AccountCheck_def makeSelfdestructGasFn_def memoryCopierGas_def Let_def
  by (simp_all add: outcome_simps gas_then_eq_Loops loop_free split: prod.split)

lemma call_variant_loop_free [loop_free]:
  "(\<And>fr. dyn evm ms fr \<noteq> Loops) \<Longrightarrow> makeCallVariantGasCallEIP2929 dyn evm ms fr \<noteq> Loops"
  unfolding makeCallVariantGasCallEIP2929_def Let_def
  by (simp add: outcome_simps gas_then_eq_Loops loop_free split: option.split)

lemma mem_size_loop_free [loop_free]:
  "mem_range a b st \<noteq> Loops" "mem_fixed n st \<noteq> Loops" "mem_ranges a b c d st \<noteq> Loops"
  by (auto simp: mem_range_def mem_fixed_def mem_ranges_def outcome_simps loop_free split: if_split_asm)

section \<open>Gas functions do not add gas\<close>

text \<open>Whatever a gas function returns, an error included, the frame has no more gas than before.\<close>

definition gas_within :: "Frame \<Rightarrow> GasRes \<Rightarrow> bool" where
  "gas_within fr r \<longleftrightarrow> (\<forall>fr1 res. r = Ok (fr1, res) \<longrightarrow> c_Gas (f_contract fr1) = c_Gas (f_contract fr))"

definition no_gain :: "gasFunc \<Rightarrow> bool" where
  "no_gain dyn \<longleftrightarrow> (\<forall>evm ms fr fr1 res. dyn evm ms fr = Ok (fr1, res) \<longrightarrow>
     c_Gas (f_contract fr1) \<le> c_Gas (f_contract fr))"

lemma no_gainI: "(\<And>evm ms fr. gas_within fr (dyn evm ms fr)) \<Longrightarrow> no_gain dyn"
  unfolding no_gain_def gas_within_def by (metis order_refl)

lemma within_basic [simp]:
  "gas_within fr Panic" "c_Gas (f_contract fr1) = c_Gas (f_contract fr) \<Longrightarrow> gas_within fr (pureMemoryGascost evm ms fr1)"
  "gas_within fr (gas_ok fr1 g) \<longleftrightarrow> c_Gas (f_contract fr1) = c_Gas (f_contract fr)"
  "gas_within fr (gas_err fr1 e) \<longleftrightarrow> c_Gas (f_contract fr1) = c_Gas (f_contract fr)"
  "gas_within fr (checked fr1 r) \<longleftrightarrow> c_Gas (f_contract fr1) = c_Gas (f_contract fr)"
  by (auto simp: gas_within_def gas_ok_def gas_err_def checked_def pureMemoryGascost_def split: prod.split_asm)

lemma within_and_then: "(\<And>x. r = Ok x \<Longrightarrow> gas_within fr (k x)) \<Longrightarrow> gas_within fr (and_then r k)"
  by (cases r) (auto simp: gas_within_def)

lemma gas_then_cases:
  "gas_then r k = Ok (fr1, res) \<Longrightarrow>
    (\<exists>e. r = Ok (fr1, Inl e)) \<or> (\<exists>fr0 g. r = Ok (fr0, Inr g) \<and> k fr0 g = Ok (fr1, res))"
  by (cases r) (auto simp: gas_then_def gas_err_def split: sum.splits)

lemma within_then:
  assumes "gas_within fr r"
    and "\<And>fr1 g. c_Gas (f_contract fr1) = c_Gas (f_contract fr) \<Longrightarrow> gas_within fr (k fr1 g)"
  shows "gas_within fr (gas_then r k)"
  unfolding gas_within_def
proof (intro allI impI)
  fix fr1 res
  assume "gas_then r k = Ok (fr1, res)"
  then consider e where "r = Ok (fr1, Inl e)" | fr0 g where "r = Ok (fr0, Inr g)" "k fr0 g = Ok (fr1, res)"
    using gas_then_cases by blast
  then show "c_Gas (f_contract fr1) = c_Gas (f_contract fr)"
  proof cases
    case 1
    then show ?thesis using assms(1) unfolding gas_within_def by blast
  next
    case 2
    then have "c_Gas (f_contract fr0) = c_Gas (f_contract fr)" using assms(1) unfolding gas_within_def by blast
    then show ?thesis using assms(2) 2(2) unfolding gas_within_def by blast
  qed
qed

lemma within_with_call_gas:
  "c_Gas (f_contract fr1) = c_Gas (f_contract fr) \<Longrightarrow> gas_within fr (with_call_gas evm g fr1)"
  by (auto simp: with_call_gas_def intro!: within_and_then split: sum.split)

lemma within_net_sstore:
  "c_Gas (f_contract fr1) = c_Gas (f_contract fr) \<Longrightarrow> gas_within fr (net_sstore p evm slot cur val fr1)"
  by (auto simp: net_sstore_def Let_def intro!: within_and_then)

lemmas within_rules = within_and_then within_then within_with_call_gas within_net_sstore

lemma within_word_gas: "gas_within fr (word_gas price k evm ms fr)"
  unfolding word_gas_def by (intro within_rules ; simp)

lemma no_gain_memory:
  "no_gain pureMemoryGascost" "no_gain (word_gas price k)" "no_gain (makeGasLog n)" "no_gain (gas_exp price)"
  unfolding word_gas_def makeGasLog_def gas_exp_def Let_def
  by (rule no_gainI, (intro within_rules)? ; simp)+

lemma within_calls:
  "gas_within fr (gasCall evm ms fr)" "gas_within fr (gasCallCode evm ms fr)"
  "gas_within fr (gasDelegateCall evm ms fr)" "gas_within fr (gasStaticCall evm ms fr)"
  unfolding gasCall_def gasCallCode_def gasDelegateCall_def gasStaticCall_def
  by (intro within_rules ; simp)+

lemma no_gain_state:
  "no_gain gasSStore" "no_gain gasSStoreEIP2200" "no_gain (makeGasSStoreFunc r)" "no_gain gasSLoadEIP2929"
  "no_gain gasEip2929AccountCheck" "no_gain gasSelfdestruct" "no_gain gasExtCodeCopyEIP2929"
  by (rule no_gainI, auto simp: gasSStore_def gasSStoreEIP2200_def makeGasSStoreFunc_def gasSLoadEIP2929_def
      gasEip2929AccountCheck_def gasSelfdestruct_def gasExtCodeCopyEIP2929_def memoryCopierGas_def Let_def
      outcome_simps within_word_gas intro!: within_rules split: if_split_asm)+

lemma no_gain_selfdestruct: "no_gain (makeSelfdestructGasFn b)"
  unfolding makeSelfdestructGasFn_def Let_def by (rule no_gainI, rule within_and_then) simp

lemma call_variant_no_gain:
  assumes "\<And>evm ms fr. gas_within fr (dyn evm ms fr)"
  shows "no_gain (makeCallVariantGasCallEIP2929 dyn)"
  unfolding no_gain_def
proof (intro allI impI)
  fix evm ms fr fr1 res
  assume cost: "makeCallVariantGasCallEIP2929 dyn evm ms fr = Ok (fr1, res)"
  have w: "dyn evm ms fr0 = Ok (fr2, r) \<Longrightarrow> c_Gas (f_contract fr2) = c_Gas (f_contract fr0)" for fr0 fr2 r
    using assms unfolding gas_within_def by blast
  have le: "x - 2500 \<le> x" if "2500 \<le> x" for x :: u64
    using that by (simp add: word_le_nat_alt unat_sub_le)
  show "c_Gas (f_contract fr1) \<le> c_Gas (f_contract fr)"
    using cost unfolding makeCallVariantGasCallEIP2929_def Let_def gas_prices
    by (auto simp: outcome_simps gas_err_def gas_ok_def UseGas_eq le
        split: if_split_asm option.split_asm dest!: gas_then_cases w)
qed

lemmas no_gains = no_gain_memory no_gain_state no_gain_selfdestruct within_calls [THEN no_gainI]
  within_calls [THEN call_variant_no_gain]

section \<open>Gas functions keep the effects\<close>

context state_effect
begin

definition gas_effect :: "gasFunc \<Rightarrow> bool" where
  "gas_effect dyn \<longleftrightarrow> (\<forall>evm ms fr fr1 res ro. evm_env evm = env \<longrightarrow> dyn evm ms fr = Ok (fr1, res) \<longrightarrow>
     R ro (f_db fr) (f_db fr1))"

text \<open>The frames a gas function can reach.\<close>

definition gas_reach :: "Frame \<Rightarrow> GasRes \<Rightarrow> bool" where
  "gas_reach fr r \<longleftrightarrow> (\<forall>fr1 res ro. r = Ok (fr1, res) \<longrightarrow> R ro (f_db fr) (f_db fr1))"

lemma gas_effectI:
  "(\<And>evm ms fr. evm_env evm = env \<Longrightarrow> gas_reach fr (dyn evm ms fr)) \<Longrightarrow> gas_effect dyn"
  unfolding gas_effect_def gas_reach_def by blast

lemma reach_basic [simp]:
  "gas_reach fr Panic" "gas_reach fr (gas_ok fr g)" "gas_reach fr (gas_err fr e)" "gas_reach fr (checked fr r)"
  "gas_reach fr (pureMemoryGascost evm ms fr)"
  by (auto simp: gas_reach_def gas_ok_def gas_err_def checked_def pureMemoryGascost_def effect_refl
      split: prod.split_asm if_split_asm)

lemma reach_and_then: "(\<And>x. r = Ok x \<Longrightarrow> gas_reach fr (k x)) \<Longrightarrow> gas_reach fr (and_then r k)"
  by (cases r) (auto simp: gas_reach_def)

lemma reach_then:
  assumes "gas_reach fr r" and "\<And>fr1 g. gas_reach fr1 (k fr1 g)"
  shows "gas_reach fr (gas_then r k)"
proof (cases "\<exists>fr0 g. r = Ok (fr0, Inr g)")
  case True
  then obtain fr0 g where r: "r = Ok (fr0, Inr g)" by blast
  have "R ro (f_db fr) (f_db fr0)" for ro using assms(1) r by (simp add: gas_reach_def)
  then show ?thesis
    using assms(2) [of fr0 g] r effect_trans by (fastforce simp: gas_reach_def gas_then_def)
next
  case False
  then show ?thesis
    using assms(1) by (cases r) (auto simp: gas_reach_def gas_then_def gas_err_def split: sum.splits)
qed

lemma reach_ok: "(\<And>ro. R ro (f_db fr) (f_db fr1)) \<Longrightarrow> gas_reach fr (gas_ok fr1 g)"
  by (simp add: gas_reach_def gas_ok_def)

lemma reach_checked: "(\<And>ro. R ro (f_db fr) (f_db fr1)) \<Longrightarrow> gas_reach fr (checked fr1 r)"
  by (simp add: gas_reach_def gas_ok_def gas_err_def checked_def)

lemma reach_err: "(\<And>ro. R ro (f_db fr) (f_db fr1)) \<Longrightarrow> gas_reach fr (gas_err fr1 e)"
  by (simp add: gas_reach_def gas_err_def)

lemma reach_from: "(\<And>ro. R ro (f_db fr) (f_db fr1)) \<Longrightarrow> gas_reach fr1 r \<Longrightarrow> gas_reach fr r"
  unfolding gas_reach_def using effect_trans by blast

lemma reach_with_call_gas [simp]: "gas_reach fr (with_call_gas evm g fr)"
  by (auto simp: with_call_gas_def effect_refl intro!: reach_and_then reach_err reach_checked split: sum.split)

lemmas reach_rules = gas_effectI reach_and_then reach_then reach_ok reach_checked reach_err

lemma memory_gas_effect:
  "gas_effect pureMemoryGascost" "gas_effect (word_gas price k)" "gas_effect (makeGasLog n)"
  "gas_effect (gas_exp price)" "gas_effect gasCall" "gas_effect gasCallCode" "gas_effect gasDelegateCall"
  "gas_effect gasStaticCall"
  by (auto simp: word_gas_def makeGasLog_def gas_exp_def gasCall_def gasCallCode_def gasDelegateCall_def
      gasStaticCall_def Let_def effect_refl intro!: reach_rules)

lemma net_refund_effect: "net_refund p original current val s = Ok s1 \<Longrightarrow> R ro s s1"
  by (auto simp: net_refund_def outcome_simps effect_refl intro: effect_sub_refund effect_add_refund
      effect_trans split: if_split_asm)

lemma reach_net_sstore: "gas_reach fr (net_sstore p evm slot current val fr)"
  unfolding net_sstore_def Let_def
  by (auto intro!: reach_and_then reach_ok intro: effect_add_refund net_refund_effect)

lemma sstore_effect: "gas_effect gasSStore" "gas_effect gasSStoreEIP2200"
  unfolding gasSStore_def gasSStoreEIP2200_def Let_def
  by (auto intro!: gas_effectI reach_and_then reach_ok reach_net_sstore effect_add_refund)

lemma selfdestruct_effect: "gas_effect gasSelfdestruct"
  unfolding gasSelfdestruct_def Let_def
  by (auto simp: effect_refl intro!: gas_effectI reach_and_then reach_ok effect_add_refund)

lemma selfdestruct2929_effect: "gas_effect (makeSelfdestructGasFn b)"
proof (rule gas_effectI)
  fix evm ms fr
  have step: "R ro s (if c then s else AddAddressToAccessList a s)" for ro c a s
    by (simp add: effect_refl effect_add_address)
  have more: "R ro s (if c then sdb_AddRefund x s else s)" for ro c x s
    by (simp add: effect_refl effect_add_refund)
  show "gas_reach fr (makeSelfdestructGasFn b evm ms fr)"
    unfolding makeSelfdestructGasFn_def Let_def
    by (intro reach_and_then reach_ok) (simp add: effect_refl effect_add_address effect_add_refund
      effect_trans [OF effect_add_address effect_add_refund])
qed

lemma access_effect:
  "gas_effect (makeGasSStoreFunc refund)" "gas_effect gasSLoadEIP2929" "gas_effect gasEip2929AccountCheck"
  unfolding makeGasSStoreFunc_def gasSLoadEIP2929_def gasEip2929AccountCheck_def Let_def
  by (((rule gas_effectI, auto simp: outcome_simps split: if_split_asm
      intro!: reach_and_then reach_ok reach_err reach_from [OF _ reach_net_sstore]) ;
      (rule effect_refl | rule effect_add_address | erule effect_add_slot))+)

lemma extcodecopy_effect: "gas_effect gasExtCodeCopyEIP2929"
proof (rule gas_effectI)
  fix evm :: EVM and ms :: u64 and fr :: Frame
  assume e: "evm_env evm = env"
  have "gas_reach fr (memoryCopierGas 3 evm ms fr)"
    using memory_gas_effect(2) [of CopyGas 3] e
    unfolding memoryCopierGas_def gas_effect_def gas_reach_def by blast
  then show "gas_reach fr (gasExtCodeCopyEIP2929 evm ms fr)"
    unfolding gasExtCodeCopyEIP2929_def Let_def
    by (auto simp: effect_refl intro!: reach_then reach_and_then reach_ok reach_checked effect_add_address)
qed

lemma call_variant_effect:
  assumes "gas_effect dyn"
  shows "gas_effect (makeCallVariantGasCallEIP2929 dyn)"
proof (rule gas_effectI)
  fix evm :: EVM and ms :: u64 and fr :: Frame
  assume e: "evm_env evm = env"
  have dyn: "gas_reach fr1 (dyn evm ms fr1)" for fr1
    using assms e unfolding gas_effect_def gas_reach_def by blast
  have cold: "gas_reach fr (dyn evm ms (fr\<lparr>f_db := AddAddressToAccessList a (f_db fr), f_contract := c\<rparr>))" for a c
    by (rule reach_from [OF _ dyn]) (simp add: effect_add_address)
  show "gas_reach fr (makeCallVariantGasCallEIP2929 dyn evm ms fr)"
    unfolding makeCallVariantGasCallEIP2929_def Let_def
    by (auto simp: effect_refl dyn effect_add_address split: option.split
        intro!: reach_and_then reach_err reach_then reach_ok cold)
qed

end

end
