(* ===== verification/Zond_JumpTable.thy ===== *)
theory Zond_JumpTable
  imports Zond_GasTable
begin

text \<open>
  The jump table (\<^verbatim>\<open>core/vm/jump_table.go\<close>, \<^verbatim>\<open>stack_table.go\<close>, \<^verbatim>\<open>eips.go\<close>): which instruction an opcode
  stands for in each fork, what it costs and how many stack items it needs.
\<close>

section \<open>Operations\<close>

record operation =
  execute :: Exec
  constantGas :: u64
  dynamicGas :: "gasFunc option"
  op_minStack :: nat
  op_maxStack :: nat
  memorySize :: "memorySizeFunc option"

definition StackLimit :: nat where "StackLimit = 1024"

definition minStack :: "nat \<Rightarrow> nat \<Rightarrow> nat" where "minStack pops push = pops"
definition maxStack :: "nat \<Rightarrow> nat \<Rightarrow> nat" where "maxStack pop push = StackLimit + pop - push"
definition minSwapStack :: "nat \<Rightarrow> nat" where "minSwapStack n = minStack n n"
definition maxSwapStack :: "nat \<Rightarrow> nat" where "maxSwapStack n = maxStack n n"
definition minDupStack :: "nat \<Rightarrow> nat" where "minDupStack n = minStack n (n + 1)"
definition maxDupStack :: "nat \<Rightarrow> nat" where "maxDupStack n = maxStack n (n + 1)"

text \<open>The fields of an entry in the order of the table; a field the source leaves out is zero or nil.\<close>

definition op_entry :: "Exec \<Rightarrow> u64 \<Rightarrow> gasFunc option \<Rightarrow> nat \<Rightarrow> nat \<Rightarrow> memorySizeFunc option \<Rightarrow> operation"
  where
  "op_entry ex cost dyn minS maxS mem =
     \<lparr>execute = ex, constantGas = cost, dynamicGas = dyn, op_minStack = minS, op_maxStack = maxS,
      memorySize = mem\<rparr>"

type_synonym JumpTable = "u8 \<Rightarrow> operation"

definition JumpdestGas :: u64 where "JumpdestGas = 1"
definition CreateGas :: u64 where "CreateGas = 32000"
definition Create2Gas :: u64 where "Create2Gas = 32000"
definition CallGasFrontier :: u64 where "CallGasFrontier = 40"
definition CallGasEIP150 :: u64 where "CallGasEIP150 = 700"
definition BalanceGasFrontier :: u64 where "BalanceGasFrontier = 20"
definition BalanceGasEIP150 :: u64 where "BalanceGasEIP150 = 400"
definition BalanceGasEIP1884 :: u64 where "BalanceGasEIP1884 = 700"
definition ExtcodeSizeGasFrontier :: u64 where "ExtcodeSizeGasFrontier = 20"
definition ExtcodeSizeGasEIP150 :: u64 where "ExtcodeSizeGasEIP150 = 700"
definition SloadGasFrontier :: u64 where "SloadGasFrontier = 50"
definition SloadGasEIP150 :: u64 where "SloadGasEIP150 = 200"
definition SloadGasEIP1884 :: u64 where "SloadGasEIP1884 = 800"
definition ExtcodeHashGasConstantinople :: u64 where "ExtcodeHashGasConstantinople = 400"
definition ExtcodeHashGasEIP1884 :: u64 where "ExtcodeHashGasEIP1884 = 700"
definition ExtcodeCopyBaseFrontier :: u64 where "ExtcodeCopyBaseFrontier = 20"
definition ExtcodeCopyBaseEIP150 :: u64 where "ExtcodeCopyBaseEIP150 = 700"

lemmas table_prices = gas_prices JumpdestGas_def CreateGas_def Create2Gas_def CallGasFrontier_def
  CallGasEIP150_def BalanceGasFrontier_def BalanceGasEIP150_def BalanceGasEIP1884_def
  ExtcodeSizeGasFrontier_def ExtcodeSizeGasEIP150_def SloadGasFrontier_def SloadGasEIP150_def
  SloadGasEIP1884_def ExtcodeHashGasConstantinople_def ExtcodeHashGasEIP1884_def
  ExtcodeCopyBaseFrontier_def ExtcodeCopyBaseEIP150_def

section \<open>The first instruction set\<close>

text \<open>The literal of \<^verbatim>\<open>newFrontierInstructionSet\<close>, in groups of opcodes.\<close>

definition frontier_arith :: "(u8 \<times> operation) list" where
  "frontier_arith =
    [(0x00, op_entry opStop 0 None (minStack 0 0) (maxStack 0 0) None),
     (0x01, op_entry opAdd GasFastestStep None (minStack 2 1) (maxStack 2 1) None),
     (0x02, op_entry opMul GasFastStep None (minStack 2 1) (maxStack 2 1) None),
     (0x03, op_entry opSub GasFastestStep None (minStack 2 1) (maxStack 2 1) None),
     (0x04, op_entry opDiv GasFastStep None (minStack 2 1) (maxStack 2 1) None),
     (0x05, op_entry opSdiv GasFastStep None (minStack 2 1) (maxStack 2 1) None),
     (0x06, op_entry opMod GasFastStep None (minStack 2 1) (maxStack 2 1) None),
     (0x07, op_entry opSmod GasFastStep None (minStack 2 1) (maxStack 2 1) None),
     (0x08, op_entry opAddmod GasMidStep None (minStack 3 1) (maxStack 3 1) None),
     (0x09, op_entry opMulmod GasMidStep None (minStack 3 1) (maxStack 3 1) None),
     (0x0A, op_entry opExp 0 (Some gasExpFrontier) (minStack 2 1) (maxStack 2 1) None),
     (0x0B, op_entry opSignExtend GasFastStep None (minStack 2 1) (maxStack 2 1) None),
     (0x10, op_entry opLt GasFastestStep None (minStack 2 1) (maxStack 2 1) None),
     (0x11, op_entry opGt GasFastestStep None (minStack 2 1) (maxStack 2 1) None),
     (0x12, op_entry opSlt GasFastestStep None (minStack 2 1) (maxStack 2 1) None),
     (0x13, op_entry opSgt GasFastestStep None (minStack 2 1) (maxStack 2 1) None),
     (0x14, op_entry opEq GasFastestStep None (minStack 2 1) (maxStack 2 1) None),
     (0x15, op_entry opIszero GasFastestStep None (minStack 1 1) (maxStack 1 1) None),
     (0x16, op_entry opAnd GasFastestStep None (minStack 2 1) (maxStack 2 1) None),
     (0x18, op_entry opXor GasFastestStep None (minStack 2 1) (maxStack 2 1) None),
     (0x17, op_entry opOr GasFastestStep None (minStack 2 1) (maxStack 2 1) None),
     (0x19, op_entry opNot GasFastestStep None (minStack 1 1) (maxStack 1 1) None),
     (0x1A, op_entry opByte GasFastestStep None (minStack 2 1) (maxStack 2 1) None),
     (0x20, op_entry opKeccak256 Keccak256Gas (Some gasKeccak256) (minStack 2 1) (maxStack 2 1) (Some memoryKeccak256))]"

definition frontier_env :: "(u8 \<times> operation) list" where
  "frontier_env =
    [(0x30, op_entry opAddress GasQuickStep None (minStack 0 1) (maxStack 0 1) None),
     (0x31, op_entry opBalance BalanceGasFrontier None (minStack 1 1) (maxStack 1 1) None),
     (0x32, op_entry opOrigin GasQuickStep None (minStack 0 1) (maxStack 0 1) None),
     (0x33, op_entry opCaller GasQuickStep None (minStack 0 1) (maxStack 0 1) None),
     (0x34, op_entry opCallValue GasQuickStep None (minStack 0 1) (maxStack 0 1) None),
     (0x35, op_entry opCallDataLoad GasFastestStep None (minStack 1 1) (maxStack 1 1) None),
     (0x36, op_entry opCallDataSize GasQuickStep None (minStack 0 1) (maxStack 0 1) None),
     (0x37, op_entry opCallDataCopy GasFastestStep (Some (memoryCopierGas 2)) (minStack 3 0) (maxStack 3 0) (Some memoryCallDataCopy)),
     (0x38, op_entry opCodeSize GasQuickStep None (minStack 0 1) (maxStack 0 1) None),
     (0x39, op_entry opCodeCopy GasFastestStep (Some (memoryCopierGas 2)) (minStack 3 0) (maxStack 3 0) (Some memoryCodeCopy)),
     (0x3A, op_entry opGasprice GasQuickStep None (minStack 0 1) (maxStack 0 1) None),
     (0x3B, op_entry opExtCodeSize ExtcodeSizeGasFrontier None (minStack 1 1) (maxStack 1 1) None),
     (0x3C, op_entry opExtCodeCopy ExtcodeCopyBaseFrontier (Some (memoryCopierGas 3)) (minStack 4 0) (maxStack 4 0) (Some memoryExtCodeCopy)),
     (0x40, op_entry opBlockhash GasExtStep None (minStack 1 1) (maxStack 1 1) None),
     (0x41, op_entry opCoinbase GasQuickStep None (minStack 0 1) (maxStack 0 1) None),
     (0x42, op_entry opTimestamp GasQuickStep None (minStack 0 1) (maxStack 0 1) None),
     (0x43, op_entry opNumber GasQuickStep None (minStack 0 1) (maxStack 0 1) None),
     (0x44, op_entry opDifficulty GasQuickStep None (minStack 0 1) (maxStack 0 1) None),
     (0x45, op_entry opGasLimit GasQuickStep None (minStack 0 1) (maxStack 0 1) None)]"

definition frontier_flow :: "(u8 \<times> operation) list" where
  "frontier_flow =
    [(0x50, op_entry opPop GasQuickStep None (minStack 1 0) (maxStack 1 0) None),
     (0x51, op_entry opMload GasFastestStep (Some pureMemoryGascost) (minStack 1 1) (maxStack 1 1) (Some memoryMLoad)),
     (0x52, op_entry opMstore GasFastestStep (Some pureMemoryGascost) (minStack 2 0) (maxStack 2 0) (Some memoryMStore)),
     (0x53, op_entry opMstore8 GasFastestStep (Some pureMemoryGascost) (minStack 2 0) (maxStack 2 0) (Some memoryMStore8)),
     (0x54, op_entry opSload SloadGasFrontier None (minStack 1 1) (maxStack 1 1) None),
     (0x55, op_entry opSstore 0 (Some gasSStore) (minStack 2 0) (maxStack 2 0) None),
     (0x56, op_entry opJump GasMidStep None (minStack 1 0) (maxStack 1 0) None),
     (0x57, op_entry opJumpi GasSlowStep None (minStack 2 0) (maxStack 2 0) None),
     (0x58, op_entry opPc GasQuickStep None (minStack 0 1) (maxStack 0 1) None),
     (0x59, op_entry opMsize GasQuickStep None (minStack 0 1) (maxStack 0 1) None),
     (0x5A, op_entry opGas GasQuickStep None (minStack 0 1) (maxStack 0 1) None),
     (0x5B, op_entry opJumpdest JumpdestGas None (minStack 0 0) (maxStack 0 0) None),
     (0x60, op_entry opPush1 GasFastestStep None (minStack 0 1) (maxStack 0 1) None)]"

definition frontier_push_low :: "(u8 \<times> operation) list" where
  "frontier_push_low =
    [(0x61, op_entry (makePush 2 2) GasFastestStep None (minStack 0 1) (maxStack 0 1) None),
     (0x62, op_entry (makePush 3 3) GasFastestStep None (minStack 0 1) (maxStack 0 1) None),
     (0x63, op_entry (makePush 4 4) GasFastestStep None (minStack 0 1) (maxStack 0 1) None),
     (0x64, op_entry (makePush 5 5) GasFastestStep None (minStack 0 1) (maxStack 0 1) None),
     (0x65, op_entry (makePush 6 6) GasFastestStep None (minStack 0 1) (maxStack 0 1) None),
     (0x66, op_entry (makePush 7 7) GasFastestStep None (minStack 0 1) (maxStack 0 1) None),
     (0x67, op_entry (makePush 8 8) GasFastestStep None (minStack 0 1) (maxStack 0 1) None),
     (0x68, op_entry (makePush 9 9) GasFastestStep None (minStack 0 1) (maxStack 0 1) None),
     (0x69, op_entry (makePush 10 10) GasFastestStep None (minStack 0 1) (maxStack 0 1) None),
     (0x6A, op_entry (makePush 11 11) GasFastestStep None (minStack 0 1) (maxStack 0 1) None),
     (0x6B, op_entry (makePush 12 12) GasFastestStep None (minStack 0 1) (maxStack 0 1) None),
     (0x6C, op_entry (makePush 13 13) GasFastestStep None (minStack 0 1) (maxStack 0 1) None),
     (0x6D, op_entry (makePush 14 14) GasFastestStep None (minStack 0 1) (maxStack 0 1) None),
     (0x6E, op_entry (makePush 15 15) GasFastestStep None (minStack 0 1) (maxStack 0 1) None),
     (0x6F, op_entry (makePush 16 16) GasFastestStep None (minStack 0 1) (maxStack 0 1) None)]"

definition frontier_push_high :: "(u8 \<times> operation) list" where
  "frontier_push_high =
    [(0x70, op_entry (makePush 17 17) GasFastestStep None (minStack 0 1) (maxStack 0 1) None),
     (0x71, op_entry (makePush 18 18) GasFastestStep None (minStack 0 1) (maxStack 0 1) None),
     (0x72, op_entry (makePush 19 19) GasFastestStep None (minStack 0 1) (maxStack 0 1) None),
     (0x73, op_entry (makePush 20 20) GasFastestStep None (minStack 0 1) (maxStack 0 1) None),
     (0x74, op_entry (makePush 21 21) GasFastestStep None (minStack 0 1) (maxStack 0 1) None),
     (0x75, op_entry (makePush 22 22) GasFastestStep None (minStack 0 1) (maxStack 0 1) None),
     (0x76, op_entry (makePush 23 23) GasFastestStep None (minStack 0 1) (maxStack 0 1) None),
     (0x77, op_entry (makePush 24 24) GasFastestStep None (minStack 0 1) (maxStack 0 1) None),
     (0x78, op_entry (makePush 25 25) GasFastestStep None (minStack 0 1) (maxStack 0 1) None),
     (0x79, op_entry (makePush 26 26) GasFastestStep None (minStack 0 1) (maxStack 0 1) None),
     (0x7A, op_entry (makePush 27 27) GasFastestStep None (minStack 0 1) (maxStack 0 1) None),
     (0x7B, op_entry (makePush 28 28) GasFastestStep None (minStack 0 1) (maxStack 0 1) None),
     (0x7C, op_entry (makePush 29 29) GasFastestStep None (minStack 0 1) (maxStack 0 1) None),
     (0x7D, op_entry (makePush 30 30) GasFastestStep None (minStack 0 1) (maxStack 0 1) None),
     (0x7E, op_entry (makePush 31 31) GasFastestStep None (minStack 0 1) (maxStack 0 1) None),
     (0x7F, op_entry (makePush 32 32) GasFastestStep None (minStack 0 1) (maxStack 0 1) None)]"

definition frontier_dup :: "(u8 \<times> operation) list" where
  "frontier_dup =
    [(0x80, op_entry (makeDup 1) GasFastestStep None (minDupStack 1) (maxDupStack 1) None),
     (0x81, op_entry (makeDup 2) GasFastestStep None (minDupStack 2) (maxDupStack 2) None),
     (0x82, op_entry (makeDup 3) GasFastestStep None (minDupStack 3) (maxDupStack 3) None),
     (0x83, op_entry (makeDup 4) GasFastestStep None (minDupStack 4) (maxDupStack 4) None),
     (0x84, op_entry (makeDup 5) GasFastestStep None (minDupStack 5) (maxDupStack 5) None),
     (0x85, op_entry (makeDup 6) GasFastestStep None (minDupStack 6) (maxDupStack 6) None),
     (0x86, op_entry (makeDup 7) GasFastestStep None (minDupStack 7) (maxDupStack 7) None),
     (0x87, op_entry (makeDup 8) GasFastestStep None (minDupStack 8) (maxDupStack 8) None),
     (0x88, op_entry (makeDup 9) GasFastestStep None (minDupStack 9) (maxDupStack 9) None),
     (0x89, op_entry (makeDup 10) GasFastestStep None (minDupStack 10) (maxDupStack 10) None),
     (0x8A, op_entry (makeDup 11) GasFastestStep None (minDupStack 11) (maxDupStack 11) None),
     (0x8B, op_entry (makeDup 12) GasFastestStep None (minDupStack 12) (maxDupStack 12) None),
     (0x8C, op_entry (makeDup 13) GasFastestStep None (minDupStack 13) (maxDupStack 13) None),
     (0x8D, op_entry (makeDup 14) GasFastestStep None (minDupStack 14) (maxDupStack 14) None),
     (0x8E, op_entry (makeDup 15) GasFastestStep None (minDupStack 15) (maxDupStack 15) None),
     (0x8F, op_entry (makeDup 16) GasFastestStep None (minDupStack 16) (maxDupStack 16) None)]"

definition frontier_swap :: "(u8 \<times> operation) list" where
  "frontier_swap =
    [(0x90, op_entry (makeSwap 1) GasFastestStep None (minSwapStack 2) (maxSwapStack 2) None),
     (0x91, op_entry (makeSwap 2) GasFastestStep None (minSwapStack 3) (maxSwapStack 3) None),
     (0x92, op_entry (makeSwap 3) GasFastestStep None (minSwapStack 4) (maxSwapStack 4) None),
     (0x93, op_entry (makeSwap 4) GasFastestStep None (minSwapStack 5) (maxSwapStack 5) None),
     (0x94, op_entry (makeSwap 5) GasFastestStep None (minSwapStack 6) (maxSwapStack 6) None),
     (0x95, op_entry (makeSwap 6) GasFastestStep None (minSwapStack 7) (maxSwapStack 7) None),
     (0x96, op_entry (makeSwap 7) GasFastestStep None (minSwapStack 8) (maxSwapStack 8) None),
     (0x97, op_entry (makeSwap 8) GasFastestStep None (minSwapStack 9) (maxSwapStack 9) None),
     (0x98, op_entry (makeSwap 9) GasFastestStep None (minSwapStack 10) (maxSwapStack 10) None),
     (0x99, op_entry (makeSwap 10) GasFastestStep None (minSwapStack 11) (maxSwapStack 11) None),
     (0x9A, op_entry (makeSwap 11) GasFastestStep None (minSwapStack 12) (maxSwapStack 12) None),
     (0x9B, op_entry (makeSwap 12) GasFastestStep None (minSwapStack 13) (maxSwapStack 13) None),
     (0x9C, op_entry (makeSwap 13) GasFastestStep None (minSwapStack 14) (maxSwapStack 14) None),
     (0x9D, op_entry (makeSwap 14) GasFastestStep None (minSwapStack 15) (maxSwapStack 15) None),
     (0x9E, op_entry (makeSwap 15) GasFastestStep None (minSwapStack 16) (maxSwapStack 16) None),
     (0x9F, op_entry (makeSwap 16) GasFastestStep None (minSwapStack 17) (maxSwapStack 17) None)]"

definition frontier_calls :: "(u8 \<times> operation) list" where
  "frontier_calls =
    [(0xA0, op_entry (makeLog 0) 0 (Some (makeGasLog 0)) (minStack 2 0) (maxStack 2 0) (Some memoryLog)),
     (0xA1, op_entry (makeLog 1) 0 (Some (makeGasLog 1)) (minStack 3 0) (maxStack 3 0) (Some memoryLog)),
     (0xA2, op_entry (makeLog 2) 0 (Some (makeGasLog 2)) (minStack 4 0) (maxStack 4 0) (Some memoryLog)),
     (0xA3, op_entry (makeLog 3) 0 (Some (makeGasLog 3)) (minStack 5 0) (maxStack 5 0) (Some memoryLog)),
     (0xA4, op_entry (makeLog 4) 0 (Some (makeGasLog 4)) (minStack 6 0) (maxStack 6 0) (Some memoryLog)),
     (0xF0, op_entry opCreate CreateGas (Some pureMemoryGascost) (minStack 3 1) (maxStack 3 1) (Some memoryCreate)),
     (0xF1, op_entry opCall CallGasFrontier (Some gasCall) (minStack 7 1) (maxStack 7 1) (Some memoryCall)),
     (0xF2, op_entry opCallCode CallGasFrontier (Some gasCallCode) (minStack 7 1) (maxStack 7 1) (Some memoryCall)),
     (0xF3, op_entry opReturn 0 (Some pureMemoryGascost) (minStack 2 0) (maxStack 2 0) (Some memoryReturn)),
     (0xFF, op_entry opSelfdestruct 0 (Some gasSelfdestruct) (minStack 1 0) (maxStack 1 0) None)]"

text \<open>Every opcode without an entry is undefined.\<close>

definition newFrontierInstructionSet :: JumpTable where
  "newFrontierInstructionSet op =
     (case map_of (frontier_arith @ frontier_env @ frontier_flow @ frontier_push_low @ frontier_push_high
         @ frontier_dup @ frontier_swap @ frontier_calls) op of
        Some entry \<Rightarrow> entry
      | None \<Rightarrow> op_entry opUndefined 0 None 0 (maxStack 0 0) None)"

section \<open>Later forks\<close>

definition newHomesteadInstructionSet :: JumpTable where
  "newHomesteadInstructionSet = newFrontierInstructionSet
     (0xF4 := op_entry opDelegateCall CallGasFrontier (Some gasDelegateCall) (minStack 6 1) (maxStack 6 1)
        (Some memoryDelegateCall))"

text \<open>\<^verbatim>\<open>instructionSet[op].constantGas = cost\<close> and the same with the dynamic cost.\<close>

definition set_cost :: "u8 \<Rightarrow> u64 \<Rightarrow> JumpTable \<Rightarrow> JumpTable" where
  "set_cost op cost jt = jt(op := (jt op)\<lparr>constantGas := cost\<rparr>)"
definition set_dynamic :: "u8 \<Rightarrow> gasFunc \<Rightarrow> JumpTable \<Rightarrow> JumpTable" where
  "set_dynamic op dyn jt = jt(op := (jt op)\<lparr>dynamicGas := Some dyn\<rparr>)"

definition newTangerineWhistleInstructionSet :: JumpTable where
  "newTangerineWhistleInstructionSet =
     set_cost 0xF4 CallGasEIP150 (set_cost 0xF2 CallGasEIP150 (set_cost 0xF1 CallGasEIP150
       (set_cost 0x3C ExtcodeCopyBaseEIP150 (set_cost 0x54 SloadGasEIP150
         (set_cost 0x3B ExtcodeSizeGasEIP150 (set_cost 0x31 BalanceGasEIP150
           newHomesteadInstructionSet))))))"

definition newSpuriousDragonInstructionSet :: JumpTable where
  "newSpuriousDragonInstructionSet = set_dynamic 0x0A gasExpEIP158 newTangerineWhistleInstructionSet"

definition newByzantiumInstructionSet :: JumpTable where
  "newByzantiumInstructionSet = newSpuriousDragonInstructionSet
     (0xFA := op_entry opStaticCall CallGasEIP150 (Some gasStaticCall) (minStack 6 1) (maxStack 6 1)
        (Some memoryStaticCall),
      0x3D := op_entry opReturnDataSize GasQuickStep None (minStack 0 1) (maxStack 0 1) None,
      0x3E := op_entry opReturnDataCopy GasFastestStep (Some (memoryCopierGas 2)) (minStack 3 0)
        (maxStack 3 0) (Some memoryReturnDataCopy),
      0xFD := op_entry opRevert 0 (Some pureMemoryGascost) (minStack 2 0) (maxStack 2 0)
        (Some memoryRevert))"

definition newConstantinopleInstructionSet :: JumpTable where
  "newConstantinopleInstructionSet = newByzantiumInstructionSet
     (0x1B := op_entry opSHL GasFastestStep None (minStack 2 1) (maxStack 2 1) None,
      0x1C := op_entry opSHR GasFastestStep None (minStack 2 1) (maxStack 2 1) None,
      0x1D := op_entry opSAR GasFastestStep None (minStack 2 1) (maxStack 2 1) None,
      0x3F := op_entry opExtCodeHash ExtcodeHashGasConstantinople None (minStack 1 1) (maxStack 1 1) None,
      0xF5 := op_entry opCreate2 Create2Gas (Some gasCreate2) (minStack 4 1) (maxStack 4 1)
        (Some memoryCreate2))"

definition enable1344 :: "JumpTable \<Rightarrow> JumpTable" where
  "enable1344 jt = jt(0x46 := op_entry opChainID GasQuickStep None (minStack 0 1) (maxStack 0 1) None)"

definition enable1884 :: "JumpTable \<Rightarrow> JumpTable" where
  "enable1884 jt =
     (set_cost 0x3F ExtcodeHashGasEIP1884 (set_cost 0x31 BalanceGasEIP1884 (set_cost 0x54 SloadGasEIP1884 jt)))
     (0x47 := op_entry opSelfBalance GasFastStep None (minStack 0 1) (maxStack 0 1) None)"

definition enable2200 :: "JumpTable \<Rightarrow> JumpTable" where
  "enable2200 jt = set_dynamic 0x55 gasSStoreEIP2200 (set_cost 0x54 SloadGasEIP2200 jt)"

definition newIstanbulInstructionSet :: JumpTable where
  "newIstanbulInstructionSet = enable2200 (enable1884 (enable1344 newConstantinopleInstructionSet))"

definition enable2929 :: "JumpTable \<Rightarrow> JumpTable" where
  "enable2929 jt =
     (let warm = WarmStorageReadCostEIP2929;
          jt1 = set_dynamic 0x55 gasSStoreEIP2929 jt;
          jt2 = set_dynamic 0x54 gasSLoadEIP2929 (set_cost 0x54 0 jt1);
          jt3 = set_dynamic 0x3C gasExtCodeCopyEIP2929 (set_cost 0x3C warm jt2);
          jt4 = set_dynamic 0x3B gasEip2929AccountCheck (set_cost 0x3B warm jt3);
          jt5 = set_dynamic 0x3F gasEip2929AccountCheck (set_cost 0x3F warm jt4);
          jt6 = set_dynamic 0x31 gasEip2929AccountCheck (set_cost 0x31 warm jt5);
          jt7 = set_dynamic 0xF1 gasCallEIP2929 (set_cost 0xF1 warm jt6);
          jt8 = set_dynamic 0xF2 gasCallCodeEIP2929 (set_cost 0xF2 warm jt7);
          jt9 = set_dynamic 0xFA gasStaticCallEIP2929 (set_cost 0xFA warm jt8);
          jt10 = set_dynamic 0xF4 gasDelegateCallEIP2929 (set_cost 0xF4 warm jt9)
      in set_dynamic 0xFF gasSelfdestructEIP2929 (set_cost 0xFF SelfdestructGasEIP150 jt10))"

definition newBerlinInstructionSet :: JumpTable where
  "newBerlinInstructionSet = enable2929 newIstanbulInstructionSet"

definition enable3529 :: "JumpTable \<Rightarrow> JumpTable" where
  "enable3529 jt = set_dynamic 0xFF gasSelfdestructEIP3529 (set_dynamic 0x55 gasSStoreEIP3529 jt)"

definition enable3198 :: "JumpTable \<Rightarrow> JumpTable" where
  "enable3198 jt = jt(0x48 := op_entry opBaseFee GasQuickStep None (minStack 0 1) (maxStack 0 1) None)"

definition newLondonInstructionSet :: JumpTable where
  "newLondonInstructionSet = enable3198 (enable3529 newBerlinInstructionSet)"

definition newMergeInstructionSet :: JumpTable where
  "newMergeInstructionSet = newLondonInstructionSet
     (0x44 := op_entry opRandom GasQuickStep None (minStack 0 1) (maxStack 0 1) None)"

text \<open>\<^verbatim>\<open>NewEVMInterpreter\<close> with no table and no extra proposals configured.\<close>

definition NewEVMInterpreter :: "Rules \<Rightarrow> JumpTable" where
  "NewEVMInterpreter rules =
     (if IsMerge rules then newMergeInstructionSet
      else if IsLondon rules then newLondonInstructionSet
      else if IsBerlin rules then newBerlinInstructionSet
      else if IsIstanbul rules then newIstanbulInstructionSet
      else if IsConstantinople rules then newConstantinopleInstructionSet
      else if IsByzantium rules then newByzantiumInstructionSet
      else if IsEIP158 rules then newSpuriousDragonInstructionSet
      else if IsEIP150 rules then newTangerineWhistleInstructionSet
      else if IsHomestead rules then newHomesteadInstructionSet
      else newFrontierInstructionSet)"

text \<open>\<^verbatim>\<open>validate\<close>: an operation that may grow memory has a dynamic cost.\<close>

definition validate :: "JumpTable \<Rightarrow> bool" where
  "validate jt \<longleftrightarrow>
     list_all (\<lambda>i. Option.is_none (memorySize (jt i)) \<or> \<not> Option.is_none (dynamicGas (jt i))) (map of_nat [0..<256])"

section \<open>Every instruction of every table is paid for\<close>

definition exec_ends :: "Exec \<Rightarrow> bool" where
  "exec_ends ex \<longleftrightarrow> (\<forall>evm run d ro fr. run_ends d run \<longrightarrow> ex evm run d ro fr \<noteq> Loops)"

definition halting :: "Exec \<Rightarrow> bool" where
  "halting ex \<longleftrightarrow> (\<forall>evm run d ro fr fr1 ret e. ex evm run d ro fr = Ok (fr1, ret, e) \<longrightarrow> e \<noteq> None)"

lemma halting_ops: "halting opStop" "halting opReturn" "halting opRevert" "halting opUndefined" "halting opSelfdestruct"
  by (auto simp: halting_def opStop_def opReturn_def opRevert_def opUndefined_def opSelfdestruct_def step_err_def
      outcome_simps Let_def split: list.split_asm if_split_asm)

text \<open>
  The law of an operation: what it gives back is covered by its dynamic cost, an instruction that
  does not end the run costs something, and nothing of it loops.
\<close>

definition op_covered :: "(Frame \<Rightarrow> nat) \<Rightarrow> nat \<Rightarrow> operation \<Rightarrow> bool" where
  "op_covered bonus base o1 \<longleftrightarrow>
     (case dynamicGas o1 of
        None \<Rightarrow> bonus = (\<lambda>_. 0) \<and> base = 0 \<and> memorySize o1 = None
      | Some dyn \<Rightarrow> gas_law (memorySize o1 \<noteq> None) bonus base dyn \<and> no_gain dyn
          \<and> (\<forall>evm ms fr. dyn evm ms fr \<noteq> Loops))"

definition op_law :: "operation \<Rightarrow> bool" where
  "op_law o1 \<longleftrightarrow> exec_ends (execute o1) \<and> (\<forall>f st. memorySize o1 = Some f \<longrightarrow> f st \<noteq> Loops) \<and>
     (\<exists>bonus base. gives_back bonus (execute o1) \<and> op_covered bonus base o1
       \<and> (\<forall>fr c m. bonus (fr\<lparr>f_contract := c\<rparr>) = bonus fr \<and> bonus (fr\<lparr>f_mem := m\<rparr>) = bonus fr)
       \<and> (0 < base + unat (constantGas o1) \<or> halting (execute o1)))"

lemma op_entry_sel [simp]:
  "execute (op_entry ex cost dyn a b mem) = ex" "constantGas (op_entry ex cost dyn a b mem) = cost"
  "dynamicGas (op_entry ex cost dyn a b mem) = dyn" "memorySize (op_entry ex cost dyn a b mem) = mem"
  "op_minStack (op_entry ex cost dyn a b mem) = a" "op_maxStack (op_entry ex cost dyn a b mem) = b"
  by (simp_all add: op_entry_def)

lemma op_entry_update [simp]:
  "(op_entry ex cost dyn a b mem)\<lparr>constantGas := cost1\<rparr> = op_entry ex cost1 dyn a b mem"
  "(op_entry ex cost dyn a b mem)\<lparr>dynamicGas := dyn1\<rparr> = op_entry ex cost dyn1 a b mem"
  by (simp_all add: op_entry_def)

lemma law_plain:
  "gives_back (\<lambda>_. 0) ex \<Longrightarrow> exec_ends ex \<Longrightarrow> 0 < unat cost \<or> halting ex \<Longrightarrow>
    op_law (op_entry ex cost None a b None)"
  unfolding op_law_def op_covered_def by (intro conjI exI [of _ "\<lambda>_. 0"] exI [of _ 0]) auto

lemma law_dynamic:
  "gives_back bonus ex \<Longrightarrow> exec_ends ex \<Longrightarrow> gas_law False bonus base dyn \<Longrightarrow> no_gain dyn \<Longrightarrow>
    (\<And>evm ms fr. dyn evm ms fr \<noteq> Loops) \<Longrightarrow>
    (\<And>fr c. bonus (fr\<lparr>f_contract := c\<rparr>) = bonus fr) \<Longrightarrow> (\<And>fr m. bonus (fr\<lparr>f_mem := m\<rparr>) = bonus fr) \<Longrightarrow>
    0 < base + unat cost \<or> halting ex \<Longrightarrow> op_law (op_entry ex cost (Some dyn) a b None)"
  unfolding op_law_def op_covered_def by (intro conjI exI [of _ bonus] exI [of _ base]) auto

lemma law_memory:
  "gives_back bonus ex \<Longrightarrow> exec_ends ex \<Longrightarrow> gas_law True bonus base dyn \<Longrightarrow> no_gain dyn \<Longrightarrow>
    (\<And>evm ms fr. dyn evm ms fr \<noteq> Loops) \<Longrightarrow> (\<And>st. mem st \<noteq> Loops) \<Longrightarrow>
    (\<And>fr c. bonus (fr\<lparr>f_contract := c\<rparr>) = bonus fr) \<Longrightarrow> (\<And>fr m. bonus (fr\<lparr>f_mem := m\<rparr>) = bonus fr) \<Longrightarrow>
    0 < base + unat cost \<or> halting ex \<Longrightarrow> op_law (op_entry ex cost (Some dyn) a b (Some mem))"
  unfolding op_law_def op_covered_def by (intro conjI exI [of _ bonus] exI [of _ base]) auto

lemma plain_ends:
  "exec_ends opAdd" "exec_ends opSub" "exec_ends opMul" "exec_ends opDiv" "exec_ends opSdiv"
  "exec_ends opMod" "exec_ends opSmod" "exec_ends opExp" "exec_ends opSignExtend" "exec_ends opNot"
  "exec_ends opLt" "exec_ends opGt" "exec_ends opSlt" "exec_ends opSgt" "exec_ends opEq"
  "exec_ends opIszero" "exec_ends opAnd" "exec_ends opOr" "exec_ends opXor" "exec_ends opByte"
  "exec_ends opAddmod" "exec_ends opMulmod" "exec_ends opSHL" "exec_ends opSHR" "exec_ends opSAR"
  "exec_ends opKeccak256" "exec_ends opAddress" "exec_ends opBalance" "exec_ends opOrigin"
  "exec_ends opCaller" "exec_ends opCallValue" "exec_ends opCallDataLoad"
  "exec_ends opCallDataSize" "exec_ends opCallDataCopy" "exec_ends opReturnDataSize"
  "exec_ends opReturnDataCopy" "exec_ends opExtCodeSize" "exec_ends opCodeSize"
  "exec_ends opCodeCopy" "exec_ends opExtCodeCopy" "exec_ends opExtCodeHash" "exec_ends opGasprice"
  "exec_ends opBlockhash" "exec_ends opCoinbase" "exec_ends opTimestamp" "exec_ends opNumber"
  "exec_ends opDifficulty" "exec_ends opRandom" "exec_ends opGasLimit" "exec_ends opSelfBalance"
  "exec_ends opChainID" "exec_ends opBaseFee" "exec_ends opPop" "exec_ends opMload"
  "exec_ends opMstore" "exec_ends opMstore8" "exec_ends opSload" "exec_ends opSstore"
  "exec_ends opJump" "exec_ends opJumpi" "exec_ends opJumpdest" "exec_ends opPc"
  "exec_ends opMsize" "exec_ends opGas" "exec_ends opReturn" "exec_ends opRevert"
  "exec_ends opUndefined" "exec_ends opStop" "exec_ends opSelfdestruct" "exec_ends (makeLog k)"
  "exec_ends opPush1" "exec_ends (makePush w k)" "exec_ends (makeDup k)" "exec_ends (makeSwap k)"
  by (simp_all add: exec_ends_def loop_free)

lemma call_ends:
  "exec_ends opCall" "exec_ends opCallCode" "exec_ends opDelegateCall" "exec_ends opStaticCall"
  "exec_ends opCreate" "exec_ends opCreate2"
  by (simp_all add: exec_ends_def call_ops_loop_free)

lemmas give_back_ops = quiet_ops [THEN quiet_gives_back] state_ops_give_back creates_give_back

lemmas gas_function_defs = gasExpFrontier_def gasExpEIP158_def memoryCopierGas_def gasKeccak256_def gasCreate2_def
  gasCallEIP2929_def gasDelegateCallEIP2929_def gasStaticCallEIP2929_def gasCallCodeEIP2929_def
  gasSelfdestructEIP2929_def gasSelfdestructEIP3529_def gasSStoreEIP2929_def gasSStoreEIP3529_def

lemmas memory_function_defs = memoryKeccak256_def memoryCallDataCopy_def memoryReturnDataCopy_def memoryCodeCopy_def
  memoryExtCodeCopy_def memoryMLoad_def memoryMStore8_def memoryMStore_def memoryCreate_def memoryCreate2_def
  memoryCall_def memoryDelegateCall_def memoryStaticCall_def memoryReturn_def memoryRevert_def memoryLog_def

lemmas memory_gas_laws = pure_memory_law word_gas_law extcodecopy_law
lemmas other_gas_laws = exp_law sstore_law sstore2200_law sstore2929_law sload_law account_check_law
  selfdestruct_law selfdestruct2929_law

lemma set_aside_stable:
  "set_aside (fr\<lparr>f_contract := c\<rparr>) = set_aside fr" "set_aside (fr\<lparr>f_mem := m\<rparr>) = set_aside fr"
  "set_aside_value (fr\<lparr>f_contract := c\<rparr>) = set_aside_value fr"
  "set_aside_value (fr\<lparr>f_mem := m\<rparr>) = set_aside_value fr"
  by (simp_all add: set_aside_def set_aside_value_def)

lemma law_memory_plain:
  "gives_back (\<lambda>_. 0) ex \<Longrightarrow> exec_ends ex \<Longrightarrow> gas_law True (\<lambda>_. 0) 0 dyn \<Longrightarrow> no_gain dyn \<Longrightarrow>
    (\<And>evm ms fr. dyn evm ms fr \<noteq> Loops) \<Longrightarrow> (\<And>st. mem st \<noteq> Loops) \<Longrightarrow>
    0 < unat cost \<or> halting ex \<Longrightarrow> op_law (op_entry ex cost (Some dyn) a b (Some mem))"
  by (rule law_memory [where bonus = "\<lambda>_. 0" and base = 0]) auto

lemma law_log: "op_law (op_entry (makeLog n) cost (Some (makeGasLog k)) a b (Some (mem_range x y)))"
  by (rule law_memory [OF _ _ log_law]) (simp_all add: give_back_ops plain_ends loop_free no_gains)

lemma law_check:
  "gives_back (\<lambda>_. 0) ex \<Longrightarrow> exec_ends ex \<Longrightarrow> gas_law False (\<lambda>_. 0) 0 dyn \<Longrightarrow> no_gain dyn \<Longrightarrow>
    (\<And>evm ms fr. dyn evm ms fr \<noteq> Loops) \<Longrightarrow> 0 < unat cost \<or> halting ex \<Longrightarrow>
    op_law (op_entry ex cost (Some dyn) a b None)"
  by (rule law_dynamic [where bonus = "\<lambda>_. 0" and base = 0]) auto

lemma law_priced:
  "gives_back (\<lambda>_. 0) ex \<Longrightarrow> exec_ends ex \<Longrightarrow> gas_law False (\<lambda>_. 0) 1 dyn \<Longrightarrow> no_gain dyn \<Longrightarrow>
    (\<And>evm ms fr. dyn evm ms fr \<noteq> Loops) \<Longrightarrow> op_law (op_entry ex cost (Some dyn) a b None)"
  by (rule law_dynamic [where bonus = "\<lambda>_. 0" and base = 1]) auto

text \<open>The calls, priced as before and as after access lists.\<close>

lemma law_calls:
  "0 < unat cost \<Longrightarrow> op_law (op_entry opCall cost (Some gasCall) a b (Some memoryCall))"
  "0 < unat cost \<Longrightarrow> op_law (op_entry opCallCode cost (Some gasCallCode) a b (Some memoryCall))"
  "0 < unat cost \<Longrightarrow> op_law (op_entry opDelegateCall cost (Some gasDelegateCall) a b (Some memoryDelegateCall))"
  "0 < unat cost \<Longrightarrow> op_law (op_entry opStaticCall cost (Some gasStaticCall) a b (Some memoryStaticCall))"
  unfolding memory_function_defs
  by (rule law_memory, rule calls_give_back, rule call_ends, rule call_law_gas,
      (rule gas_call_law call_code_law delegate_call_law)?, simp_all add: loop_free set_aside_stable no_gains)+

lemma law_calls_2929:
  "0 < unat cost \<Longrightarrow> op_law (op_entry opCall cost (Some gasCallEIP2929) a b (Some memoryCall))"
  "0 < unat cost \<Longrightarrow> op_law (op_entry opCallCode cost (Some gasCallCodeEIP2929) a b (Some memoryCall))"
  "0 < unat cost \<Longrightarrow> op_law (op_entry opDelegateCall cost (Some gasDelegateCallEIP2929) a b (Some memoryDelegateCall))"
  "0 < unat cost \<Longrightarrow> op_law (op_entry opStaticCall cost (Some gasStaticCallEIP2929) a b (Some memoryStaticCall))"
  unfolding memory_function_defs gas_function_defs
  by (rule law_memory, rule calls_give_back, rule call_ends, rule call_variant_law,
      rule gas_call_law call_code_law delegate_call_law, simp_all add: loop_free set_aside_stable no_gains)+

lemmas entry_laws = no_gains give_back_ops plain_ends call_ends halting_ops memory_gas_laws other_gas_laws loop_free

lemma group_laws:
  "list_all (\<lambda>e. op_law (snd e)) frontier_arith" "list_all (\<lambda>e. op_law (snd e)) frontier_env"
  "list_all (\<lambda>e. op_law (snd e)) frontier_flow" "list_all (\<lambda>e. op_law (snd e)) frontier_push_low"
  "list_all (\<lambda>e. op_law (snd e)) frontier_push_high" "list_all (\<lambda>e. op_law (snd e)) frontier_dup"
  "list_all (\<lambda>e. op_law (snd e)) frontier_swap"
  unfolding frontier_arith_def frontier_env_def frontier_flow_def frontier_push_low_def frontier_push_high_def
    frontier_dup_def frontier_swap_def memory_function_defs gas_function_defs table_prices
  by (simp only: list.pred_inject snd_conv, intro conjI TrueI ;
      (rule law_plain | rule law_memory_plain | rule law_priced) ; simp add: entry_laws del: One_nat_def)+

lemma calls_group_law: "list_all (\<lambda>e. op_law (snd e)) frontier_calls"
  unfolding frontier_calls_def memoryLog_def memoryCreate_def memoryReturn_def table_prices
  by (simp only: list.pred_inject snd_conv, intro conjI TrueI ;
      (rule law_log | rule law_calls | rule law_memory_plain | rule law_check) ;
      simp add: entry_laws del: One_nat_def)

lemma frontier_law: "op_law (newFrontierInstructionSet op)"
proof -
  have "op_law e" if "map_of (frontier_arith @ frontier_env @ frontier_flow @ frontier_push_low
      @ frontier_push_high @ frontier_dup @ frontier_swap @ frontier_calls) op = Some e" for e
    using that group_laws calls_group_law by (auto simp: list_all_iff dest!: map_of_SomeD)
  moreover have "op_law (op_entry opUndefined 0 None 0 (maxStack 0 0) None)"
    by (rule law_plain) (simp_all add: entry_laws)
  ultimately show ?thesis by (simp add: newFrontierInstructionSet_def split: option.split)
qed

text \<open>The entries that later forks change, as the tables before them have them.\<close>

lemmas frontier_groups = frontier_arith_def frontier_env_def frontier_flow_def frontier_push_low_def
  frontier_push_high_def frontier_dup_def frontier_swap_def frontier_calls_def

lemma frontier_entries:
  "newFrontierInstructionSet 0x0A = op_entry opExp 0 (Some gasExpFrontier) (minStack 2 1) (maxStack 2 1) None"
  "newFrontierInstructionSet 0x31 = op_entry opBalance BalanceGasFrontier None (minStack 1 1) (maxStack 1 1) None"
  "newFrontierInstructionSet 0x3B = op_entry opExtCodeSize ExtcodeSizeGasFrontier None (minStack 1 1) (maxStack 1 1) None"
  "newFrontierInstructionSet 0x3C = op_entry opExtCodeCopy ExtcodeCopyBaseFrontier (Some (memoryCopierGas 3))
     (minStack 4 0) (maxStack 4 0) (Some memoryExtCodeCopy)"
  "newFrontierInstructionSet 0x54 = op_entry opSload SloadGasFrontier None (minStack 1 1) (maxStack 1 1) None"
  "newFrontierInstructionSet 0x55 = op_entry opSstore 0 (Some gasSStore) (minStack 2 0) (maxStack 2 0) None"
  "newFrontierInstructionSet 0xF1 = op_entry opCall CallGasFrontier (Some gasCall) (minStack 7 1) (maxStack 7 1)
     (Some memoryCall)"
  "newFrontierInstructionSet 0xF2 = op_entry opCallCode CallGasFrontier (Some gasCallCode) (minStack 7 1)
     (maxStack 7 1) (Some memoryCall)"
  "newFrontierInstructionSet 0xFF = op_entry opSelfdestruct 0 (Some gasSelfdestruct) (minStack 1 0) (maxStack 1 0) None"
  by (simp_all add: newFrontierInstructionSet_def frontier_groups)

lemma set_apply:
  "set_cost op cost jt x = (if x = op then (jt op)\<lparr>constantGas := cost\<rparr> else jt x)"
  "set_dynamic op dyn jt x = (if x = op then (jt op)\<lparr>dynamicGas := Some dyn\<rparr> else jt x)"
  by (simp_all add: set_cost_def set_dynamic_def)

definition table_law :: "(operation \<Rightarrow> bool) \<Rightarrow> JumpTable \<Rightarrow> bool" where
  "table_law P jt \<longleftrightarrow> (\<forall>op. P (jt op))"

lemma table_upd: "table_law P jt \<Longrightarrow> P e \<Longrightarrow> table_law P (jt(op := e))"
  by (simp add: table_law_def)

lemma table_cost: "table_law P jt \<Longrightarrow> P ((jt op)\<lparr>constantGas := cost\<rparr>) \<Longrightarrow> table_law P (set_cost op cost jt)"
  by (simp add: table_law_def set_apply)

lemma table_dynamic:
  "table_law P jt \<Longrightarrow> P ((jt op)\<lparr>dynamicGas := Some dyn\<rparr>) \<Longrightarrow> table_law P (set_dynamic op dyn jt)"
  by (simp add: table_law_def set_apply)

lemma table_both:
  "table_law P jt \<Longrightarrow> P ((jt op)\<lparr>constantGas := cost, dynamicGas := Some dyn\<rparr>) \<Longrightarrow>
    table_law P (set_dynamic op dyn (set_cost op cost jt))"
  by (simp add: table_law_def set_apply)

lemmas table_rules = table_upd table_both table_cost table_dynamic
lemmas fork_defs = newHomesteadInstructionSet_def newTangerineWhistleInstructionSet_def
  newSpuriousDragonInstructionSet_def newByzantiumInstructionSet_def newConstantinopleInstructionSet_def
  enable1344_def enable1884_def enable2200_def newIstanbulInstructionSet_def enable2929_def
  newBerlinInstructionSet_def enable3529_def enable3198_def newLondonInstructionSet_def newMergeInstructionSet_def

text \<open>
  A property of operations holds of every table when it holds of the first one and of the entries
  that the forks add or change.
\<close>

definition fork_entries :: "operation list" where
  "fork_entries =
    [op_entry opDelegateCall CallGasFrontier (Some gasDelegateCall) 6 (maxStack 6 1) (Some memoryDelegateCall),
     op_entry opDelegateCall CallGasEIP150 (Some gasDelegateCall) 6 (maxStack 6 1) (Some memoryDelegateCall),
     op_entry opDelegateCall 100 (Some gasDelegateCallEIP2929) 6 (maxStack 6 1) (Some memoryDelegateCall),
     op_entry opCall CallGasEIP150 (Some gasCall) 7 (maxStack 7 1) (Some memoryCall),
     op_entry opCall 100 (Some gasCallEIP2929) 7 (maxStack 7 1) (Some memoryCall),
     op_entry opCallCode CallGasEIP150 (Some gasCallCode) 7 (maxStack 7 1) (Some memoryCall),
     op_entry opCallCode 100 (Some gasCallCodeEIP2929) 7 (maxStack 7 1) (Some memoryCall),
     op_entry opStaticCall CallGasEIP150 (Some gasStaticCall) 6 (maxStack 6 1) (Some memoryStaticCall),
     op_entry opStaticCall 100 (Some gasStaticCallEIP2929) 6 (maxStack 6 1) (Some memoryStaticCall),
     op_entry opExtCodeCopy ExtcodeCopyBaseEIP150 (Some (memoryCopierGas 3)) 4 (maxStack 4 0) (Some memoryExtCodeCopy),
     op_entry opExtCodeCopy 100 (Some gasExtCodeCopyEIP2929) 4 (maxStack 4 0) (Some memoryExtCodeCopy),
     op_entry opExtCodeSize ExtcodeSizeGasEIP150 None 1 (maxStack 1 1) None,
     op_entry opExtCodeSize 100 (Some gasEip2929AccountCheck) 1 (maxStack 1 1) None,
     op_entry opBalance BalanceGasEIP150 None 1 (maxStack 1 1) None,
     op_entry opBalance BalanceGasEIP1884 None 1 (maxStack 1 1) None,
     op_entry opBalance 100 (Some gasEip2929AccountCheck) 1 (maxStack 1 1) None,
     op_entry opSload SloadGasEIP150 None 1 (maxStack 1 1) None,
     op_entry opSload SloadGasEIP1884 None 1 (maxStack 1 1) None,
     op_entry opSload SloadGasEIP2200 None 1 (maxStack 1 1) None,
     op_entry opSload 0 (Some gasSLoadEIP2929) 1 (maxStack 1 1) None,
     op_entry opExp 0 (Some gasExpEIP158) 2 (maxStack 2 1) None,
     op_entry opReturnDataSize GasQuickStep None 0 (maxStack 0 1) None,
     op_entry opReturnDataCopy GasFastestStep (Some (memoryCopierGas 2)) 3 (maxStack 3 0) (Some memoryReturnDataCopy),
     op_entry opRevert 0 (Some pureMemoryGascost) 2 (maxStack 2 0) (Some memoryRevert),
     op_entry opSHL GasFastestStep None 2 (maxStack 2 1) None,
     op_entry opSHR GasFastestStep None 2 (maxStack 2 1) None,
     op_entry opSAR GasFastestStep None 2 (maxStack 2 1) None,
     op_entry opExtCodeHash ExtcodeHashGasConstantinople None 1 (maxStack 1 1) None,
     op_entry opExtCodeHash ExtcodeHashGasEIP1884 None 1 (maxStack 1 1) None,
     op_entry opExtCodeHash 100 (Some gasEip2929AccountCheck) 1 (maxStack 1 1) None,
     op_entry opCreate2 Create2Gas (Some gasCreate2) 4 (maxStack 4 1) (Some memoryCreate2),
     op_entry opChainID GasQuickStep None 0 (maxStack 0 1) None,
     op_entry opSelfBalance GasFastStep None 0 (maxStack 0 1) None,
     op_entry opBaseFee GasQuickStep None 0 (maxStack 0 1) None,
     op_entry opRandom GasQuickStep None 0 (maxStack 0 1) None,
     op_entry opSstore 0 (Some gasSStoreEIP2200) 2 (maxStack 2 0) None,
     op_entry opSstore 0 (Some gasSStoreEIP2929) 2 (maxStack 2 0) None,
     op_entry opSstore 0 (Some gasSStoreEIP3529) 2 (maxStack 2 0) None,
     op_entry opSelfdestruct SelfdestructGasEIP150 (Some gasSelfdestructEIP2929) 1 (maxStack 1 0) None,
     op_entry opSelfdestruct SelfdestructGasEIP150 (Some gasSelfdestructEIP3529) 1 (maxStack 1 0) None]"

lemma fork_tables:
  assumes "table_law P newFrontierInstructionSet" and "list_all P fork_entries"
  shows "table_law P newHomesteadInstructionSet" and "table_law P newTangerineWhistleInstructionSet"
    and "table_law P newSpuriousDragonInstructionSet" and "table_law P newByzantiumInstructionSet"
    and "table_law P newConstantinopleInstructionSet" and "table_law P newIstanbulInstructionSet"
    and "table_law P newBerlinInstructionSet" and "table_law P newLondonInstructionSet"
    and "table_law P newMergeInstructionSet"
  using assms(2) unfolding fork_entries_def list.pred_inject fork_defs Let_def
  by ((intro table_rules assms(1) ;
      simp add: frontier_entries set_apply minStack_def WarmStorageReadCostEIP2929_def)+)

lemma interpreter_table:
  assumes "table_law P newFrontierInstructionSet" and "list_all P fork_entries"
  shows "P (NewEVMInterpreter rules op)"
  using fork_tables [OF assms] assms(1) by (simp add: NewEVMInterpreter_def table_law_def)

lemma fork_law: "list_all op_law fork_entries"
  unfolding fork_entries_def list.pred_inject
  by (intro conjI list.pred_inject(1) ;
      ((rule law_calls ; (simp add: table_prices ; fail)) |
       (rule law_calls_2929 ; (simp ; fail)) |
       ((unfold memory_function_defs gas_function_defs table_prices)?,
        ((rule law_plain ; (simp add: entry_laws ; fail)) |
         (rule law_memory_plain ; (simp add: entry_laws ; fail)) |
         (rule law_check ; (simp add: entry_laws ; fail)) |
         (rule law_priced ; (simp add: entry_laws del: One_nat_def ; fail))))))

lemma table_op_law: "op_law (NewEVMInterpreter rules op)"
  by (rule interpreter_table) (simp_all add: table_law_def frontier_law fork_law)

section \<open>Every instruction of every table keeps the effects\<close>

context state_effect
begin

definition op_effect :: "operation \<Rightarrow> bool" where
  "op_effect o1 \<longleftrightarrow> exec_effect (execute o1) \<and> (\<forall>dyn. dynamicGas o1 = Some dyn \<longrightarrow> gas_effect dyn)"

lemma op_effect_entry:
  "op_effect (op_entry ex cost None a b mem) = exec_effect ex"
  "op_effect (op_entry ex cost (Some dyn) a b mem) = (exec_effect ex \<and> gas_effect dyn)"
  by (simp_all add: op_effect_def)

lemmas exec_effects = quiet_ops [THEN quiet_effect] state_ops_effect call_ops_effect create_ops_effect
lemmas gas_effects = memory_gas_effect sstore_effect selfdestruct_effect selfdestruct2929_effect access_effect
  extcodecopy_effect call_variant_effect

lemma group_effects:
  "list_all (\<lambda>e. op_effect (snd e)) frontier_arith" "list_all (\<lambda>e. op_effect (snd e)) frontier_env"
  "list_all (\<lambda>e. op_effect (snd e)) frontier_flow" "list_all (\<lambda>e. op_effect (snd e)) frontier_push_low"
  "list_all (\<lambda>e. op_effect (snd e)) frontier_push_high" "list_all (\<lambda>e. op_effect (snd e)) frontier_dup"
  "list_all (\<lambda>e. op_effect (snd e)) frontier_swap" "list_all (\<lambda>e. op_effect (snd e)) frontier_calls"
  unfolding frontier_groups gas_function_defs
  by (simp_all add: op_effect_entry exec_effects gas_effects)

lemma frontier_effect: "op_effect (newFrontierInstructionSet op)"
proof -
  have "op_effect e" if "map_of (frontier_arith @ frontier_env @ frontier_flow @ frontier_push_low
      @ frontier_push_high @ frontier_dup @ frontier_swap @ frontier_calls) op = Some e" for e
    using that group_effects by (auto simp: list_all_iff dest!: map_of_SomeD)
  then show ?thesis
    by (simp add: newFrontierInstructionSet_def op_effect_entry exec_effects split: option.split)
qed

lemma fork_effect: "list_all op_effect fork_entries"
  unfolding fork_entries_def gas_function_defs by (simp add: op_effect_entry exec_effects gas_effects)

lemma table_effect: "op_effect (NewEVMInterpreter rules op)"
  by (rule interpreter_table) (simp_all add: table_law_def frontier_effect fork_effect)

end

text \<open>C15. Every instruction set the interpreter can choose passes \<open>validate\<close>: an operation with a
  memory size has a dynamic cost, for all 256 opcodes and all chain rules.\<close>

theorem instruction_sets_validate: "validate (NewEVMInterpreter rules)"
proof -
  have "memorySize (NewEVMInterpreter rules op) = None \<or> dynamicGas (NewEVMInterpreter rules op) \<noteq> None" for op
    using table_op_law [of rules op] by (auto simp: op_law_def op_covered_def split: option.splits)
  then show ?thesis by (auto simp: validate_def list_all_iff Option.is_none_def)
qed

end
