(* ===== verification/Zond_Interpreter.thy ===== *)
theory Zond_Interpreter
  imports Zond_JumpTable
begin

text \<open>
  The interpreter loop (\<^verbatim>\<open>core/vm/interpreter.go\<close>): one step charges for the instruction at the program
  counter and executes it; a run repeats steps until one of them returns an error, the stop token
  included. The theory shows that a run always ends: every step that does not end it takes gas.
\<close>

section \<open>One step\<close>

definition set_gas :: "u64 \<Rightarrow> Frame \<Rightarrow> Frame" where
  "set_gas g fr = fr\<lparr>f_contract := (f_contract fr)\<lparr>c_Gas := g\<rparr>\<rparr>"

definition frame_gas :: "Frame \<Rightarrow> u64" where "frame_gas fr = c_Gas (f_contract fr)"

text \<open>The memory size an operation asks for, in whole words.\<close>

definition memory_need :: "operation \<Rightarrow> Stack \<Rightarrow> (goerr, VMError + u64) outcome" where
  "memory_need o1 st =
     (case memorySize o1 of
        None \<Rightarrow> Ok (Inr 0)
      | Some f \<Rightarrow> and_then (f st) (\<lambda>(memSize, overflow).
          if overflow then Ok (Inl ErrGasUintOverflow)
          else let (size1, overflow1) = SafeMul (toWordSize memSize) 32 in
            if overflow1 then Ok (Inl ErrGasUintOverflow) else Ok (Inr size1)))"

text \<open>The part of the loop body before the instruction runs; any error of the dynamic cost is out of gas.\<close>

definition charge_dynamic :: "operation \<Rightarrow> gasFunc \<Rightarrow> EVM \<Rightarrow> Frame \<Rightarrow> (goerr, Frame \<times> VMError option) outcome"
  where
  "charge_dynamic o1 dyn evm fr =
     and_then (memory_need o1 (f_stack fr)) (\<lambda>need. case need of
       Inl e \<Rightarrow> Ok (fr, Some e)
     | Inr size1 \<Rightarrow> and_then (dyn evm size1 fr) (\<lambda>(fr1, res). case res of
           Inl e \<Rightarrow> Ok (fr1, Some ErrOutOfGas)
         | Inr cost \<Rightarrow> (case UseGas cost (frame_gas fr1) of
               None \<Rightarrow> Ok (fr1, Some ErrOutOfGas)
             | Some g \<Rightarrow>
                 let fr2 = set_gas g fr1 in
                 Ok (if size1 > 0 then fr2\<lparr>f_mem := mem_Resize size1 (f_mem fr2)\<rparr> else fr2, None))))"

definition charge :: "operation \<Rightarrow> EVM \<Rightarrow> Frame \<Rightarrow> (goerr, Frame \<times> VMError option) outcome" where
  "charge o1 evm fr =
     (let sLen = length (f_stack fr) in
      if sLen < op_minStack o1 then Ok (fr, Some (ErrStackUnderflow sLen (op_minStack o1)))
      else if sLen > op_maxStack o1 then Ok (fr, Some (ErrStackOverflow sLen (op_maxStack o1)))
      else case UseGas (constantGas o1) (frame_gas fr) of
        None \<Rightarrow> Ok (fr, Some ErrOutOfGas)
      | Some g \<Rightarrow>
          (case dynamicGas o1 of
             None \<Rightarrow> Ok (set_gas g fr, None)
           | Some dyn \<Rightarrow> charge_dynamic o1 dyn evm (set_gas g fr)))"

definition step :: "JumpTable \<Rightarrow> EVM \<Rightarrow> RunFn \<Rightarrow> nat \<Rightarrow> bool \<Rightarrow> Frame \<Rightarrow> Step" where
  "step jt evm run d ro fr =
     (let o1 = jt (GetOp (f_pc fr) (c_Code (f_contract fr))) in
      and_then (charge o1 evm fr) (\<lambda>(fr1, e). case e of
        Some err \<Rightarrow> Ok (fr1, [], Some err)
      | None \<Rightarrow> and_then (execute o1 evm run d ro fr1) (\<lambda>(fr2, res, err).
          if err = None then Ok (fr2\<lparr>f_pc := f_pc fr2 + 1\<rparr>, res, None) else Ok (fr2, res, err))))"

section \<open>The loop\<close>

text \<open>The loop with a bound on its steps; running out of the bound is the outcome \<open>Loops\<close>.\<close>

fun run_loop :: "nat \<Rightarrow> JumpTable \<Rightarrow> EVM \<Rightarrow> RunFn \<Rightarrow> nat \<Rightarrow> bool \<Rightarrow> Frame \<Rightarrow> Step" where
  "run_loop 0 jt evm run d ro fr = Loops"
| "run_loop (Suc n) jt evm run d ro fr =
     and_then (step jt evm run d ro fr) (\<lambda>(fr1, res, err). case err of
       None \<Rightarrow> run_loop n jt evm run d ro fr1
     | Some e \<Rightarrow> Ok (fr1, res, if e = errStopToken then None else Some e))"

definition initial_frame :: "Contract \<Rightarrow> bytes \<Rightarrow> StateDB \<Rightarrow> Frame" where
  "initial_frame c input s =
     \<lparr>f_pc = 0, f_stack = [], f_mem = NewMemory, f_contract = c\<lparr>c_Input := input\<rparr>, f_returnData = [],
      f_callGasTemp = 0, f_db = s\<rparr>"

definition frame_result :: "Frame \<Rightarrow> bytes \<Rightarrow> VMError option \<Rightarrow> Result" where
  "frame_result fr res err = result res (frame_gas fr) err (f_db fr) (c_jumpdests (f_contract fr))"

text \<open>
  \<^verbatim>\<open>EVMInterpreter.Run\<close>; the first argument bounds the nesting of runs. The bound of the loop is one
  more than the gas of the contract.
\<close>

fun Run :: "nat \<Rightarrow> EVM \<Rightarrow> RunFn" where
  "Run 0 evm depth ro c input s = Loops"
| "Run (Suc n) evm depth ro c input s =
     (if length (c_Code c) = 0 then Ok (result [] (c_Gas c) None s (c_jumpdests c))
      else and_then (run_loop (Suc (unat (c_Gas c))) (NewEVMInterpreter (evm_rules evm)) evm (Run n evm)
             (Suc depth) ro (initial_frame c input s)) (\<lambda>(fr, res, err).
        Ok (frame_result fr res err)))"

text \<open>The nesting that \<^verbatim>\<open>CallCreateDepth\<close> allows.\<close>

definition interpreter :: "EVM \<Rightarrow> RunFn" where
  "interpreter evm = Run (Suc CallCreateDepth) evm"

section \<open>A step takes gas\<close>

lemma set_gas_sel [simp]:
  "frame_gas (set_gas g fr) = g" "f_stack (set_gas g fr) = f_stack fr" "f_mem (set_gas g fr) = f_mem fr"
  "f_db (set_gas g fr) = f_db fr" "frame_gas (fr\<lparr>f_mem := m\<rparr>) = frame_gas fr"
  "frame_gas (fr\<lparr>f_pc := pc\<rparr>) = frame_gas fr"
  by (simp_all add: set_gas_def frame_gas_def)

lemma memory_need_words:
  assumes "memory_need o1 st = Ok (Inr size1)"
  shows "if memorySize o1 \<noteq> None then 32 dvd unat size1 else size1 = 0"
proof -
  have "32 dvd unat (w * 32)" if "unat w * unat (32 :: u64) < 2 ^ 64" for w :: u64
    using that by (simp add: unat_word_ariths)
  then show ?thesis
    using assms by (auto simp: memory_need_def SafeMul_def Let_def outcome_simps not_le split: option.split_asm if_split_asm)
qed

text \<open>What charging for an operation leaves: no more gas, and when it succeeds a memory that is paid for
  and a frame whose gas with what the operation may give back is below what there was.\<close>

lemma UseGas_unat: "UseGas g h = Some x \<Longrightarrow> unat x + unat g = unat h"
  by (auto simp: UseGas_eq unat_sub_le word_le_nat_alt)

lemma charge_dynamic_cases:
  assumes "charge_dynamic o1 dyn evm fr = Ok (fr1, e)"
  shows "fr1 = fr \<and> e \<noteq> None
    \<or> (\<exists>size1 res. dyn evm size1 fr = Ok (fr1, res) \<and> e \<noteq> None)
    \<or> (\<exists>size1 fr0 cost g. memory_need o1 (f_stack fr) = Ok (Inr size1) \<and> dyn evm size1 fr = Ok (fr0, Inr cost)
        \<and> UseGas cost (frame_gas fr0) = Some g \<and> e = None
        \<and> fr1 = (set_gas g fr0)\<lparr>f_mem := charged size1 (f_mem fr0)\<rparr>)"
proof -
  obtain need where need: "memory_need o1 (f_stack fr) = Ok need"
    using assms by (auto simp: charge_dynamic_def outcome_simps)
  show ?thesis
  proof (cases need)
    case (Inl x)
    then show ?thesis using assms need by (auto simp: charge_dynamic_def)
  next
    case (Inr size1)
    then obtain fr0 res where dyn: "dyn evm size1 fr = Ok (fr0, res)"
      using assms need by (auto simp: charge_dynamic_def outcome_simps)
    have same: "(set_gas g fr0)\<lparr>f_mem := charged size1 (f_mem fr0)\<rparr> =
        (if size1 > 0 then (set_gas g fr0)\<lparr>f_mem := mem_Resize size1 (f_mem fr0)\<rparr> else set_gas g fr0)" for g
      by (simp add: charged_def set_gas_def)
    show ?thesis
      using assms need Inr dyn
      by (cases res) (auto simp: charge_dynamic_def Let_def same [symmetric] charged_def split: option.split_asm if_split_asm)
  qed
qed

lemma charge_dynamic_law:
  assumes "charge_dynamic o1 dyn evm fr = Ok (fr1, None)" and "gas_law (memorySize o1 \<noteq> None) bonus base dyn"
    and "IsEIP150 (evm_rules evm)" and "mem_wf (f_mem fr)"
    and bonus: "\<And>fr c. bonus (fr\<lparr>f_contract := c\<rparr>) = bonus fr" "\<And>fr m. bonus (fr\<lparr>f_mem := m\<rparr>) = bonus fr"
  shows "unat (frame_gas fr1) + base + bonus fr1 \<le> unat (frame_gas fr) \<and> mem_wf (f_mem fr1)"
proof -
  obtain size1 fr0 cost g where need: "memory_need o1 (f_stack fr) = Ok (Inr size1)"
    and dyn: "dyn evm size1 fr = Ok (fr0, Inr cost)" and use: "UseGas cost (frame_gas fr0) = Some g"
    and fr1: "fr1 = (set_gas g fr0)\<lparr>f_mem := charged size1 (f_mem fr0)\<rparr>"
    using charge_dynamic_cases [OF assms(1)] by blast
  have law: "c_Gas (f_contract fr0) = c_Gas (f_contract fr)" "base + bonus fr0 \<le> unat cost"
    "mem_wf (charged size1 (f_mem fr0))"
    using assms(2-4) dyn memory_need_words [OF need] unfolding gas_law_def by blast+
  have "bonus fr1 = bonus fr0" using fr1 by (simp add: set_gas_def bonus)
  moreover have "frame_gas fr1 = g" "f_mem fr1 = charged size1 (f_mem fr0)" using fr1 by simp_all
  ultimately show ?thesis using law UseGas_unat [OF use] by (simp add: frame_gas_def)
qed

lemma charge_law:
  assumes "charge o1 evm fr = Ok (fr1, None)" and "op_covered bonus base o1"
    and "IsEIP150 (evm_rules evm)" and "mem_wf (f_mem fr)"
    and bonus: "\<And>fr c. bonus (fr\<lparr>f_contract := c\<rparr>) = bonus fr" "\<And>fr m. bonus (fr\<lparr>f_mem := m\<rparr>) = bonus fr"
  shows "unat (frame_gas fr1) + (base + unat (constantGas o1)) + bonus fr1 \<le> unat (frame_gas fr) \<and> mem_wf (f_mem fr1)"
proof -
  obtain g where use: "UseGas (constantGas o1) (frame_gas fr) = Some g"
    and rest: "(case dynamicGas o1 of None \<Rightarrow> Ok (set_gas g fr, None)
      | Some dyn \<Rightarrow> charge_dynamic o1 dyn evm (set_gas g fr)) = Ok (fr1, None)"
    using assms(1) unfolding charge_def Let_def by (auto split: if_split_asm option.split_asm)
  show ?thesis
  proof (cases "dynamicGas o1")
    case None
    then show ?thesis using rest assms(2,4) UseGas_unat [OF use] by (auto simp: op_covered_def)
  next
    case (Some dyn)
    then have "charge_dynamic o1 dyn evm (set_gas g fr) = Ok (fr1, None)"
      "gas_law (memorySize o1 \<noteq> None) bonus base dyn" using rest assms(2) by (simp_all add: op_covered_def)
    from charge_dynamic_law [OF this assms(3) _ bonus] show ?thesis
      using assms(4) UseGas_unat [OF use] by simp
  qed
qed

lemma charge_no_gain:
  assumes "charge o1 evm fr = Ok (fr1, e)" and "op_covered bonus base o1"
  shows "frame_gas fr1 \<le> frame_gas fr"
proof -
  have le: "g \<le> h" if "UseGas c h = Some g" for c g h using UseGas_unat [OF that] by (simp add: word_le_nat_alt)
  have dyn: "frame_gas fr1 \<le> frame_gas fr0"
    if "no_gain dyn" "charge_dynamic o1 dyn evm fr0 = Ok (fr1, e)" for dyn fr0
  proof -
    have ng: "frame_gas fr3 \<le> frame_gas fr2" if "dyn evm ms fr2 = Ok (fr3, res)" for ms fr2 fr3 res
      using that \<open>no_gain dyn\<close> unfolding no_gain_def frame_gas_def by blast
    show ?thesis
      using charge_dynamic_cases [OF that(2)] by (auto dest!: ng intro: order_trans [OF le])
  qed
  show ?thesis
    using assms unfolding charge_def Let_def op_covered_def
    by (auto split: if_split_asm option.split_asm dest: le dest!: dyn intro: order_trans)
qed

lemma op_lawE:
  assumes "op_law o1"
  obtains bonus base where "gives_back bonus (execute o1)" "op_covered bonus base o1"
    "\<And>fr c. bonus (fr\<lparr>f_contract := c\<rparr>) = bonus fr" "\<And>fr m. bonus (fr\<lparr>f_mem := m\<rparr>) = bonus fr"
    "0 < base + unat (constantGas o1) \<or> halting (execute o1)"
  using assms unfolding op_law_def by blast

lemma step_cases:
  assumes "step jt evm run d ro fr = Ok (fr1, res, err)"
  shows "let o1 = jt (GetOp (f_pc fr) (c_Code (f_contract fr))) in
    charge o1 evm fr = Ok (fr1, err) \<and> err \<noteq> None
    \<or> (\<exists>fr0 fr2. charge o1 evm fr = Ok (fr0, None) \<and> execute o1 evm run d ro fr0 = Ok (fr2, res, err)
        \<and> f_db fr1 = f_db fr2 \<and> f_contract fr1 = f_contract fr2 \<and> f_mem fr1 = f_mem fr2)"
  using assms unfolding step_def Let_def
  by (auto simp: outcome_simps split: option.split_asm if_split_asm)

lemma step_law:
  assumes "step jt evm run d ro fr = Ok (fr1, res, err)" and law: "\<And>op. op_law (jt op)" and "run_gas run"
    and "IsEIP150 (evm_rules evm)" and "mem_wf (f_mem fr)"
  shows "frame_gas fr1 \<le> frame_gas fr \<and> (err = None \<longrightarrow> frame_gas fr1 < frame_gas fr \<and> mem_wf (f_mem fr1))"
proof -
  define o1 where "o1 = jt (GetOp (f_pc fr) (c_Code (f_contract fr)))"
  obtain bonus base where b: "gives_back bonus (execute o1)" "op_covered bonus base o1"
    "\<And>fr c. bonus (fr\<lparr>f_contract := c\<rparr>) = bonus fr" "\<And>fr m. bonus (fr\<lparr>f_mem := m\<rparr>) = bonus fr"
    "0 < base + unat (constantGas o1) \<or> halting (execute o1)"
    using op_lawE [OF law] o1_def by metis
  from step_cases [OF assms(1)] consider
      (charged) "charge o1 evm fr = Ok (fr1, err)" "err \<noteq> None"
    | (executed) fr0 fr2 where "charge o1 evm fr = Ok (fr0, None)" "execute o1 evm run d ro fr0 = Ok (fr2, res, err)"
        "f_contract fr1 = f_contract fr2" "f_mem fr1 = f_mem fr2"
    unfolding o1_def Let_def by blast
  then show ?thesis
  proof cases
    case charged
    then show ?thesis using charge_no_gain [OF charged(1) b(2)] by auto
  next
    case executed
    have c: "unat (frame_gas fr0) + (base + unat (constantGas o1)) + bonus fr0 \<le> unat (frame_gas fr)"
      "mem_wf (f_mem fr0)" using charge_law [OF executed(1) b(2) assms(4,5) b(3,4)] by simp_all
    have g: "unat (frame_gas fr2) \<le> unat (frame_gas fr0) + bonus fr0" "mem_shape (f_mem fr2) = mem_shape (f_mem fr0)"
      using b(1) assms(3) executed(2) unfolding gives_back_def frame_gas_def by blast+
    have "err \<noteq> None" if "halting (execute o1)" using that executed(2) unfolding halting_def by blast
    then have "err = None \<longrightarrow> 0 < base + unat (constantGas o1)" using b(5) by auto
    then show ?thesis
      using c g executed(3,4) mem_wf_shape [OF g(2)] by (auto simp: frame_gas_def word_le_nat_alt word_less_nat_alt)
  qed
qed

section \<open>Runs end\<close>

lemma and_then_loop_free: "r \<noteq> Loops \<Longrightarrow> (\<And>x. k x \<noteq> Loops) \<Longrightarrow> and_then r k \<noteq> Loops"
  by (simp add: and_then_eq_Loops)

lemma op_law_ends:
  "op_law o1 \<Longrightarrow> memorySize o1 = Some f \<Longrightarrow> f st \<noteq> Loops"
  "op_law o1 \<Longrightarrow> dynamicGas o1 = Some dyn \<Longrightarrow> dyn evm ms fr \<noteq> Loops"
  "op_law o1 \<Longrightarrow> run_ends d run \<Longrightarrow> execute o1 evm run d ro fr \<noteq> Loops"
  unfolding op_law_def op_covered_def exec_ends_def by (elim conjE exE, simp)+

lemma memory_need_loop_free: "op_law o1 \<Longrightarrow> memory_need o1 st \<noteq> Loops"
  unfolding memory_need_def Let_def
  by (cases "memorySize o1") (simp_all add: and_then_eq_Loops op_law_ends(1) split: prod.split)

lemma charge_dynamic_loop_free:
  assumes "op_law o1" and "dynamicGas o1 = Some dyn"
  shows "charge_dynamic o1 dyn evm fr \<noteq> Loops"
  unfolding charge_dynamic_def Let_def
proof (rule and_then_loop_free [OF memory_need_loop_free [OF assms(1)]])
  fix need :: "VMError + u64"
  show "(case need of Inl e \<Rightarrow> Ok (fr, Some e)
    | Inr size1 \<Rightarrow> and_then (dyn evm size1 fr) (\<lambda>(fr1, res). case res of
        Inl e \<Rightarrow> Ok (fr1, Some ErrOutOfGas)
      | Inr cost \<Rightarrow> (case UseGas cost (frame_gas fr1) of
          None \<Rightarrow> Ok (fr1, Some ErrOutOfGas)
        | Some g \<Rightarrow> Ok (if size1 > 0 then (set_gas g fr1)\<lparr>f_mem := mem_Resize size1 (f_mem (set_gas g fr1))\<rparr>
            else set_gas g fr1, None)))) \<noteq> Loops"
  proof (cases need)
    case (Inr size1)
    show ?thesis unfolding Inr sum.case
      by (rule and_then_loop_free [OF op_law_ends(2) [OF assms]])
        (simp only: case_prod_beta, rule sum.split [THEN iffD2], simp split: option.split)
  qed simp
qed

lemma charge_loop_free: "op_law o1 \<Longrightarrow> charge o1 evm fr \<noteq> Loops"
  unfolding charge_def Let_def using charge_dynamic_loop_free by (simp split: option.split)

lemma step_loop_free:
  assumes "\<And>op. op_law (jt op)" and "run_ends d run"
  shows "step jt evm run d ro fr \<noteq> Loops"
proof -
  have ex: "execute (jt op) evm run d ro fr0 \<noteq> Loops" for op fr0
    by (rule op_law_ends(3) [OF assms])
  show ?thesis
    unfolding step_def Let_def
    by (intro and_then_loop_free charge_loop_free [OF assms(1)])
      (simp add: and_then_eq_Loops ex split: option.split prod.split)
qed

text \<open>A bound above the gas of the frame is enough, and the run leaves no more gas than there was.\<close>

lemma run_loop_ends:
  assumes law: "\<And>op. op_law (jt op)" and "run_gas run" and "IsEIP150 (evm_rules evm)" and "run_ends d run"
  shows "mem_wf (f_mem fr) \<Longrightarrow> unat (frame_gas fr) < n \<Longrightarrow> run_loop n jt evm run d ro fr \<noteq> Loops"
proof (induction n arbitrary: fr)
  case (Suc n)
  have "run_loop n jt evm run d ro fr2 \<noteq> Loops" if "step jt evm run d ro fr = Ok (fr2, res1, None)" for fr2 res1
    using step_law [OF that law assms(2,3) Suc.prems(1)] Suc.IH Suc.prems(2) by (auto simp: word_less_nat_alt)
  then show ?case
    using step_loop_free [OF law assms(4)] by (auto simp: and_then_eq_Loops split: option.split_asm)
qed simp

lemma run_loop_gas:
  assumes law: "\<And>op. op_law (jt op)" and "run_gas run" and "IsEIP150 (evm_rules evm)"
  shows "mem_wf (f_mem fr) \<Longrightarrow> run_loop n jt evm run d ro fr = Ok (fr1, res, e) \<Longrightarrow> frame_gas fr1 \<le> frame_gas fr"
proof (induction n arbitrary: fr)
  case (Suc n)
  obtain fr2 res1 err where st: "step jt evm run d ro fr = Ok (fr2, res1, err)"
    using Suc.prems(2) by (auto simp: outcome_simps)
  note l = step_law [OF st law assms(2,3) Suc.prems(1)]
  show ?case
  proof (cases err)
    case None
    then have "run_loop n jt evm run d ro fr2 = Ok (fr1, res, e)" using Suc.prems(2) st by simp
    then show ?thesis using l None Suc.IH [of fr2] by auto
  next
    case (Some x)
    then show ?thesis using l Suc.prems(2) st by auto
  qed
qed simp

lemma initial_frame_sel [simp]:
  "frame_gas (initial_frame c input s) = c_Gas c" "f_mem (initial_frame c input s) = NewMemory"
  "f_db (initial_frame c input s) = s"
  by (simp_all add: initial_frame_def frame_gas_def)

lemma Run_gas:
  assumes "IsEIP150 (evm_rules evm)"
  shows "run_gas (Run n evm)"
proof (induction n)
  case (Suc n)
  show ?case unfolding run_gas_def
  proof (intro allI impI)
    fix d ro c i s r
    assume r: "Run (Suc n) evm d ro c i s = Ok r"
    show "r_gas r \<le> c_Gas c"
    proof (cases "length (c_Code c) = 0")
      case True
      then show ?thesis using r by (auto simp: result_def)
    next
      case False
      then obtain fr res e where l: "run_loop (Suc (unat (c_Gas c))) (NewEVMInterpreter (evm_rules evm)) evm
          (Run n evm) (Suc d) ro (initial_frame c i s) = Ok (fr, res, e)" and "r = frame_result fr res e"
        using r by (auto simp: outcome_simps simp del: run_loop.simps)
      then show ?thesis
        using run_loop_gas [OF table_op_law Suc assms _ l] NewMemory_wf by (simp add: frame_result_def result_def)
    qed
  qed
qed (simp add: run_gas_def)

lemma Run_ends:
  assumes "IsEIP150 (evm_rules evm)"
  shows "CallCreateDepth < d + n \<Longrightarrow> Run n evm d ro c i s \<noteq> Loops \<or> CallCreateDepth < d"
proof (induction n arbitrary: d ro c i s)
  case (Suc n)
  have "run_ends (Suc d) (Run n evm)"
    using Suc.IH [of "Suc d"] Suc.prems unfolding run_ends_def by auto
  then have "run_loop (Suc (unat (c_Gas c))) (NewEVMInterpreter (evm_rules evm)) evm (Run n evm) (Suc d) ro
      (initial_frame c i s) \<noteq> Loops"
    by (intro run_loop_ends [OF table_op_law Run_gas [OF assms] assms]) (simp_all add: NewMemory_wf)
  then show ?case by (auto simp: outcome_simps simp del: run_loop.simps)
qed simp

section \<open>Runs keep the effects\<close>

context state_effect
begin

lemma charge_effect:
  assumes "op_effect o1" and "evm_env evm = env" and "charge o1 evm fr = Ok (fr1, e)"
  shows "R ro (f_db fr) (f_db fr1)"
proof -
  have g: "R ro (f_db fr0) (f_db fr2)" if "dynamicGas o1 = Some dyn" "dyn evm ms fr0 = Ok (fr2, res)"
    for dyn ms fr0 fr2 res
    using assms(1,2) that unfolding op_effect_def gas_effect_def by blast
  have dyn: "R ro (f_db fr0) (f_db fr1)" if "dynamicGas o1 = Some dyn" "charge_dynamic o1 dyn evm fr0 = Ok (fr1, e)"
    for dyn fr0
    using charge_dynamic_cases [OF that(2)] g [OF that(1)] by (auto simp: effect_refl)
  show ?thesis
    using assms(3) unfolding charge_def Let_def
    by (auto simp: effect_refl split: if_split_asm option.split_asm dest!: dyn)
qed

lemma step_effect:
  assumes "step jt evm run d ro fr = Ok (fr1, res, err)" and law: "\<And>op. op_effect (jt op)"
    and "run_effect run" and "evm_env evm = env"
  shows "R ro (f_db fr) (f_db fr1)"
proof -
  have ex: "R ro (f_db fr0) (f_db fr2)" if "execute (jt op) evm run d ro fr0 = Ok (fr2, r, e)" for op fr0 fr2 r e
    using law assms(3,4) that unfolding op_effect_def exec_effect_def by blast
  show ?thesis
    using step_cases [OF assms(1)] charge_effect [OF law assms(4)] ex effect_trans
    unfolding Let_def by metis
qed

lemma run_loop_effect:
  assumes law: "\<And>op. op_effect (jt op)" and "run_effect run" and "evm_env evm = env"
  shows "run_loop n jt evm run d ro fr = Ok (fr1, res, e) \<Longrightarrow> R ro (f_db fr) (f_db fr1)"
proof (induction n arbitrary: fr)
  case (Suc n)
  obtain fr2 res1 err where st: "step jt evm run d ro fr = Ok (fr2, res1, err)"
    using Suc.prems by (auto simp: outcome_simps)
  note l = step_effect [OF st law assms(2,3)]
  show ?case
  proof (cases err)
    case None
    then have "run_loop n jt evm run d ro fr2 = Ok (fr1, res, e)" using Suc.prems st by simp
    then show ?thesis using effect_trans [OF l Suc.IH] by blast
  next
    case (Some x)
    then show ?thesis using l Suc.prems st by auto
  qed
qed simp

lemma Run_effect:
  assumes "evm_env evm = env"
  shows "run_effect (Run n evm)"
proof (induction n)
  case (Suc n)
  show ?case unfolding run_effect_def
  proof (intro allI impI)
    fix d ro c i s r
    assume r: "Run (Suc n) evm d ro c i s = Ok r"
    show "R ro s (r_db r)"
    proof (cases "length (c_Code c) = 0")
      case True
      then show ?thesis using r by (auto simp: effect_refl)
    next
      case False
      then obtain fr res e where l: "run_loop (Suc (unat (c_Gas c))) (NewEVMInterpreter (evm_rules evm)) evm
          (Run n evm) (Suc d) ro (initial_frame c i s) = Ok (fr, res, e)" and "r = frame_result fr res e"
        using r by (auto simp: outcome_simps simp del: run_loop.simps)
      then show ?thesis
        using run_loop_effect [OF table_effect Suc assms l] by (simp add: frame_result_def)
    qed
  qed
qed (simp add: run_effect_def)

lemma interpreter_effect: "evm_env evm = env \<Longrightarrow> run_effect (interpreter evm)"
  unfolding interpreter_def by (rule Run_effect)

end

lemma interpreter_gas: "IsEIP150 (evm_rules evm) \<Longrightarrow> run_gas (interpreter evm)"
  unfolding interpreter_def by (rule Run_gas)

lemma interpreter_ends: "IsEIP150 (evm_rules evm) \<Longrightarrow> run_ends d (interpreter evm)"
  unfolding interpreter_def run_ends_def using Run_ends [of evm d "Suc CallCreateDepth"]
  by (auto simp del: Run.simps run_loop.simps)

section \<open>A machine for the witnesses\<close>

definition witness_evm :: EVM where
  "witness_evm =
     \<lparr>evm_env = witness_env,
      evm_Context = \<lparr>bc_GetHash = (\<lambda>_. zero_hash), bc_Coinbase = zero_address, bc_GasLimit = 1000000,
        bc_BlockNumber = 1, bc_Time = 1, bc_Difficulty = 0, bc_BaseFee = Some 0, bc_Random = Some zero_hash\<rparr>,
      evm_TxContext = \<lparr>tc_Origin = zero_address, tc_GasPrice = 1\<rparr>, evm_ChainID = 1,
      evm_rules = ChainConfig_Rules True, evm_EnablePreimageRecording = False, evm_abort = False,
      evm_precompiles = (\<lambda>_. None),
      evm_lib = \<lparr>lib_SDiv = (\<lambda>_ _. 0), lib_SMod = (\<lambda>_ _. 0), lib_Exp = (\<lambda>_ _. 0), lib_ExtendSign = (\<lambda>_ _. 0),
        lib_Byte = (\<lambda>_ _. 0), lib_AddMod = (\<lambda>_ _ _. 0), lib_MulMod = (\<lambda>_ _ _. 0), lib_SRsh = (\<lambda>_ _. 0)\<rparr>\<rparr>"

text \<open>A state with one account whose code is given.\<close>

definition witness_account :: Address where "witness_account = replicate 20 7"

definition witness_state :: "bytes \<Rightarrow> StateDB" where
  "witness_state code = sdb_SetCode witness_env witness_account code (StateDB_New (\<lambda>_. TrieEmpty))"

lemma witness_table:
  "NewEVMInterpreter (ChainConfig_Rules True) 0x60 = op_entry opPush1 GasFastestStep None 0 1023 None"
  "NewEVMInterpreter (ChainConfig_Rules True) 0x00 = op_entry opStop 0 None 0 1024 None"
  by (simp_all add: NewEVMInterpreter_def ChainConfig_Rules_def fork_defs Let_def set_apply
      newFrontierInstructionSet_def frontier_groups minStack_def maxStack_def StackLimit_def)

lemma witness_out_of_gas:
  "c_Code c = [0x60] \<Longrightarrow> c_Gas c = 0 \<Longrightarrow>
    interpreter witness_evm d ro c [] s = Ok (result [] 0 (Some ErrOutOfGas) s (c_jumpdests c))"
  by (simp add: interpreter_def step_def charge_def Let_def initial_frame_def GetOp_def witness_evm_def witness_table
      UseGas_def frame_gas_def GasFastestStep_def frame_result_def)

lemma witness_stop:
  "c_Code c = [0x00] \<Longrightarrow>
    interpreter witness_evm d ro c [] s = Ok (result [] (c_Gas c) None s (c_jumpdests c))"
  by (simp add: interpreter_def step_def charge_def Let_def initial_frame_def GetOp_def witness_evm_def witness_table
      UseGas_def opStop_def step_err_def frame_gas_def set_gas_def frame_result_def)

lemma witness_state_wf: "state_wf witness_env (witness_state code)" "rev_wf (witness_state code)"
  using exec_wf [OF exec_SetCode [of witness_env "StateDB_New (\<lambda>_. TrieEmpty)" witness_account code] New_wf]
  by (auto simp: witness_state_def witness_env_def rev_wf_def StateDB_New_def)

section \<open>Calls with the interpreter\<close>

interpretation plain: view_effect env "\<lambda>_ _ _. True" for env
  by unfold_locales simp_all

lemma plain_effect: "plain.effect env ro s s1 \<longleftrightarrow> exec env s s1"
  by (simp add: plain.effect_def)

lemma settled_no_trace:
  assumes "state_wf (evm_env evm) s" and "rev_wf s" and "plain.settles (evm_env evm) evm ro s r"
    and "r_err r = Some e"
  shows "state_view (evm_env evm) (r_db r) = state_view (evm_env evm) s"
proof -
  obtain rid s1 where snap: "sdb_Snapshot s = (rid, s1)" by (cases "sdb_Snapshot s")
  from assms(3,4) snap consider "r_db r = s"
    | r0 where "settle evm rid r0 = Ok r" "exec (evm_env evm) s1 (r_db r0)"
    by (auto simp: plain.settles_def plain_effect)
  then show ?thesis
  proof cases
    case 2
    then obtain s3 where "RevertToSnapshot (evm_env evm) rid (r_db r0) = Ok s3" "r_db r = s3"
      using assms(4) by (auto simp: settle_def outcome_simps split: option.split_asm)
    then show ?thesis using exec_reverts [OF assms(1,2) snap 2(2)] by auto
  qed simp
qed

lemma chain_eip150 [simp]: "IsEIP150 (ChainConfig_Rules m)"
  by (simp add: ChainConfig_Rules_def)

text \<open>The calls a transaction or an instruction can make, with the interpreter running the code.\<close>

datatype message =
    MsgCall Address bytes u64 int
  | MsgCallCode Address bytes u64 int
  | MsgDelegateCall Address bytes u64
  | MsgStaticCall Address bytes u64

fun msg_gas :: "message \<Rightarrow> u64" where
  "msg_gas (MsgCall a i g v) = g"
| "msg_gas (MsgCallCode a i g v) = g"
| "msg_gas (MsgDelegateCall a i g) = g"
| "msg_gas (MsgStaticCall a i g) = g"

fun msg_value :: "message \<Rightarrow> int" where
  "msg_value (MsgCall a i g v) = v"
| "msg_value (MsgCallCode a i g v) = v"
| "msg_value m = 0"

fun perform :: "EVM \<Rightarrow> nat \<Rightarrow> bool \<Rightarrow> ContractRef \<Rightarrow> message \<Rightarrow> StateDB \<Rightarrow> (goerr, Result) outcome" where
  "perform evm d ro caller (MsgCall a i g v) s = evm_Call evm (interpreter evm) d ro caller a i g v s"
| "perform evm d ro caller (MsgCallCode a i g v) s = evm_CallCode evm (interpreter evm) d ro caller a i g v s"
| "perform evm d ro caller (MsgDelegateCall a i g) s = evm_DelegateCall evm (interpreter evm) d ro caller a i g s"
| "perform evm d ro caller (MsgStaticCall a i g) s = evm_StaticCall evm (interpreter evm) d ro caller a i g s"

context state_effect
begin

lemma perform_settles:
  assumes "evm_env evm = env" and "perform evm d ro caller m s = Ok r" and "0 \<le> msg_value m" and "ro \<longrightarrow> msg_value m = 0"
  shows "\<exists>ro1. (ro \<longrightarrow> ro1) \<and> settles evm ro1 s r"
proof -
  have run: "interpreter evm d1 ro1 c i1 s1 = Ok r1 \<Longrightarrow> R ro1 s1 (r_db r1)" for d1 ro1 c i1 s1 r1
    using interpreter_effect [OF assms(1)] by (simp add: run_effect_def)
  show ?thesis
  proof (cases m)
    case (MsgCall a i g v)
    then have "evm_Call evm (interpreter evm) d ro caller a i g v s = Ok r" using assms(2) by simp
    from Call_settles [OF _ assms(1) _ _ this] have "settles evm ro s r" using assms(3,4) MsgCall run by simp
    then show ?thesis by (intro exI [of _ ro] conjI impI)
  next
    case (MsgCallCode a i g v)
    then have "evm_CallCode evm (interpreter evm) d ro caller a i g v s = Ok r" using assms(2) by simp
    from CallCode_settles [OF _ assms(1) this] have "settles evm ro s r" using run by simp
    then show ?thesis by (intro exI [of _ ro] conjI impI)
  next
    case (MsgDelegateCall a i g)
    then have "evm_DelegateCall evm (interpreter evm) d ro caller a i g s = Ok r" using assms(2) by simp
    from DelegateCall_settles [OF _ assms(1) this] have "settles evm ro s r" using run by simp
    then show ?thesis by (intro exI [of _ ro] conjI impI)
  next
    case (MsgStaticCall a i g)
    then have "evm_StaticCall evm (interpreter evm) d ro caller a i g s = Ok r" using assms(2) by simp
    from StaticCall_settles [OF _ assms(1) this] have "settles evm True s r" using run by simp
    then show ?thesis by (intro exI [of _ True] conjI impI TrueI)
  qed
qed

lemma perform_effect:
  assumes "evm_env evm = env" and "perform evm d ro caller m s = Ok r" and "0 \<le> msg_value m" and "ro \<longrightarrow> msg_value m = 0"
  shows "R ro s (r_db r)"
proof -
  obtain ro1 where "ro \<longrightarrow> ro1" "settles evm ro1 s r" using perform_settles [OF assms] by blast
  then have "R ro1 s (r_db r)" using settles_effect assms(1) by blast
  then show ?thesis using effect_static \<open>ro \<longrightarrow> ro1\<close> by (cases ro1; cases ro) auto
qed

end

lemma witness_call:
  "\<exists>r. perform witness_evm 0 ro (AccountRef [1]) (MsgCall witness_account [] 0 0) (witness_state [0x60]) = Ok r
    \<and> r_err r = Some ErrOutOfGas"
proof -
  let ?s = "snd (sdb_Snapshot (witness_state [0x60]))"
  let ?t = "Transfer witness_env [1] witness_account 0 ?s"
  have e: "sdb_Exist witness_env witness_account ?s" by code_simp
  have c: "code_at witness_evm witness_account ?t = [0x60]" by code_simp
  have r: "is_ok (RevertToSnapshot witness_env 0 ?t)" by code_simp
  have i: "fst (sdb_Snapshot (witness_state [0x60])) = 0" by code_simp
  have env: "evm_env witness_evm = witness_env" "evm_precompiles witness_evm witness_account = None"
    by (simp_all add: witness_evm_def)
  show ?thesis
    using r e i c witness_out_of_gas [of "load_code witness_evm witness_account ?t
        (NewContract (AccountRef [1]) witness_account 0 0)" 0 ro ?t]
    by (cases "sdb_Snapshot (witness_state [0x60])")
      (auto simp: evm_Call_def Let_def CallCreateDepth_def env settle_def is_ok_iff load_code_def SetCallCode_def
        NewContract_def)
qed

text \<open>C2. Every message call and every creation comes to an end, at any depth and whatever code it runs:
  with one loop step per unit of gas and \<open>CallCreateDepth\<close> nested runs the interpreter never runs out
  of its bounds, because each step that does not end a run costs gas and a call costs at least the gas it
  passes on.\<close>

theorem calls_come_to_an_end:
  assumes "evm_rules evm = ChainConfig_Rules merge"
  shows "perform evm d ro caller m s \<noteq> Loops
    \<and> evm_Create evm (interpreter evm) d ro caller code gas v s \<noteq> Loops
    \<and> evm_Create2 evm (interpreter evm) d ro caller code gas v salt s \<noteq> Loops"
proof -
  have "run_ends d (interpreter evm)" using interpreter_ends assms by simp
  from calls_loop_free [OF this] show ?thesis
    by (cases m) (simp_all add: evm_Create_def evm_Create2_def Let_def)
qed

theorem calls_come_to_an_end_witness:
  "perform witness_evm 0 False (AccountRef [1]) (MsgCall [2] [] 100 0) (witness_state [0x5B, 0x60, 0, 0x56]) \<noteq> Loops"
  using calls_come_to_an_end [of witness_evm True 0 False "AccountRef [1]" "MsgCall [2] [] 100 0"]
  by (simp add: witness_evm_def)

lemma run_gas_calls:
  assumes "run_gas run"
  shows "evm_Call evm run d ro caller a i g v s = Ok r \<Longrightarrow> r_gas r \<le> g"
    and "evm_CallCode evm run d ro caller a i g v s = Ok r \<Longrightarrow> r_gas r \<le> g"
    and "evm_DelegateCall evm run d ro caller a i g s = Ok r \<Longrightarrow> r_gas r \<le> g"
    and "evm_StaticCall evm run d ro caller a i g s = Ok r \<Longrightarrow> r_gas r \<le> g"
    and "evm_create evm run d ro caller i h g v a s = Ok (x, r) \<Longrightarrow> r_gas r \<le> g"
proof -
  have run: "run d ro c i s1 = Ok r1 \<Longrightarrow> r_gas r1 \<le> c_Gas c" for d ro c i s1 r1
    using assms by (simp add: run_gas_def)
  show "evm_Call evm run d ro caller a i g v s = Ok r \<Longrightarrow> r_gas r \<le> g" by (rule call_gas(1), erule run)
  show "evm_CallCode evm run d ro caller a i g v s = Ok r \<Longrightarrow> r_gas r \<le> g" by (rule call_gas(2), erule run)
  show "evm_DelegateCall evm run d ro caller a i g s = Ok r \<Longrightarrow> r_gas r \<le> g" by (rule call_gas(3), erule run)
  show "evm_StaticCall evm run d ro caller a i g s = Ok r \<Longrightarrow> r_gas r \<le> g" by (rule call_gas(4), erule run)
  show "evm_create evm run d ro caller i h g v a s = Ok (x, r) \<Longrightarrow> r_gas r \<le> g" by (rule create_gas, erule run)
qed

text \<open>C6. A call never leaves more gas than it was given, and neither does a creation.\<close>

theorem calls_leave_no_more_gas:
  assumes "evm_rules evm = ChainConfig_Rules merge"
  shows "(perform evm d ro caller m s = Ok r \<longrightarrow> r_gas r \<le> msg_gas m)
    \<and> (evm_Create evm (interpreter evm) d ro caller code gas v s = Ok (a, r) \<longrightarrow> r_gas r \<le> gas)
    \<and> (evm_Create2 evm (interpreter evm) d ro caller code gas v salt s = Ok (a, r) \<longrightarrow> r_gas r \<le> gas)"
proof -
  have "run_gas (interpreter evm)" using interpreter_gas assms by simp
  note g = run_gas_calls [OF this]
  have "perform evm d ro caller m s = Ok r \<longrightarrow> r_gas r \<le> msg_gas m" by (cases m) (auto dest: g)
  then show ?thesis by (auto simp: evm_Create_def evm_Create2_def Let_def dest: g)
qed

theorem calls_leave_no_more_gas_witness:
  "\<exists>r. perform witness_evm 0 False (AccountRef [1]) (MsgCall witness_account [] 0 0) (witness_state [0x60]) = Ok r
    \<and> r_gas r \<le> 0"
proof -
  obtain r where r: "perform witness_evm 0 False (AccountRef [1]) (MsgCall witness_account [] 0 0)
      (witness_state [0x60]) = Ok r" using witness_call by blast
  moreover have "evm_rules witness_evm = ChainConfig_Rules True" by (simp add: witness_evm_def)
  from calls_leave_no_more_gas [OF this] have "r_gas r \<le> 0" using r by (metis msg_gas.simps(1))
  ultimately show ?thesis by blast
qed

text \<open>C4. Running code makes no value: after a call, and after a creation, no balance is negative, and over
  the accounts whose balance changed the sum has not grown.\<close>

theorem calls_mint_nothing:
  assumes "state_wf (evm_env evm) s" and "rev_wf s" and "\<forall>x. 0 \<le> GetBalance (evm_env evm) x s"
    and "perform evm d False caller m s = Ok r \<and> 0 \<le> msg_value m
      \<or> evm_Create evm (interpreter evm) d False caller code gas v s = Ok (a, r) \<and> 0 \<le> v"
  shows "(\<forall>x. 0 \<le> GetBalance (evm_env evm) x (r_db r)) \<and>
    (\<exists>A. finite A \<and> (\<forall>x. x \<notin> A \<longrightarrow> GetBalance (evm_env evm) x (r_db r) = GetBalance (evm_env evm) x s)
      \<and> (\<Sum>x\<in>A. GetBalance (evm_env evm) x (r_db r)) \<le> (\<Sum>x\<in>A. GetBalance (evm_env evm) x s))"
proof -
  let ?env = "evm_env evm"
  have "mint.effect ?env False s (r_db r)"
    using assms(4)
  proof (elim disjE conjE)
    assume "perform evm d False caller m s = Ok r" "0 \<le> msg_value m"
    then show ?thesis by (intro mint.perform_effect [OF refl]) simp_all
  next
    assume "evm_Create evm (interpreter evm) d False caller code gas v s = Ok (a, r)" "0 \<le> v"
    then show ?thesis
      unfolding evm_Create_def Let_def by (rule mint.calls_effect(5) [OF mint.interpreter_effect [OF refl] refl])
  qed
  then have "no_mint (\<lambda>x. GetBalance ?env x s) (\<lambda>x. GetBalance ?env x (r_db r))"
    using assms(1,2) by (simp add: mint.effect_def mints_nothing_def)
  then show ?thesis using assms(3) by (simp add: no_mint_def)
qed

theorem calls_mint_nothing_witness:
  "\<exists>r. perform witness_evm 0 False (AccountRef [1]) (MsgCall witness_account [] 0 0) (witness_state [0x60]) = Ok r
    \<and> (\<forall>x. 0 \<le> GetBalance witness_env x (r_db r))"
proof -
  let ?s = "witness_state [0x60]"
  obtain r where r: "perform witness_evm 0 False (AccountRef [1]) (MsgCall witness_account [] 0 0) ?s = Ok r"
    using witness_call by blast
  have env: "evm_env witness_evm = witness_env" by (simp add: witness_evm_def)
  have "GetBalance witness_env x ?s = 0" for x
    by (simp add: witness_state_def getters_account account_SetCode) (simp add: account_def live_object_lookup New_lookup
      newObject_def zero_account_def)
  then have "\<forall>x. 0 \<le> GetBalance (evm_env witness_evm) x ?s" by (simp add: env)
  from calls_mint_nothing [OF _ _ this, of 0 "AccountRef [1]" "MsgCall witness_account [] 0 0" r]
  show ?thesis using r witness_state_wf by (auto simp: env)
qed

text \<open>C3. A call that fails leaves no trace: whatever its code did before the error, every account reads as
  before the call, and so do the refund, the logs, the preimages and the access list.\<close>

theorem failed_call_leaves_no_trace:
  assumes "state_wf (evm_env evm) s" and "rev_wf s" and "perform evm d ro caller m s = Ok r"
    and "0 \<le> msg_value m" and "ro \<longrightarrow> msg_value m = 0" and "r_err r \<noteq> None"
  shows "sdb_refund (r_db r) = sdb_refund s \<and> sdb_logSize (r_db r) = sdb_logSize s \<and>
    sdb_preimages (r_db r) = sdb_preimages s \<and> sdb_accessList (r_db r) = sdb_accessList s \<and>
    (\<forall>h bh. sdb_GetLogs h bh (r_db r) = sdb_GetLogs h bh s) \<and>
    (\<forall>a. sdb_Exist (evm_env evm) a (r_db r) = sdb_Exist (evm_env evm) a s \<and>
      GetBalance (evm_env evm) a (r_db r) = GetBalance (evm_env evm) a s \<and>
      GetStakeBalance (evm_env evm) a (r_db r) = GetStakeBalance (evm_env evm) a s \<and>
      GetNonce (evm_env evm) a (r_db r) = GetNonce (evm_env evm) a s \<and>
      GetCode (evm_env evm) a (r_db r) = GetCode (evm_env evm) a s \<and>
      HasSuicided (evm_env evm) a (r_db r) = HasSuicided (evm_env evm) a s \<and>
      (\<forall>k. GetState (evm_env evm) a k (r_db r) = GetState (evm_env evm) a k s))"
proof -
  obtain ro1 where "plain.settles (evm_env evm) evm ro1 s r"
    using plain.perform_settles [OF refl assms(3-5)] by blast
  then have "state_view (evm_env evm) (r_db r) = state_view (evm_env evm) s"
    using settled_no_trace assms(1,2,6) by blast
  note v = state_view_fields [OF this]
  show ?thesis by (simp add: v getters_live_view)
qed

theorem failed_call_leaves_no_trace_witness:
  "\<exists>r. perform witness_evm 0 False (AccountRef [1]) (MsgCall witness_account [] 0 0) (witness_state [0x60]) = Ok r
    \<and> r_err r = Some ErrOutOfGas \<and> sdb_Exist witness_env [1] (r_db r) = sdb_Exist witness_env [1] (witness_state [0x60])"
proof -
  obtain r where r: "perform witness_evm 0 False (AccountRef [1]) (MsgCall witness_account [] 0 0)
      (witness_state [0x60]) = Ok r" "r_err r = Some ErrOutOfGas" using witness_call by blast
  have env: "evm_env witness_evm = witness_env" by (simp add: witness_evm_def)
  from failed_call_leaves_no_trace [OF _ _ r(1)] show ?thesis using r witness_state_wf by (auto simp: env)
qed

text \<open>C5. A static call is read-only, however deep its code calls on: no balance, stake or nonce changes,
  no log is added, and every existing account reads as before. The same holds of any call made with the
  read-only flag, which nested calls inherit.\<close>

theorem static_call_is_read_only:
  assumes "state_wf (evm_env evm) s" and "rev_wf s"
    and "perform evm d ro caller m s = Ok r" and "ro \<and> msg_value m = 0 \<or> (\<exists>a i g. m = MsgStaticCall a i g)"
  shows "(\<forall>a. GetBalance (evm_env evm) a (r_db r) = GetBalance (evm_env evm) a s \<and>
      GetStakeBalance (evm_env evm) a (r_db r) = GetStakeBalance (evm_env evm) a s \<and>
      GetPendingStakeBalance (evm_env evm) a (r_db r) = GetPendingStakeBalance (evm_env evm) a s \<and>
      GetNonce (evm_env evm) a (r_db r) = GetNonce (evm_env evm) a s) \<and>
    (\<forall>h bh. sdb_GetLogs h bh (r_db r) = sdb_GetLogs h bh s) \<and>
    (\<forall>a. sdb_Exist (evm_env evm) a s \<longrightarrow> sdb_Exist (evm_env evm) a (r_db r) \<and>
      GetCode (evm_env evm) a (r_db r) = GetCode (evm_env evm) a s \<and>
      HasSuicided (evm_env evm) a (r_db r) = HasSuicided (evm_env evm) a s \<and>
      (\<forall>k. GetState (evm_env evm) a k (r_db r) = GetState (evm_env evm) a k s))"
proof -
  have "static.effect (evm_env evm) True s (r_db r)"
    using assms(4)
  proof (elim disjE conjE exE)
    assume ro: ro and "msg_value m = 0"
    then show ?thesis using static.perform_effect [OF refl assms(3)] by simp
  next
    fix a i g
    assume "m = MsgStaticCall a i g"
    then have "evm_StaticCall evm (interpreter evm) d ro caller a i g s = Ok r" using assms(3) by simp
    then have "static.settles (evm_env evm) evm True s r"
      by (rule static.StaticCall_settles [rotated 2])
        (use static.interpreter_effect [OF refl] in \<open>simp_all add: static.run_effect_def\<close>)
    then show ?thesis using static.settles_effect by blast
  qed
  then have v: "static_view (evm_env evm) True s (r_db r)" using assms(1,2) by (simp add: static.effect_def)
  then have "logs_at (r_db r) = logs_at s" by (simp add: static_view_def)
  then have "sdb_GetLogs h bh (r_db r) = sdb_GetLogs h bh s" for h bh
    by (auto simp: sdb_GetLogs_def logs_at_def fun_eq_iff split: option.splits dest!: spec [of _ h])
  then show ?thesis using v by (auto simp: static_view_def getters_live_view(1,6,8,9))
qed

theorem static_call_is_read_only_witness:
  "\<exists>r. perform witness_evm 0 True (AccountRef [1]) (MsgCall witness_account [] 0 0) (witness_state [0x60]) = Ok r
    \<and> GetNonce witness_env [1] (r_db r) = GetNonce witness_env [1] (witness_state [0x60])"
proof -
  obtain r where r: "perform witness_evm 0 True (AccountRef [1]) (MsgCall witness_account [] 0 0)
      (witness_state [0x60]) = Ok r" using witness_call by blast
  have env: "evm_env witness_evm = witness_env" by (simp add: witness_evm_def)
  from static_call_is_read_only [OF _ _ r] show ?thesis using r witness_state_wf by (auto simp: env)
qed

end
