(* ===== verification/Zond_Blake2b.thy ===== *)
theory Zond_Blake2b
  imports Zond_Prelude
begin

unbundle bit_operations_syntax

text \<open>
  The BLAKE2b hash of \<^verbatim>\<open>crypto/blake2b\<close>: the compression function as it is unrolled in
  \<^verbatim>\<open>blake2b_generic.go\<close>, the one-shot checksum and the incremental digest of \<^verbatim>\<open>blake2b.go\<close> with its
  serialised state. The compression function is the one of RFC 7693, writing a message in pieces
  gives the checksum of the whole, and a digest survives being written out and read back. The
  assembly versions of the compression function are not modelled.
\<close>

section \<open>The compression function\<close>

definition BlockSize :: nat where "BlockSize = 128"
definition Size :: nat where "Size = 64"

definition iv :: "u64 list" where
  "iv = [0x6a09e667f3bcc908, 0xbb67ae8584caa73b, 0x3c6ef372fe94f82b, 0xa54ff53a5f1d36f1,
         0x510e527fade682d1, 0x9b05688c2b3e6c1f, 0x1f83d9abfb41bd6b, 0x5be0cd19137e2179]"

lemma length_iv [simp]: "length iv = 8"
  by (simp add: iv_def)

definition precomputed :: "nat list list" where
  "precomputed =
    [[0, 2, 4, 6, 1, 3, 5, 7, 8, 10, 12, 14, 9, 11, 13, 15],
     [14, 4, 9, 13, 10, 8, 15, 6, 1, 0, 11, 5, 12, 2, 7, 3],
     [11, 12, 5, 15, 8, 0, 2, 13, 10, 3, 7, 9, 14, 6, 1, 4],
     [7, 3, 13, 11, 9, 1, 12, 14, 2, 5, 4, 15, 6, 10, 0, 8],
     [9, 5, 2, 10, 0, 7, 4, 15, 14, 11, 6, 3, 1, 12, 8, 13],
     [2, 6, 0, 8, 12, 10, 11, 3, 4, 7, 15, 1, 13, 5, 14, 9],
     [12, 1, 14, 4, 5, 15, 13, 10, 0, 6, 9, 8, 7, 3, 2, 11],
     [13, 7, 12, 3, 11, 14, 1, 9, 5, 15, 8, 2, 0, 4, 6, 10],
     [6, 14, 11, 0, 15, 9, 3, 8, 12, 13, 1, 10, 2, 7, 4, 5],
     [10, 8, 7, 1, 2, 4, 6, 5, 15, 9, 3, 13, 11, 14, 12, 0]]"

text \<open>\<^verbatim>\<open>bits.RotateLeft64\<close>; a negative count rotates right.\<close>

definition RotateLeft64 :: "u64 \<Rightarrow> int \<Rightarrow> u64" where
  "RotateLeft64 x k = (let s = nat (k mod 64) in push_bit s x OR drop_bit (64 - s) x)"

text \<open>
  The working variables \<^verbatim>\<open>v0 .. v15\<close> are a list. The unrolled body repeats one group of seven
  assignments, with its own variables, message word and rotations each time.
\<close>

definition half :: "int \<Rightarrow> int \<Rightarrow> u64 \<Rightarrow> nat \<times> nat \<times> nat \<times> nat \<Rightarrow> u64 list \<Rightarrow> u64 list" where
  "half r1 r2 x q v0 =
     (let (a, b, c, d) = q;
          v1 = v0[a := v0 ! a + x];
          v2 = v1[a := v1 ! a + v1 ! b];
          v3 = v2[d := v2 ! d XOR v2 ! a];
          v4 = v3[d := RotateLeft64 (v3 ! d) r1];
          v5 = v4[c := v4 ! c + v4 ! d];
          v6 = v5[b := v5 ! b XOR v5 ! c]
      in v6[b := RotateLeft64 (v6 ! b) r2])"

definition columns :: "(nat \<times> nat \<times> nat \<times> nat) list" where
  "columns = [(0, 4, 8, 12), (1, 5, 9, 13), (2, 6, 10, 14), (3, 7, 11, 15)]"

definition diagonals :: "(nat \<times> nat \<times> nat \<times> nat) list" where
  "diagonals = [(0, 5, 10, 15), (1, 6, 11, 12), (2, 7, 8, 13), (3, 4, 9, 14)]"

definition halves :: "int \<Rightarrow> int \<Rightarrow> u64 list \<Rightarrow> (nat \<times> nat \<times> nat \<times> nat) list \<Rightarrow> u64 list \<Rightarrow> u64 list" where
  "halves r1 r2 xs qs v = fold (\<lambda>(x, q). half r1 r2 x q) (zip xs qs) v"

definition b2_round :: "u64 list \<Rightarrow> nat list \<Rightarrow> u64 list \<Rightarrow> u64 list" where
  "b2_round m s v =
     (let w = (\<lambda>i. m ! (s ! i)) in
      halves (-16) (-63) (map w [12, 13, 14, 15]) diagonals
       (halves (-32) (-24) (map w [8, 9, 10, 11]) diagonals
         (halves (-16) (-63) (map w [4, 5, 6, 7]) columns
           (halves (-32) (-24) (map w [0, 1, 2, 3]) columns v))))"

definition b2_init :: "u64 list \<Rightarrow> u64 \<Rightarrow> u64 \<Rightarrow> u64 \<Rightarrow> u64 list" where
  "b2_init h c0 c1 flag =
     (let v = h @ iv;
          v = v[12 := v ! 12 XOR c0];
          v = v[13 := v ! 13 XOR c1]
      in v[14 := v ! 14 XOR flag])"

definition fGeneric :: "u64 list \<Rightarrow> u64 list \<Rightarrow> u64 \<Rightarrow> u64 \<Rightarrow> u64 \<Rightarrow> u64 \<Rightarrow> u64 list" where
  "fGeneric h m c0 c1 flag rounds =
     (let v = fold (\<lambda>i. b2_round m (precomputed ! (i mod 10))) [0..<nat (sint rounds)] (b2_init h c0 c1 flag)
      in map (\<lambda>i. h ! i XOR (v ! i XOR v ! (i + 8))) [0..<8])"

definition b2_F :: "u64 list \<Rightarrow> u64 list \<Rightarrow> u64 \<times> u64 \<Rightarrow> bool \<Rightarrow> u32 \<Rightarrow> u64 list" where
  "b2_F h m c final rounds =
     fGeneric h m (fst c) (snd c) (if final then 0xFFFFFFFFFFFFFFFF else 0) (ucast rounds)"

section \<open>RFC 7693\<close>

definition rfc_mix :: "nat \<Rightarrow> nat \<Rightarrow> nat \<times> nat \<times> nat \<times> nat \<Rightarrow> u64 \<Rightarrow> u64 list \<Rightarrow> u64 list" where
  "rfc_mix n1 n2 q x v0 =
     (let (a, b, c, d) = q;
          v1 = v0[a := v0 ! a + v0 ! b + x];
          v2 = v1[d := word_rotr n1 (v1 ! d XOR v1 ! a)];
          v3 = v2[c := v2 ! c + v2 ! d]
      in v3[b := word_rotr n2 (v3 ! b XOR v3 ! c)])"

definition rfc_G :: "nat \<times> nat \<times> nat \<times> nat \<Rightarrow> u64 \<Rightarrow> u64 \<Rightarrow> u64 list \<Rightarrow> u64 list" where
  "rfc_G q x y v = rfc_mix 16 63 q y (rfc_mix 32 24 q x v)"

definition rfc_sigma :: "nat list list" where
  "rfc_sigma =
    [[0, 1, 2, 3, 4, 5, 6, 7, 8, 9, 10, 11, 12, 13, 14, 15],
     [14, 10, 4, 8, 9, 15, 13, 6, 1, 12, 0, 2, 11, 7, 5, 3],
     [11, 8, 12, 0, 5, 2, 15, 13, 10, 14, 3, 6, 7, 1, 9, 4],
     [7, 9, 3, 1, 13, 12, 11, 14, 2, 6, 5, 10, 4, 0, 15, 8],
     [9, 0, 5, 7, 2, 4, 10, 15, 14, 1, 11, 12, 6, 8, 3, 13],
     [2, 12, 6, 10, 0, 11, 8, 3, 4, 13, 7, 5, 15, 14, 1, 9],
     [12, 5, 1, 15, 14, 13, 4, 10, 0, 7, 6, 3, 9, 2, 8, 11],
     [13, 11, 7, 14, 12, 1, 3, 9, 5, 0, 15, 4, 8, 6, 2, 10],
     [6, 15, 14, 9, 11, 3, 0, 8, 12, 2, 13, 7, 1, 4, 10, 5],
     [10, 2, 8, 4, 7, 6, 1, 5, 15, 11, 9, 14, 3, 12, 13, 0]]"

definition rfc_round :: "u64 list \<Rightarrow> nat list \<Rightarrow> u64 list \<Rightarrow> u64 list" where
  "rfc_round m s v =
     fold (\<lambda>(q, i). rfc_G q (m ! (s ! (2 * i))) (m ! (s ! (2 * i + 1)))) (zip (columns @ diagonals) [0, 1, 2, 3, 4, 5, 6, 7]) v"

definition rfc_F :: "u64 list \<Rightarrow> u64 list \<Rightarrow> u64 \<times> u64 \<Rightarrow> bool \<Rightarrow> nat \<Rightarrow> u64 list" where
  "rfc_F h m t final rounds =
     (let v0 = take 8 h @ iv;
          v1 = v0[12 := v0 ! 12 XOR fst t, 13 := v0 ! 13 XOR snd t,
                  14 := (if final then NOT (v0 ! 14) else v0 ! 14)];
          v = fold (\<lambda>i. rfc_round m (rfc_sigma ! (i mod 10))) [0..<rounds] v1
      in map (\<lambda>i. h ! i XOR v ! i XOR v ! (i + 8)) [0..<8])"

lemma length_half [simp]: "length (half r1 r2 x q v) = length v"
  by (simp add: half_def Let_def split: prod.split)

lemma RotateLeft64_right:
  assumes "0 < n" and "n < 64"
  shows "RotateLeft64 x (- int n) = word_rotr n x"
proof -
  have s: "nat ((- int n) mod 64) = 64 - n"
    using assms by (simp add: zmod_zminus1_eq_if nat_diff_distrib')
  show ?thesis
    unfolding RotateLeft64_def Let_def s
    using assms by (intro bit_word_eqI) (auto simp: bit_simps mod_if add.commute [of n] split: if_splits dest: bit_imp_le_length)
qed

text \<open>A group of assignments in closed form; groups on different variables commute.\<close>

fun quad_vars :: "nat \<times> nat \<times> nat \<times> nat \<Rightarrow> nat list" where
  "quad_vars (a, b, c, d) = [a, b, c, d]"

lemma half_closed:
  assumes "distinct [a, b, c, d]" and "a < length v" "b < length v" "c < length v" "d < length v"
  shows "half r1 r2 x (a, b, c, d) v =
    (let A = v ! a + x + v ! b; D = RotateLeft64 (v ! d XOR A) r1; C = v ! c + D;
         B = RotateLeft64 (v ! b XOR C) r2
     in v[a := A, d := D, c := C, b := B])"
  using assms by (auto simp: half_def Let_def nth_list_update list_update_overwrite list_update_swap)

lemma updates_commute:
  assumes "distinct [a, b, c, d, a', b', c', d']"
  shows "v[a := A, d := D, c := C, b := B, a' := A', d' := D', c' := C', b' := B'] =
    v[a' := A', d' := D', c' := C', b' := B', a := A, d := D, c := C, b := B]"
proof -
  define U where "U = (\<lambda>w. w[a := A, d := D, c := C, b := B])"
  have past: "(U w)[x := X] = U (w[x := X])" if "x \<notin> {a, b, c, d}" for w x X
    using that unfolding U_def by (metis insert_iff list_update_swap)
  have "a' \<notin> {a, b, c, d}" "b' \<notin> {a, b, c, d}" "c' \<notin> {a, b, c, d}" "d' \<notin> {a, b, c, d}" using assms by auto
  then have "(U v)[a' := A', d' := D', c' := C', b' := B'] = U (v[a' := A', d' := D', c' := C', b' := B'])"
    by (simp only: past not_False_eq_True)
  then show ?thesis by (simp add: U_def)
qed

lemma half_values:
  assumes "distinct [a, b, c, d]" and "\<forall>i \<in> {a, b, c, d}. i < length v"
  obtains A D C B where "\<And>w. length w = length v \<Longrightarrow> (\<forall>i \<in> {a, b, c, d}. w ! i = v ! i) \<Longrightarrow>
    half r1 r2 x (a, b, c, d) w = w[a := A, d := D, c := C, b := B]"
proof -
  let ?A = "v ! a + x + v ! b"
  let ?D = "RotateLeft64 (v ! d XOR ?A) r1"
  let ?C = "v ! c + ?D"
  have "half r1 r2 x (a, b, c, d) w = w[a := ?A, d := ?D, c := ?C, b := RotateLeft64 (v ! b XOR ?C) r2]"
    if "length w = length v" "\<forall>i \<in> {a, b, c, d}. w ! i = v ! i" for w
    using that assms by (simp add: half_closed Let_def)
  then show thesis using that by blast
qed

lemma half_commute:
  assumes "distinct (quad_vars q @ quad_vars q')" and "\<forall>i \<in> set (quad_vars q @ quad_vars q'). i < length v"
  shows "half r1 r2 x q (half r3 r4 y q' v) = half r3 r4 y q' (half r1 r2 x q v)"
proof -
  obtain a b c d a' b' c' d' where q: "q = (a, b, c, d)" "q' = (a', b', c', d')" by (metis prod_cases4)
  have d: "distinct [a, b, c, d, a', b', c', d']" using assms(1) by (auto simp: q)
  obtain A D C B where h: "\<And>w. length w = length v \<Longrightarrow> (\<forall>i \<in> {a, b, c, d}. w ! i = v ! i) \<Longrightarrow>
      half r1 r2 x (a, b, c, d) w = w[a := A, d := D, c := C, b := B]"
    by (rule half_values [of a b c d v r1 r2 x]) (use assms in \<open>auto simp: q\<close>)
  obtain A' D' C' B' where h': "\<And>w. length w = length v \<Longrightarrow> (\<forall>i \<in> {a', b', c', d'}. w ! i = v ! i) \<Longrightarrow>
      half r3 r4 y (a', b', c', d') w = w[a' := A', d' := D', c' := C', b' := B']"
    by (rule half_values [of a' b' c' d' v r3 r4 y]) (use assms in \<open>auto simp: q\<close>)
  have l: "half r1 r2 x q (half r3 r4 y q' v) =
      v[a' := A', d' := D', c' := C', b' := B', a := A, d := D, c := C, b := B]"
    using h [of "v[a' := A', d' := D', c' := C', b' := B']"] h' [of v] d by (auto simp: q)
  have r: "half r3 r4 y q' (half r1 r2 x q v) =
      v[a := A, d := D, c := C, b := B, a' := A', d' := D', c' := C', b' := B']"
    using h' [of "v[a := A, d := D, c := C, b := B]"] h [of v] d by (auto simp: q)
  show ?thesis unfolding l r by (rule updates_commute [OF d, symmetric])
qed

lemma rfc_mix_half:
  assumes "distinct (quad_vars q)" and "\<forall>i \<in> set (quad_vars q). i < length v"
    and "0 < n1" "n1 < 64" "0 < n2" "n2 < 64"
  shows "rfc_mix n1 n2 q x v = half (- int n1) (- int n2) x q v"
proof -
  obtain a b c d where q: "q = (a, b, c, d)" by (metis prod_cases4)
  have swap: "v ! a + x + v ! b = v ! a + v ! b + x" by simp
  show ?thesis
    using assms unfolding q
    by (simp add: half_closed rfc_mix_def Let_def nth_list_update RotateLeft64_right swap)
qed

lemma rfc_G_halves:
  assumes "distinct (quad_vars q)" and "\<forall>i \<in> set (quad_vars q). i < length v"
  shows "rfc_G q x y v = half (-16) (-63) y q (half (-32) (-24) x q v)"
  using rfc_mix_half [OF assms, of 32 24 x] rfc_mix_half [of q "half (-32) (-24) x q v" 16 63 y] assms
  by (simp add: rfc_G_def)

text \<open>Four groups, then four more on the same variables, are four applications of \<open>rfc_G\<close>.\<close>

definition disjoint_quads :: "(nat \<times> nat \<times> nat \<times> nat) list \<Rightarrow> bool" where
  "disjoint_quads qs \<longleftrightarrow> (\<forall>i < 4. \<forall>j < 4. i \<noteq> j \<longrightarrow>
     distinct (quad_vars (qs ! i) @ quad_vars (qs ! j)) \<and> (\<forall>k \<in> set (quad_vars (qs ! i) @ quad_vars (qs ! j)). k < 16))"

lemma disjoint_quads_tables: "disjoint_quads columns" "disjoint_quads diagonals"
  by code_simp+

lemma halves_G:
  assumes "disjoint_quads [q0, q1, q2, q3]" and "length v = 16"
  shows "halves (-16) (-63) [y0, y1, y2, y3] [q0, q1, q2, q3] (halves (-32) (-24) [x0, x1, x2, x3] [q0, q1, q2, q3] v)
    = rfc_G q3 x3 y3 (rfc_G q2 x2 y2 (rfc_G q1 x1 y1 (rfc_G q0 x0 y0 v)))"
proof -
  define A where "A = (\<lambda>i. half (-32) (-24) ([x0, x1, x2, x3] ! i) ([q0, q1, q2, q3] ! i))"
  define B where "B = (\<lambda>i. half (-16) (-63) ([y0, y1, y2, y3] ! i) ([q0, q1, q2, q3] ! i))"
  have len: "length (A i w) = length w" "length (B i w) = length w" for i w by (simp_all add: A_def B_def)
  note vars = assms(1) [unfolded disjoint_quads_def, rule_format]
  have push: "B i (A j w) = A j (B i w)" if "i < j" "j < 4" "length w = 16" for i j w
    unfolding A_def B_def using vars [of i j] that by (intro half_commute) auto
  have G: "rfc_G ([q0, q1, q2, q3] ! i) ([x0, x1, x2, x3] ! i) ([y0, y1, y2, y3] ! i) w = B i (A i w)"
    if "i < 4" "length w = 16" for i w
    unfolding A_def B_def using vars [of i "if i = 0 then 1 else 0"] that
    by (intro rfc_G_halves) (auto split: if_splits)
  have "B 3 (B 2 (B 1 (B 0 (A 3 (A 2 (A 1 (A 0 v))))))) = B 3 (A 3 (B 2 (A 2 (B 1 (A 1 (B 0 (A 0 v)))))))"
    using assms(2) by (simp add: push len)
  moreover have "halves (-16) (-63) [y0, y1, y2, y3] [q0, q1, q2, q3]
      (halves (-32) (-24) [x0, x1, x2, x3] [q0, q1, q2, q3] v) = B 3 (B 2 (B 1 (B 0 (A 3 (A 2 (A 1 (A 0 v)))))))"
    by (simp add: halves_def A_def B_def)
  ultimately show ?thesis
    using G [of 0] G [of 1] G [of 2] G [of 3] assms(2) by (simp add: len)
qed

definition interleave :: "nat list \<Rightarrow> nat list" where
  "interleave s = map ((!) s) [0, 2, 4, 6, 1, 3, 5, 7, 8, 10, 12, 14, 9, 11, 13, 15]"

lemma precomputed_sigma: "precomputed = map interleave rfc_sigma"
  by code_simp

lemma length_rfc_mix [simp]: "length (rfc_mix n1 n2 q x v) = length v"
  by (simp add: rfc_mix_def Let_def split: prod.split)

lemma length_rfc_G [simp]: "length (rfc_G q x y v) = length v"
  by (simp add: rfc_G_def)

lemma length_rfc_round [simp]: "length (rfc_round m s v) = length v"
  by (simp add: rfc_round_def columns_def diagonals_def)

lemma halves_quads:
  assumes "length v = 16"
  shows "halves (-16) (-63) [y0, y1, y2, y3] columns (halves (-32) (-24) [x0, x1, x2, x3] columns v)
    = rfc_G (3, 7, 11, 15) x3 y3 (rfc_G (2, 6, 10, 14) x2 y2 (rfc_G (1, 5, 9, 13) x1 y1 (rfc_G (0, 4, 8, 12) x0 y0 v)))"
    and "halves (-16) (-63) [y0, y1, y2, y3] diagonals (halves (-32) (-24) [x0, x1, x2, x3] diagonals v)
    = rfc_G (3, 4, 9, 14) x3 y3 (rfc_G (2, 7, 8, 13) x2 y2 (rfc_G (1, 6, 11, 12) x1 y1 (rfc_G (0, 5, 10, 15) x0 y0 v)))"
  using halves_G [OF disjoint_quads_tables(1) [unfolded columns_def] assms]
    halves_G [OF disjoint_quads_tables(2) [unfolded diagonals_def] assms]
  by (simp_all only: columns_def diagonals_def)

lemma round_rfc:
  assumes "length v = 16"
  shows "b2_round m (interleave s) v = rfc_round m s v"
proof -
  let ?w = "\<lambda>i. m ! (s ! i)"
  have "b2_round m (interleave s) v =
      halves (-16) (-63) [?w 9, ?w 11, ?w 13, ?w 15] diagonals (halves (-32) (-24) [?w 8, ?w 10, ?w 12, ?w 14] diagonals
        (halves (-16) (-63) [?w 1, ?w 3, ?w 5, ?w 7] columns (halves (-32) (-24) [?w 0, ?w 2, ?w 4, ?w 6] columns v)))"
    by (simp add: b2_round_def interleave_def Let_def)
  also have "\<dots> = rfc_round m s v"
    using assms by (simp add: halves_quads) (simp add: rfc_round_def columns_def diagonals_def)
  finally show ?thesis .
qed

text \<open>C21. The unrolled compression function computes the function \<open>F\<close> of RFC 7693, for every state, message
  block, counter, flag and number of rounds.\<close>

theorem F_is_rfc7693:
  assumes "length h = 8"
  shows "b2_F h m t final rounds = rfc_F h m t final (unat rounds)"
proof -
  have lt: "unat rounds < 2 ^ 32" using unat_bound [of rounds] by simp
  then have u: "unat (ucast rounds :: u64) = unat rounds" by (simp add: unsigned_ucast_eq take_bit_nat_eq_self_iff)
  then have r: "nat (sint (ucast rounds :: u64)) = unat rounds"
    using lt big_NewInt_small [of "ucast rounds"] by (simp add: big_NewInt_int64_def)
  have ones: "(0xFFFFFFFFFFFFFFFF :: u64) = - 1" by simp
  have all_ones: "x XOR 0xFFFFFFFFFFFFFFFF = NOT x" for x :: u64
    unfolding ones by (rule bit_word_eqI) (simp add: bit_simps)
  have init: "b2_init h (fst t) (snd t) (if final then 0xFFFFFFFFFFFFFFFF else 0) =
      (let v0 = take 8 h @ iv in v0[12 := v0 ! 12 XOR fst t, 13 := v0 ! 13 XOR snd t,
        14 := (if final then NOT (v0 ! 14) else v0 ! 14)])"
    using assms all_ones by (simp add: b2_init_def Let_def)
  have "fold (\<lambda>i. b2_round m (precomputed ! (i mod 10))) is v = fold (\<lambda>i. rfc_round m (rfc_sigma ! (i mod 10))) is v"
    if "length v = 16" for "is" v
    using that
  proof (induction "is" arbitrary: v)
    case (Cons i js)
    have "length rfc_sigma = 10" by (simp add: rfc_sigma_def)
    then have "precomputed ! (i mod 10) = interleave (rfc_sigma ! (i mod 10))" by (simp add: precomputed_sigma)
    then show ?case using Cons by (simp add: round_rfc)
  qed simp
  moreover have "length (b2_init h (fst t) (snd t) f) = 16" for f using assms by (simp add: b2_init_def Let_def iv_def)
  ultimately show ?thesis
    unfolding b2_F_def fGeneric_def rfc_F_def r using init assms by (cases final) (simp_all add: Let_def xor.assoc)
qed

theorem F_is_rfc7693_witness:
  "b2_F iv (replicate 16 1) (128, 0) True 12 = rfc_F iv (replicate 16 1) (128, 0) True 12"
  using F_is_rfc7693 [of iv "replicate 16 1" "(128, 0)" True 12] by (simp add: iv_def)

section \<open>Hashing blocks\<close>

definition LittleEndian_Uint64 :: "bytes \<Rightarrow> u64" where
  "LittleEndian_Uint64 b = of_nat (nat_of_be (rev (take 8 b)))"

definition le64 :: "u64 \<Rightarrow> bytes" where
  "le64 x = rev (be64 x)"

definition block_words :: "bytes \<Rightarrow> u64 list" where
  "block_words b = map (\<lambda>j. LittleEndian_Uint64 (drop (8 * j) b)) [0..<16]"

definition add_block :: "u64 \<times> u64 \<Rightarrow> u64 \<times> u64" where
  "add_block c =
     (let c0 = fst c + of_nat BlockSize; c1 = (if c0 < of_nat BlockSize then snd c + 1 else snd c) in (c0, c1))"

text \<open>\<^verbatim>\<open>hashBlocks\<close>; reading past the last byte panics, so a partial block does.\<close>

function hashBlocks :: "u64 list \<Rightarrow> u64 \<times> u64 \<Rightarrow> u64 \<Rightarrow> bytes \<Rightarrow> (goerr, u64 list \<times> (u64 \<times> u64)) outcome" where
  "hashBlocks h c flag blocks =
     (if blocks = [] then Ok (h, c)
      else if length blocks < BlockSize then Panic
      else let c1 = add_block c in
        hashBlocks (fGeneric h (block_words blocks) (fst c1) (snd c1) flag 12) c1 flag (drop BlockSize blocks))"
  by pat_completeness auto
termination by (relation "measure (\<lambda>(h, c, flag, blocks). length blocks)") (auto simp: BlockSize_def)

declare hashBlocks.simps [simp del]

section \<open>The one-shot checksum\<close>

definition full_blocks :: "nat \<Rightarrow> nat" where
  "full_blocks length1 =
     (if length1 > BlockSize
      then let n = length1 - length1 mod BlockSize in if length1 = n then n - BlockSize else n
      else 0)"

definition sub_remaining :: "u64 \<times> u64 \<Rightarrow> u64 \<Rightarrow> u64 \<times> u64" where
  "sub_remaining c remaining = (fst c - remaining, if fst c < remaining then snd c - 1 else snd c)"

definition last_block :: "bytes \<Rightarrow> bytes" where
  "last_block data = data @ replicate (BlockSize - length data) 0"

definition b2_finish :: "u64 list \<Rightarrow> u64 \<times> u64 \<Rightarrow> bytes \<Rightarrow> (goerr, u64 list) outcome" where
  "b2_finish h c data =
     and_then (hashBlocks h (sub_remaining c (of_nat (BlockSize - length data))) 0xFFFFFFFFFFFFFFFF (last_block data))
       (\<lambda>(h1, c1). Ok h1)"

definition checkSum :: "nat \<Rightarrow> bytes \<Rightarrow> (goerr, bytes) outcome" where
  "checkSum hashSize data =
     (let h = iv[0 := iv ! 0 XOR (of_nat hashSize OR push_bit 16 1 OR push_bit 24 1)];
          n = full_blocks (length data)
      in and_then (if length data > BlockSize then hashBlocks h (0, 0) 0 (take n data) else Ok (h, (0, 0)))
        (\<lambda>(h1, c1).
          let data1 = (if length data > BlockSize then drop n data else data) in
          and_then (b2_finish h1 c1 data1) (\<lambda>h2.
            Ok (take Size (concat (map le64 (take ((hashSize + 7) div 8) h2)) @ replicate Size 0)))))"

section \<open>The digest\<close>

record digest =
  d_h :: "u64 list"
  d_c :: "u64 \<times> u64"
  d_size :: nat
  d_block :: bytes
  d_offset :: nat
  d_key :: bytes
  d_keyLen :: nat

definition b2_Reset :: "digest \<Rightarrow> digest" where
  "b2_Reset d =
     (let h = iv[0 := iv ! 0 XOR (of_nat (d_size d) OR push_bit 8 (of_nat (d_keyLen d)) OR push_bit 16 1 OR push_bit 24 1)];
          d1 = d\<lparr>d_h := h, d_offset := 0, d_c := (0, 0)\<rparr>
      in if d_keyLen d > 0 then d1\<lparr>d_block := d_key d, d_offset := BlockSize\<rparr> else d1)"

definition newDigest :: "int \<Rightarrow> bytes \<Rightarrow> (goerr, digest) outcome" where
  "newDigest hashSize key =
     (if hashSize < 1 \<or> hashSize > int Size then Err ''blake2b: invalid hash size''
      else if length key > Size then Err ''blake2b: invalid key size''
      else Ok (b2_Reset
        \<lparr>d_h = replicate 8 0, d_c = (0, 0), d_size = nat hashSize, d_block = replicate BlockSize 0, d_offset = 0,
         d_key = key @ replicate (BlockSize - length key) 0, d_keyLen = length key\<rparr>))"

text \<open>\<^verbatim>\<open>copy(d.block[off:], p)\<close>: the bytes copied and how many.\<close>

definition copy_block :: "nat \<Rightarrow> bytes \<Rightarrow> bytes \<Rightarrow> bytes" where
  "copy_block off p block = take off block @ take (BlockSize - off) p @ drop (off + length p) block"

definition b2_absorb :: "bytes \<Rightarrow> digest \<Rightarrow> (goerr, digest) outcome" where
  "b2_absorb p d =
     (let nn = full_blocks (length p) in
      and_then (if length p > BlockSize then hashBlocks (d_h d) (d_c d) 0 (take nn p) else Ok (d_h d, d_c d))
        (\<lambda>(h, c).
          let p1 = (if length p > BlockSize then drop nn p else p); d1 = d\<lparr>d_h := h, d_c := c\<rparr> in
          Ok (if length p1 > 0
              then d1\<lparr>d_block := copy_block 0 p1 (d_block d1), d_offset := d_offset d1 + min BlockSize (length p1)\<rparr>
              else d1)))"

definition b2_Write :: "bytes \<Rightarrow> digest \<Rightarrow> (goerr, digest) outcome" where
  "b2_Write p d =
     (if d_offset d > 0
      then let remaining = BlockSize - d_offset d in
        if length p \<le> remaining
        then Ok (d\<lparr>d_block := copy_block (d_offset d) p (d_block d), d_offset := d_offset d + length p\<rparr>)
        else
          let block = copy_block (d_offset d) (take remaining p) (d_block d) in
          and_then (hashBlocks (d_h d) (d_c d) 0 block) (\<lambda>(h, c).
            b2_absorb (drop remaining p) (d\<lparr>d_h := h, d_c := c, d_block := block, d_offset := 0\<rparr>))
      else b2_absorb p d)"

definition b2_Sum :: "bytes \<Rightarrow> digest \<Rightarrow> (goerr, bytes) outcome" where
  "b2_Sum prefix d =
     and_then (b2_finish (d_h d) (d_c d) (take (d_offset d) (d_block d))) (\<lambda>h.
       Ok (prefix @ take (d_size d) (concat (map le64 h))))"

text \<open>The serialised state; the size and the offset are each one byte.\<close>

definition magic :: bytes where
  "magic = [0x62, 0x32, 0x62]"

definition marshaledSize :: nat where
  "marshaledSize = length magic + 8 * 8 + 2 * 8 + 1 + BlockSize + 1"

definition MarshalBinary :: "digest \<Rightarrow> (goerr, bytes) outcome" where
  "MarshalBinary d =
     (if d_keyLen d \<noteq> 0 then Err ''crypto/blake2b: cannot marshal MACs''
      else Ok (magic @ concat (map be64 (d_h d)) @ be64 (fst (d_c d)) @ be64 (snd (d_c d))
             @ [of_nat (d_size d)] @ d_block d @ [of_nat (d_offset d)]))"

definition consumeUint64 :: "bytes \<Rightarrow> bytes \<times> u64" where
  "consumeUint64 b = (drop 8 b, of_nat (nat_of_be (take 8 b)))"

fun consume_words :: "nat \<Rightarrow> bytes \<Rightarrow> bytes \<times> u64 list" where
  "consume_words 0 b = (b, [])"
| "consume_words (Suc n) b =
     (let (b1, x) = consumeUint64 b; (b2, xs) = consume_words n b1 in (b2, x # xs))"

definition UnmarshalBinary :: "bytes \<Rightarrow> digest \<Rightarrow> (goerr, digest) outcome" where
  "UnmarshalBinary b d =
     (if length b < length magic \<or> take (length magic) b \<noteq> magic
      then Err ''crypto/blake2b: invalid hash state identifier''
      else if length b \<noteq> marshaledSize then Err ''crypto/blake2b: invalid hash state size''
      else
        let (b1, h) = consume_words 8 (drop (length magic) b);
            (b2, c0) = consumeUint64 b1;
            (b3, c1) = consumeUint64 b2;
            size1 = unat (b3 ! 0);
            b4 = drop 1 b3
        in Ok (d\<lparr>d_h := h, d_c := (c0, c1), d_size := size1, d_block := take BlockSize b4,
                 d_offset := unat (drop BlockSize b4 ! 0)\<rparr>))"

section \<open>Writing in pieces\<close>

text \<open>What a digest has absorbed: the chained state with its counter, and the bytes not yet hashed.\<close>

type_synonym absorbed = "(u64 list \<times> (u64 \<times> u64)) \<times> bytes"

definition b2_abs :: "digest \<Rightarrow> absorbed" where
  "b2_abs d = ((d_h d, d_c d), take (d_offset d) (d_block d))"

definition b2_feed :: "bytes \<Rightarrow> absorbed \<Rightarrow> (goerr, absorbed) outcome" where
  "b2_feed p a =
     (let bs = snd a @ p; n = full_blocks (length bs) in
      and_then (hashBlocks (fst (fst a)) (snd (fst a)) 0 (take n bs)) (\<lambda>hc. Ok (hc, drop n bs)))"

definition digest_wf :: "digest \<Rightarrow> bool" where
  "digest_wf d \<longleftrightarrow> length (d_h d) = 8 \<and> length (d_block d) = BlockSize \<and> d_offset d \<le> BlockSize"

lemma full_blocks_eq: "full_blocks l = (l - 1) div BlockSize * BlockSize"
proof (cases "l mod BlockSize = 0")
  case True
  then obtain k where k: "l = BlockSize * k" by blast
  show ?thesis
  proof (cases k)
    case (Suc j)
    have "(BlockSize * Suc j - 1) div BlockSize = j"
      by (rule div_nat_eqI) (simp_all add: BlockSize_def)
    then show ?thesis using True k Suc by (cases j) (simp_all add: full_blocks_def Let_def BlockSize_def)
  qed (simp add: k full_blocks_def)
next
  case False
  then have "(l - 1) div BlockSize = l div BlockSize"
    using div_Suc [of "l - 1" BlockSize] by (cases l) (auto split: if_splits)
  moreover have "l \<noteq> BlockSize * (l div BlockSize)" using False by (metis mod_mult_self1_is_0)
  moreover have "l div BlockSize = 0" if "\<not> BlockSize < l"
    using that False by (cases "l = BlockSize") (simp_all add: div_eq_0_iff)
  ultimately show ?thesis by (auto simp: full_blocks_def Let_def minus_mod_eq_mult_div mult.commute)
qed

lemma full_blocks_le: "full_blocks l \<le> l"
  unfolding full_blocks_eq by (metis diff_le_self div_times_less_eq_dividend order_trans)

lemma full_blocks_add:
  assumes "0 < l"
  shows "full_blocks (l + k) = full_blocks l + full_blocks (l - full_blocks l + k)"
proof -
  define q r where "q = (l - 1) div BlockSize" and "r = (l - 1) mod BlockSize"
  have l: "l = q * BlockSize + Suc r" using assms by (simp add: q_def r_def)
  have f: "full_blocks l = q * BlockSize" by (simp add: full_blocks_eq q_def)
  have "(q * BlockSize + (r + k)) div BlockSize = q + (r + k) div BlockSize"
    by (rule div_mult_self3) (simp add: BlockSize_def)
  then have "full_blocks (l + k) = (q + (r + k) div BlockSize) * BlockSize"
    by (simp add: full_blocks_eq l add.assoc)
  moreover have "full_blocks (l - full_blocks l + k) = (r + k) div BlockSize * BlockSize"
    by (simp add: f) (simp add: full_blocks_eq l)
  ultimately show ?thesis by (simp add: f add_mult_distrib)
qed

lemma length_fGeneric [simp]: "length (fGeneric h m c0 c1 flag r) = 8"
  by (simp add: fGeneric_def Let_def)

lemma hashBlocks_ok:
  "length blocks mod BlockSize = 0 \<Longrightarrow> length h = 8 \<Longrightarrow>
    \<exists>h1 c1. hashBlocks h c flag blocks = Ok (h1, c1) \<and> length h1 = 8"
proof (induction h c flag blocks rule: hashBlocks.induct)
  case (1 h c flag blocks)
  show ?case
  proof (cases "blocks = []")
    case True
    then show ?thesis using 1(3) by (simp add: hashBlocks.simps)
  next
    case False
    then have "\<not> length blocks < BlockSize" using 1(2) by (auto simp: mod_less)
    moreover from this have "length (drop BlockSize blocks) mod BlockSize = 0"
      using 1(2) by (simp add: le_mod_geq [symmetric])
    ultimately show ?thesis using 1(1) False by (subst hashBlocks.simps) (simp add: Let_def)
  qed
qed

lemma hashBlocks_append:
  "length xs mod BlockSize = 0 \<Longrightarrow>
    hashBlocks h c flag (xs @ ys) = and_then (hashBlocks h c flag xs) (\<lambda>(h1, c1). hashBlocks h1 c1 flag ys)"
proof (induction h c flag xs rule: hashBlocks.induct)
  case (1 h c flag xs)
  show ?case
  proof (cases "xs = []")
    case True
    then show ?thesis by (simp add: hashBlocks.simps [of _ _ _ "[]"])
  next
    case False
    then have n: "\<not> length xs < BlockSize" using 1(2) by (auto simp: mod_less)
    then have "length (drop BlockSize xs) mod BlockSize = 0" using 1(2) by (simp add: le_mod_geq [symmetric])
    moreover have "block_words (xs @ ys) = block_words xs"
      using n by (auto simp: block_words_def LittleEndian_Uint64_def BlockSize_def)
    ultimately show ?thesis
      using 1(1) [OF False n] n False
      by (subst (1 2) hashBlocks.simps) (simp add: Let_def)
  qed
qed

lemma full_blocks_mod [simp]: "full_blocks l mod BlockSize = 0"
  by (simp add: full_blocks_eq)

lemma full_blocks_small: "l \<le> BlockSize \<Longrightarrow> full_blocks l = 0"
  by (simp add: full_blocks_def)

lemma rest_bound: "l - full_blocks l \<le> BlockSize"
proof -
  have "l - 1 - (l - 1) div BlockSize * BlockSize < BlockSize"
    by (simp add: minus_div_mult_eq_mod BlockSize_def)
  then show ?thesis by (simp add: full_blocks_eq)
qed

lemma hash_full_blocks:
  assumes "length h = 8"
  shows "\<exists>h1 c1. hashBlocks h c 0 (take (full_blocks (length bs)) bs) = Ok (h1, c1) \<and> length h1 = 8"
  using assms full_blocks_le [of "length bs"] by (intro hashBlocks_ok) (simp_all add: min_absorb2)

lemma feed_eq:
  "b2_feed p ((h, c), buf) =
    (let bs = buf @ p; n = full_blocks (length bs) in and_then (hashBlocks h c 0 (take n bs)) (\<lambda>hc. Ok (hc, drop n bs)))"
  by (simp add: b2_feed_def)

lemma split_append:
  assumes "n \<le> length bs"
  shows "take (n + m) (bs @ q) = take n bs @ take m (drop n bs @ q)"
    and "drop (n + m) (bs @ q) = drop m (drop n bs @ q)"
proof -
  have e: "bs @ q = take n bs @ drop n bs @ q" by simp
  show "take (n + m) (bs @ q) = take n bs @ take m (drop n bs @ q)" using assms by (subst e) (simp del: append_take_drop_id add: min_absorb2)
  show "drop (n + m) (bs @ q) = drop m (drop n bs @ q)" using assms by (subst e) (simp del: append_take_drop_id add: min_absorb2)
qed

text \<open>Feeding two pieces is feeding their concatenation.\<close>

lemma feed_append:
  assumes "length h = 8"
  shows "and_then (b2_feed p ((h, c), buf)) (b2_feed q) = b2_feed (p @ q) ((h, c), buf)"
proof -
  define bs where "bs = buf @ p"
  let ?n = "full_blocks (length bs)"
  let ?m = "full_blocks (length bs - ?n + length q)"
  obtain h1 c1 where h1: "hashBlocks h c 0 (take ?n bs) = Ok (h1, c1)" using hash_full_blocks [OF assms] by blast
  have n: "full_blocks (length (bs @ q)) = ?n + ?m"
    using full_blocks_add [of "length bs" "length q"] by (cases "bs = []") (simp_all add: full_blocks_def)
  have le: "?n \<le> length bs" by (rule full_blocks_le)
  have rest: "length (drop ?n bs @ q) = length bs - ?n + length q" by simp
  have "hashBlocks h c 0 (take (?n + ?m) (bs @ q)) = hashBlocks h1 c1 0 (take ?m (drop ?n bs @ q))"
    unfolding split_append(1) [OF le] using le by (subst hashBlocks_append) (simp_all add: h1 min_absorb2)
  then have "b2_feed q ((h1, c1), drop ?n bs) = b2_feed (p @ q) ((h, c), buf)"
    unfolding feed_eq Let_def append_assoc [symmetric] bs_def [symmetric] n rest split_append(2) [OF le] by simp
  then show ?thesis using h1 by (simp add: feed_eq Let_def bs_def)
qed

lemma copy_block_take:
  assumes "length block = BlockSize" and "off + length p \<le> BlockSize"
  shows "take (off + length p) (copy_block off p block) = take off block @ p"
    and "length (copy_block off p block) = BlockSize"
  using assms by (simp_all add: copy_block_def min_absorb2)

lemma absorb_refines:
  assumes "digest_wf d" and "d_offset d = 0"
  shows "\<exists>d1. b2_absorb p d = Ok d1 \<and> b2_feed p (b2_abs d) = Ok (b2_abs d1) \<and> digest_wf d1 \<and> d_size d1 = d_size d"
proof -
  let ?n = "full_blocks (length p)"
  have abs: "b2_abs d = ((d_h d, d_c d), [])" using assms(2) by (simp add: b2_abs_def)
  obtain h c where hc: "hashBlocks (d_h d) (d_c d) 0 (take ?n p) = Ok (h, c)" "length h = 8"
    and feed: "b2_feed p (b2_abs d) = Ok ((h, c), drop ?n p)"
    using hash_full_blocks [of "d_h d" "d_c d" p] assms(1) by (auto simp: abs feed_eq Let_def digest_wf_def)
  have "length (drop ?n p) \<le> BlockSize" using rest_bound by simp
  moreover have "(if length p > BlockSize then drop ?n p else p) = drop ?n p"
    "(if length p > BlockSize then hashBlocks (d_h d) (d_c d) 0 (take ?n p) else Ok (d_h d, d_c d)) = Ok (h, c)"
    using hc(1) by (auto simp: full_blocks_small hashBlocks.simps [of _ _ _ "[]"])
  ultimately show ?thesis
    using assms feed hc(2) copy_block_take [of "d_block d" 0 "drop ?n p"]
    by (auto simp: b2_absorb_def Let_def b2_abs_def digest_wf_def min_absorb2)
qed

lemma feed_short:
  assumes "length (buf @ p) \<le> BlockSize"
  shows "b2_feed p ((h, c), buf) = Ok ((h, c), buf @ p)"
  using assms by (simp add: feed_eq Let_def full_blocks_small hashBlocks.simps [of _ _ _ "[]"])

text \<open>A full buffer is hashed before more is taken in.\<close>

lemma feed_full_buffer:
  assumes "length h = 8" and "length buf = BlockSize" and "p \<noteq> []"
  shows "b2_feed p ((h, c), buf) = and_then (hashBlocks h c 0 buf) (\<lambda>hc. b2_feed p (hc, []))"
proof -
  obtain h1 c1 where h1: "hashBlocks h c 0 buf = Ok (h1, c1)" using hashBlocks_ok [of buf h c 0] assms(1,2) by auto
  have n: "full_blocks (length (buf @ p)) = BlockSize + full_blocks (length p)"
  proof -
    have "(BlockSize + length p - 1) div BlockSize = Suc ((length p - 1) div BlockSize)"
      using assms(3) div_add_self1 [of BlockSize "length p - 1"] by (cases p) (simp_all add: BlockSize_def)
    then show ?thesis by (simp add: full_blocks_eq assms(2))
  qed
  have "hashBlocks h c 0 (take (BlockSize + k) (buf @ p)) = hashBlocks h1 c1 0 (take k p)" for k
    using assms(2) by (simp add: hashBlocks_append h1)
  then show ?thesis unfolding feed_eq Let_def n by (simp add: h1 assms(2) feed_eq Let_def)
qed

text \<open>\<open>Write\<close> implements feeding; old bytes behind the offset of the block do not matter.\<close>

lemma Write_refines:
  assumes "digest_wf d"
  shows "\<exists>d1. b2_Write p d = Ok d1 \<and> b2_feed p (b2_abs d) = Ok (b2_abs d1) \<and> digest_wf d1 \<and> d_size d1 = d_size d"
proof (cases "d_offset d > 0")
  case False
  then show ?thesis using absorb_refines [OF assms] by (simp add: b2_Write_def)
next
  case True
  let ?r = "BlockSize - d_offset d"
  let ?block = "copy_block (d_offset d) (take ?r p) (d_block d)"
  have wf: "length (d_h d) = 8" "length (d_block d) = BlockSize" "d_offset d \<le> BlockSize"
    using assms by (simp_all add: digest_wf_def)
  show ?thesis
  proof (cases "length p \<le> ?r")
    case short: True
    then show ?thesis
      using True wf copy_block_take [of "d_block d" "d_offset d" p] feed_short [of "take (d_offset d) (d_block d)" p]
      by (simp add: b2_Write_def Let_def b2_abs_def digest_wf_def min_absorb2)
  next
    case long: False
    have block: "?block = take (d_offset d) (d_block d) @ take ?r p" "length ?block = BlockSize"
      using wf long copy_block_take [of "d_block d" "d_offset d" "take ?r p"] by (simp_all add: min_absorb2)
    obtain h c where h: "hashBlocks (d_h d) (d_c d) 0 ?block = Ok (h, c)" "length h = 8"
      using hashBlocks_ok [of ?block "d_h d" "d_c d" 0] wf(1) block(2) by auto
    let ?d = "d\<lparr>d_h := h, d_c := c, d_block := ?block, d_offset := 0\<rparr>"
    have "digest_wf ?d" using h(2) block(2) by (simp add: digest_wf_def)
    then obtain d1 where d1: "b2_absorb (drop ?r p) ?d = Ok d1" "b2_feed (drop ?r p) (b2_abs ?d) = Ok (b2_abs d1)"
      "digest_wf d1" "d_size d1 = d_size ?d" using absorb_refines [of ?d "drop ?r p"] by auto
    have "b2_feed p (b2_abs d) = and_then (b2_feed (take ?r p) (b2_abs d)) (b2_feed (drop ?r p))"
      using feed_append [OF wf(1), of "take ?r p" "d_c d" _ "drop ?r p"] by (simp add: b2_abs_def)
    also have "\<dots> = b2_feed (drop ?r p) ((d_h d, d_c d), ?block)"
      using feed_short [of "take (d_offset d) (d_block d)" "take ?r p"] block by (simp add: b2_abs_def)
    also have "\<dots> = b2_feed (drop ?r p) ((h, c), [])"
      using feed_full_buffer [OF wf(1) block(2), of "drop ?r p"] long h(1) by simp
    finally show ?thesis using True long h(1) d1 by (simp add: b2_Write_def Let_def b2_abs_def)
  qed
qed

lemma Writes_refine:
  assumes "digest_wf d"
  shows "\<exists>d1. fold_outcome b2_Write ps d = Ok d1 \<and> b2_feed (concat ps) (b2_abs d) = Ok (b2_abs d1)
    \<and> digest_wf d1 \<and> d_size d1 = d_size d"
  using assms
proof (induction ps arbitrary: d)
  case Nil
  then show ?case
    by (auto simp: b2_abs_def digest_wf_def feed_short)
next
  case (Cons p ps)
  from Write_refines [OF Cons.prems, of p] obtain d1 where d1: "b2_Write p d = Ok d1"
    "b2_feed p (b2_abs d) = Ok (b2_abs d1)" "digest_wf d1" "d_size d1 = d_size d" by auto
  have "b2_feed (concat (p # ps)) (b2_abs d) = b2_feed (concat ps) (b2_abs d1)"
    using feed_append [of "d_h d" p "d_c d" "take (d_offset d) (d_block d)" "concat ps"] d1(2) Cons.prems
    by (simp add: b2_abs_def digest_wf_def)
  then show ?case using Cons.IH [OF d1(3)] d1 by auto
qed

lemma take_words:
  assumes "length h = 8" and "n \<le> Size"
  shows "take n (take Size (concat (map le64 (take ((n + 7) div 8) h)) @ replicate Size 0)) = take n (concat (map le64 h))"
proof -
  have len: "length (concat (map le64 xs)) = 8 * length xs" for xs
    by (induction xs) (simp_all add: le64_def)
  let ?k = "(n + 7) div 8"
  have k: "n \<le> 8 * ?k" "?k \<le> 8" using assms(2) by (simp_all add: Size_def)
  have "concat (map le64 h) = concat (map le64 (take ?k h)) @ concat (map le64 (drop ?k h))"
    by (metis append_take_drop_id concat_append map_append)
  then show ?thesis using k assms by (simp add: len min_absorb1 Size_def)
qed

lemma finish_ok:
  assumes "length h = 8" and "length data \<le> BlockSize"
  shows "\<exists>h1. b2_finish h c data = Ok h1 \<and> length h1 = 8"
proof -
  have "length (last_block data) = BlockSize" using assms(2) by (simp add: last_block_def)
  then show ?thesis
    using hashBlocks_ok [of "last_block data" h "sub_remaining c (of_nat (BlockSize - length data))" "0xFFFFFFFFFFFFFFFF"] assms(1)
    by (auto simp: b2_finish_def)
qed

text \<open>C22. Hashing in pieces is hashing at once: a digest made without a key takes any sequence of writes
  without an error or a panic, whatever the pieces are, and its sum is the one-shot checksum of their
  concatenation, cut to the size of the digest and put after the given prefix.\<close>

theorem digest_streams:
  assumes "1 \<le> size1" and "size1 \<le> int Size"
  shows "\<exists>d0 d s. newDigest size1 [] = Ok d0 \<and> fold_outcome b2_Write ps d0 = Ok d \<and>
    checkSum (nat size1) (concat ps) = Ok s \<and> b2_Sum prefix d = Ok (prefix @ take (nat size1) s)"
proof -
  obtain d0 where d0: "newDigest size1 [] = Ok d0" using assms by (simp add: newDigest_def)
  let ?h = "iv[0 := iv ! 0 XOR (of_nat (nat size1) OR push_bit 16 1 OR push_bit 24 1)]"
  have init: "digest_wf d0" "d_size d0 = nat size1" "b2_abs d0 = ((?h, (0, 0)), [])"
    using d0 assms by (auto simp: newDigest_def b2_Reset_def digest_wf_def b2_abs_def Let_def)
  obtain d where d: "fold_outcome b2_Write ps d0 = Ok d" "b2_feed (concat ps) (b2_abs d0) = Ok (b2_abs d)"
    "digest_wf d" "d_size d = d_size d0" using Writes_refine [OF init(1)] by blast
  let ?data = "concat ps"
  let ?n = "full_blocks (length ?data)"
  have hb: "hashBlocks ?h (0, 0) 0 (take ?n ?data) = Ok (d_h d, d_c d)" and rest: "drop ?n ?data = take (d_offset d) (d_block d)"
    using d(2) [unfolded init(3)] by (auto simp: feed_eq Let_def b2_abs_def outcome_simps)
  obtain h1 where h1: "b2_finish (d_h d) (d_c d) (take (d_offset d) (d_block d)) = Ok h1" "length h1 = 8"
    using finish_ok [of "d_h d" "take (d_offset d) (d_block d)" "d_c d"] d(3) by (auto simp: digest_wf_def)
  have e: "(if length ?data > BlockSize then hashBlocks ?h (0, 0) 0 (take ?n ?data) else Ok (?h, (0, 0))) = Ok (d_h d, d_c d)"
    "(if length ?data > BlockSize then drop ?n ?data else ?data) = take (d_offset d) (d_block d)"
    using hb rest by (auto simp: full_blocks_small hashBlocks.simps [of _ _ _ "[]"])
  have "checkSum (nat size1) ?data =
      Ok (take Size (concat (map le64 (take ((nat size1 + 7) div 8) h1)) @ replicate Size 0))"
    unfolding checkSum_def Let_def e using h1(1) by (simp add: e)
  then show ?thesis
    using d0 d(1) h1 take_words [OF h1(2), of "nat size1"] assms
    by (intro exI [of _ d0] exI [of _ d]) (auto simp: b2_Sum_def d(4) init(2))
qed

theorem digest_streams_witness:
  "\<exists>d0 d s. newDigest 32 [] = Ok d0 \<and> fold_outcome b2_Write [[1], [2, 3]] d0 = Ok d \<and>
    checkSum 32 [1, 2, 3] = Ok s \<and> b2_Sum [] d = Ok (take 32 s)"
  using digest_streams [of 32 "[[1], [2, 3]]" "[]"] by (simp add: Size_def)

section \<open>Saving a digest\<close>

lemma consume_be64: "consumeUint64 (be64 x @ b) = (b, x)"
  using unat_bound [of x] by (simp add: consumeUint64_def be64_def nat_of_be_be_nat)

lemma consume_be64_words: "consume_words (length xs) (concat (map be64 xs) @ b) = (b, xs)"
  by (induction xs) (simp_all add: consume_be64)

text \<open>A digest survives being saved: what \<open>MarshalBinary\<close> writes for a digest without a key,
  \<open>UnmarshalBinary\<close> reads back into any digest, with the chained state, counter, size, block and
  offset of the saved one. With a key, saving is refused.\<close>

theorem Marshal_roundtrip:
  assumes "digest_wf d" and "d_size d \<le> Size"
  shows "if d_keyLen d = 0
    then \<exists>b. MarshalBinary d = Ok b \<and> length b = marshaledSize \<and>
      UnmarshalBinary b d0 = Ok (d0\<lparr>d_h := d_h d, d_c := d_c d, d_size := d_size d, d_block := d_block d,
        d_offset := d_offset d\<rparr>)
    else MarshalBinary d = Err ''crypto/blake2b: cannot marshal MACs''"
proof (cases "d_keyLen d = 0")
  case True
  have len: "length (concat (map be64 xs)) = 8 * length xs" for xs
    by (induction xs) simp_all
  have small: "unat (of_nat (d_size d) :: u8) = d_size d" "unat (of_nat (d_offset d) :: u8) = d_offset d"
    using assms by (simp_all add: unat_of_nat digest_wf_def Size_def BlockSize_def)
  have words: "consume_words 8 (concat (map be64 (d_h d)) @ b) = (b, d_h d)" for b
    using consume_be64_words [of "d_h d" b] assms(1) by (simp add: digest_wf_def)
  show ?thesis
    using True assms(1) words
    by (simp add: MarshalBinary_def UnmarshalBinary_def marshaledSize_def len digest_wf_def consume_be64 small magic_def)
qed (simp add: MarshalBinary_def)

theorem Marshal_roundtrip_witness:
  "\<exists>d b. newDigest 32 [] = Ok d \<and> MarshalBinary d = Ok b \<and> UnmarshalBinary b d = Ok d"
proof -
  obtain d where d: "newDigest 32 [] = Ok d" by (simp add: newDigest_def Size_def)
  then have "digest_wf d" "d_size d \<le> Size" "d_keyLen d = 0"
    by (auto simp: newDigest_def b2_Reset_def digest_wf_def Let_def Size_def)
  then show ?thesis using Marshal_roundtrip [of d d] d by auto
qed

end
