(* ===== verification/Zond_Precompiles.thy ===== *)
theory Zond_Precompiles
  imports Zond_EVM Zond_Blake2b
begin

text \<open>
  The precompiled contracts of \<^verbatim>\<open>core/vm/contracts.go\<close>: what each costs and computes, the sets of
  the forks and the choice among them. Recovering a public key, RIPEMD-160 and the arithmetic of the
  bn256 curve are arguments; BLAKE2b is the one of this development. The BLS12-381 contracts, which
  no set of a fork holds, are left out.
\<close>

section \<open>What the contracts take from libraries\<close>

record ('g1, 'g2) PrecompileLib =
  pl_sha256 :: "bytes \<Rightarrow> bytes"
  pl_ripemd160 :: "bytes \<Rightarrow> bytes"
  pl_keccak256 :: "bytes \<Rightarrow> bytes"
  pl_RecoverPubkey :: "bytes \<Rightarrow> bytes \<Rightarrow> bytes option"
  g1_Unmarshal :: "bytes \<Rightarrow> string + 'g1"
  g1_Marshal :: "'g1 \<Rightarrow> bytes"
  g1_Add :: "'g1 \<Rightarrow> 'g1 \<Rightarrow> 'g1"
  g1_ScalarMult :: "'g1 \<Rightarrow> nat \<Rightarrow> 'g1"
  g2_Unmarshal :: "bytes \<Rightarrow> string + 'g2"
  bn256_PairingCheck :: "'g1 list \<Rightarrow> 'g2 list \<Rightarrow> bool"

definition slice :: "nat \<Rightarrow> nat \<Rightarrow> bytes \<Rightarrow> bytes" where
  "slice a b xs = take (b - a) (drop a xs)"

text \<open>A Go function that panics or returns, as the fields of a contract have it.\<close>

definition returned :: "(goerr, 'a) outcome \<Rightarrow> 'a option" where
  "returned x = (case x of Ok y \<Rightarrow> Some y | _ \<Rightarrow> None)"

lemma returned_eq [simp]: "returned (Ok y) = Some y" "returned Panic = None"
  by (simp_all add: returned_def)

definition big_Bytes :: "nat \<Rightarrow> bytes" where
  "big_Bytes n = be_nat ((bit_length n + 7) div 8) n"

definition words32 :: "bytes \<Rightarrow> u64" where
  "words32 input = of_nat (length input + 31) div 32"

section \<open>Signatures, hashes, identity\<close>

definition secp256k1N :: nat where
  "secp256k1N = 0xfffffffffffffffffffffffffffffffebaaedce6af48a03bbfd25e8cd0364141"

definition ValidateSignatureValues :: "u8 \<Rightarrow> nat \<Rightarrow> nat \<Rightarrow> bool \<Rightarrow> bool" where
  "ValidateSignatureValues v r s homestead \<longleftrightarrow>
     (if r < 1 \<or> s < 1 then False
      else if homestead \<and> s > secp256k1N div 2 then False
      else r < secp256k1N \<and> s < secp256k1N \<and> (v = 0 \<or> v = 1))"

definition ecrecover_Run :: "('g1, 'g2) PrecompileLib \<Rightarrow> bytes \<Rightarrow> bytes \<times> VMError option" where
  "ecrecover_Run L input0 =
     (let input = RightPadBytes input0 128;
          r = nat_of_be (slice 64 96 input);
          s = nat_of_be (slice 96 128 input);
          v = input ! 63 - 27
      in if \<not> allZero (slice 32 63 input) \<or> \<not> ValidateSignatureValues v r s False then ([], None)
         else case pl_RecoverPubkey L (take 32 input) (slice 64 128 input @ [v]) of
           None \<Rightarrow> ([], None)
         | Some pubKey \<Rightarrow> (LeftPadBytes (drop 12 (pl_keccak256 L (drop 1 pubKey))) 32, None))"

definition ecrecover :: "('g1, 'g2) PrecompileLib \<Rightarrow> PrecompiledContract" where
  "ecrecover L = \<lparr>RequiredGas = (\<lambda>input. Some 3000), pc_Run = (\<lambda>input. Some (ecrecover_Run L input))\<rparr>"

definition sha256hash :: "('g1, 'g2) PrecompileLib \<Rightarrow> PrecompiledContract" where
  "sha256hash L =
     \<lparr>RequiredGas = (\<lambda>input. Some (words32 input * 12 + 60)),
      pc_Run = (\<lambda>input. Some (pl_sha256 L input, None))\<rparr>"

definition ripemd160hash :: "('g1, 'g2) PrecompileLib \<Rightarrow> PrecompiledContract" where
  "ripemd160hash L =
     \<lparr>RequiredGas = (\<lambda>input. Some (words32 input * 120 + 600)),
      pc_Run = (\<lambda>input. Some (LeftPadBytes (pl_ripemd160 L input) 32, None))\<rparr>"

definition dataCopy :: PrecompiledContract where
  "dataCopy =
     \<lparr>RequiredGas = (\<lambda>input. Some (words32 input * 3 + 15)), pc_Run = (\<lambda>input. Some (input, None))\<rparr>"

section \<open>Modular exponentiation\<close>

definition modexpMultComplexity :: "nat \<Rightarrow> nat" where
  "modexpMultComplexity x =
     (if x \<le> 64 then x * x
      else if x \<le> 1024 then x * x div 4 + (96 * x - 3072)
      else x * x div 16 + (480 * x - 199680))"

definition modexp_price :: "bool \<Rightarrow> nat \<Rightarrow> nat \<Rightarrow> nat \<Rightarrow> u64" where
  "modexp_price eip2565 baseLen modLen adjExpLen =
     (let x = max modLen baseLen in
      if eip2565
      then let gas = ((x + 7) div 8) * ((x + 7) div 8) * max adjExpLen 1 div 3 in
        if bit_length gas > 64 then - 1
        else if gas < 200 then 200
        else of_nat gas
      else let gas = modexpMultComplexity x * max adjExpLen 1 div 20 in
        if bit_length gas > 64 then - 1 else of_nat gas)"

definition bigModExp_RequiredGas :: "bool \<Rightarrow> bytes \<Rightarrow> (goerr, u64) outcome" where
  "bigModExp_RequiredGas eip2565 input =
     and_then (getData input 0 32) (\<lambda>d0. and_then (getData input 32 32) (\<lambda>d1.
     and_then (getData input 64 32) (\<lambda>d2.
       let baseLen = nat_of_be d0; expLen = nat_of_be d1; modLen = nat_of_be d2;
           input1 = (if length input > 96 then drop 96 input else [])
       in and_then
         (if length input1 \<le> baseLen then Ok 0
          else and_then (getData input1 (of_nat baseLen) (if expLen > 32 then 32 else of_nat expLen)) (\<lambda>d.
            Ok (nat_of_be d))) (\<lambda>expHead.
         let msb = (if bit_length expHead > 0 then bit_length expHead - 1 else 0);
             adjExpLen = (if expLen > 32 then 8 * (expLen - 32) else 0) + msb
         in Ok (modexp_price eip2565 baseLen modLen adjExpLen)))))"

definition bigModExp_Run :: "bytes \<Rightarrow> (goerr, bytes \<times> VMError option) outcome" where
  "bigModExp_Run input =
     and_then (getData input 0 32) (\<lambda>d0. and_then (getData input 32 32) (\<lambda>d1.
     and_then (getData input 64 32) (\<lambda>d2.
       let baseLen = of_nat (nat_of_be d0) :: u64; expLen = of_nat (nat_of_be d1) :: u64;
           modLen = of_nat (nat_of_be d2) :: u64;
           input1 = (if length input > 96 then drop 96 input else [])
       in if baseLen = 0 \<and> modLen = 0 then Ok ([], None)
       else and_then (getData input1 0 baseLen) (\<lambda>db.
         and_then (getData input1 baseLen expLen) (\<lambda>de.
         and_then (getData input1 (baseLen + expLen) modLen) (\<lambda>dm.
           let base = nat_of_be db; exp = nat_of_be de; mod1 = nat_of_be dm in
           Ok (LeftPadBytes (if mod1 = 0 then [] else big_Bytes (base ^ exp mod mod1)) (nat (sint modLen)), None)))))))"

definition bigModExp :: "bool \<Rightarrow> PrecompiledContract" where
  "bigModExp eip2565 =
     \<lparr>RequiredGas = (\<lambda>input. returned (bigModExp_RequiredGas eip2565 input)),
      pc_Run = (\<lambda>input. returned (bigModExp_Run input))\<rparr>"

section \<open>The bn256 curve\<close>

definition runBn256Add :: "('g1, 'g2) PrecompileLib \<Rightarrow> bytes \<Rightarrow> (goerr, bytes \<times> VMError option) outcome" where
  "runBn256Add L input =
     and_then (getData input 0 64) (\<lambda>d0.
       case g1_Unmarshal L d0 of Inl e \<Rightarrow> Ok ([], Some (ErrText e)) | Inr x \<Rightarrow>
     and_then (getData input 64 64) (\<lambda>d1.
       case g1_Unmarshal L d1 of Inl e \<Rightarrow> Ok ([], Some (ErrText e)) | Inr y \<Rightarrow>
         Ok (g1_Marshal L (g1_Add L x y), None)))"

definition runBn256ScalarMul :: "('g1, 'g2) PrecompileLib \<Rightarrow> bytes \<Rightarrow> (goerr, bytes \<times> VMError option) outcome"
  where
  "runBn256ScalarMul L input =
     and_then (getData input 0 64) (\<lambda>d0.
       case g1_Unmarshal L d0 of Inl e \<Rightarrow> Ok ([], Some (ErrText e)) | Inr p \<Rightarrow>
     and_then (getData input 64 32) (\<lambda>d1.
       Ok (g1_Marshal L (g1_ScalarMult L p (nat_of_be d1)), None)))"

text \<open>The pairs of points of the input, 192 bytes each.\<close>

fun pairing_points :: "('g1, 'g2) PrecompileLib \<Rightarrow> nat \<Rightarrow> bytes \<Rightarrow> string + 'g1 list \<times> 'g2 list" where
  "pairing_points L 0 input = Inr ([], [])"
| "pairing_points L (Suc k) input =
     (case g1_Unmarshal L (slice 0 64 input) of Inl e \<Rightarrow> Inl e | Inr c \<Rightarrow>
      case g2_Unmarshal L (slice 64 192 input) of Inl e \<Rightarrow> Inl e | Inr t \<Rightarrow>
      case pairing_points L k (drop 192 input) of Inl e \<Rightarrow> Inl e | Inr (cs, ts) \<Rightarrow> Inr (c # cs, t # ts))"

definition runBn256Pairing :: "('g1, 'g2) PrecompileLib \<Rightarrow> bytes \<Rightarrow> bytes \<times> VMError option" where
  "runBn256Pairing L input =
     (if length input mod 192 > 0 then ([], Some (ErrText ''bad elliptic curve pairing size''))
      else case pairing_points L (length input div 192) input of
        Inl e \<Rightarrow> ([], Some (ErrText e))
      | Inr (cs, ts) \<Rightarrow>
          (if bn256_PairingCheck L cs ts then be_nat 32 1 else replicate 32 0, None))"

definition bn256Add :: "('g1, 'g2) PrecompileLib \<Rightarrow> u64 \<Rightarrow> PrecompiledContract" where
  "bn256Add L price =
     \<lparr>RequiredGas = (\<lambda>input. Some price), pc_Run = (\<lambda>input. returned (runBn256Add L input))\<rparr>"

definition bn256ScalarMul :: "('g1, 'g2) PrecompileLib \<Rightarrow> u64 \<Rightarrow> PrecompiledContract" where
  "bn256ScalarMul L price =
     \<lparr>RequiredGas = (\<lambda>input. Some price), pc_Run = (\<lambda>input. returned (runBn256ScalarMul L input))\<rparr>"

definition bn256Pairing :: "('g1, 'g2) PrecompileLib \<Rightarrow> u64 \<Rightarrow> u64 \<Rightarrow> PrecompiledContract" where
  "bn256Pairing L base per_point =
     \<lparr>RequiredGas = (\<lambda>input. Some (base + of_nat (length input div 192) * per_point)),
      pc_Run = (\<lambda>input. Some (runBn256Pairing L input))\<rparr>"

section \<open>BLAKE2b\<close>

definition blake2FInputLength :: nat where "blake2FInputLength = 213"

definition blake2F_RequiredGas :: "bytes \<Rightarrow> u64" where
  "blake2F_RequiredGas input =
     (if length input \<noteq> blake2FInputLength then 0 else of_nat (nat_of_be (take 4 input)))"

definition blake2F_Run :: "bytes \<Rightarrow> bytes \<times> VMError option" where
  "blake2F_Run input =
     (if length input \<noteq> blake2FInputLength then ([], Some (ErrText ''invalid input length''))
      else if input ! 212 \<noteq> 0 \<and> input ! 212 \<noteq> 1 then ([], Some (ErrText ''invalid final flag''))
      else
        let rounds = of_nat (nat_of_be (take 4 input)) :: u32;
            final = (input ! 212 = 1);
            h = map (\<lambda>i. LittleEndian_Uint64 (drop (4 + i * 8) input)) [0..<8];
            m = map (\<lambda>i. LittleEndian_Uint64 (drop (68 + i * 8) input)) [0..<16];
            t = (LittleEndian_Uint64 (drop 196 input), LittleEndian_Uint64 (drop 204 input))
        in (concat (map le64 (b2_F h m t final rounds)), None))"

definition blake2F :: PrecompiledContract where
  "blake2F = \<lparr>RequiredGas = (\<lambda>input. Some (blake2F_RequiredGas input)), pc_Run = (\<lambda>input. Some (blake2F_Run input))\<rparr>"

section \<open>The sets of the forks\<close>

definition PrecompiledContractsHomestead :: "('g1, 'g2) PrecompileLib \<Rightarrow> (Address \<times> PrecompiledContract) list" where
  "PrecompiledContractsHomestead L =
     [(BytesToAddress [1], ecrecover L), (BytesToAddress [2], sha256hash L),
      (BytesToAddress [3], ripemd160hash L), (BytesToAddress [4], dataCopy)]"

definition PrecompiledContractsByzantium :: "('g1, 'g2) PrecompileLib \<Rightarrow> (Address \<times> PrecompiledContract) list" where
  "PrecompiledContractsByzantium L =
     [(BytesToAddress [1], ecrecover L), (BytesToAddress [2], sha256hash L),
      (BytesToAddress [3], ripemd160hash L), (BytesToAddress [4], dataCopy),
      (BytesToAddress [5], bigModExp False), (BytesToAddress [6], bn256Add L 500),
      (BytesToAddress [7], bn256ScalarMul L 40000), (BytesToAddress [8], bn256Pairing L 100000 80000)]"

definition PrecompiledContractsIstanbul :: "('g1, 'g2) PrecompileLib \<Rightarrow> (Address \<times> PrecompiledContract) list" where
  "PrecompiledContractsIstanbul L =
     [(BytesToAddress [1], ecrecover L), (BytesToAddress [2], sha256hash L),
      (BytesToAddress [3], ripemd160hash L), (BytesToAddress [4], dataCopy),
      (BytesToAddress [5], bigModExp False), (BytesToAddress [6], bn256Add L 150),
      (BytesToAddress [7], bn256ScalarMul L 6000), (BytesToAddress [8], bn256Pairing L 45000 34000),
      (BytesToAddress [9], blake2F)]"

definition PrecompiledContractsBerlin :: "('g1, 'g2) PrecompileLib \<Rightarrow> (Address \<times> PrecompiledContract) list" where
  "PrecompiledContractsBerlin L =
     [(BytesToAddress [1], ecrecover L), (BytesToAddress [2], sha256hash L),
      (BytesToAddress [3], ripemd160hash L), (BytesToAddress [4], dataCopy),
      (BytesToAddress [5], bigModExp True), (BytesToAddress [6], bn256Add L 150),
      (BytesToAddress [7], bn256ScalarMul L 6000), (BytesToAddress [8], bn256Pairing L 45000 34000),
      (BytesToAddress [9], blake2F)]"

definition evm_precompile :: "('g1, 'g2) PrecompileLib \<Rightarrow> Rules \<Rightarrow> Address \<Rightarrow> PrecompiledContract option" where
  "evm_precompile L rules addr =
     map_of (if IsBerlin rules then PrecompiledContractsBerlin L
             else if IsIstanbul rules then PrecompiledContractsIstanbul L
             else if IsByzantium rules then PrecompiledContractsByzantium L
             else PrecompiledContractsHomestead L) addr"

text \<open>The addresses of a set are collected from a Go map, in no fixed order; they only enter the access
  list, which is a set.\<close>

definition precompile_addresses :: "nat \<Rightarrow> Address list" where
  "precompile_addresses n = map (\<lambda>i. BytesToAddress [of_nat i]) [1..<Suc n]"

definition ActivePrecompiles :: "Rules \<Rightarrow> Address list" where
  "ActivePrecompiles rules =
     (if IsBerlin rules then precompile_addresses 9
      else if IsIstanbul rules then precompile_addresses 9
      else if IsByzantium rules then precompile_addresses 8
      else precompile_addresses 4)"

section \<open>Modular exponentiation is right and safe\<close>

text \<open>Reading a slice: past the end it is padded with zeros.\<close>

lemma getData_ok:
  assumes "length data < 2 ^ 63" and "unat size1 < 2 ^ 63"
  shows "getData data start size1 = Ok (RightPadBytes (take (unat size1) (drop (unat start) data)) (unat size1))"
proof -
  let ?l = "of_nat (length data) :: u64"
  have l: "unat ?l = length data" using assms(1) by (simp add: unat_of_nat)
  define s where "s = (if start > ?l then ?l else start)"
  have s: "unat s = min (unat start) (length data)" by (auto simp: s_def word_less_nat_alt l)
  then have sum: "unat (s + size1) = unat s + unat size1"
    using assms by (simp add: unat_word_ariths)
  define e where "e = (if s + size1 > ?l then ?l else s + size1)"
  have e: "unat e = min (unat s + unat size1) (length data)" by (auto simp: e_def word_less_nat_alt l sum)
  have "\<not> s > e" using s e by (simp add: word_less_nat_alt)
  moreover have "take (unat e - unat s) (drop (unat s) data) = take (unat size1) (drop (unat start) data)"
    using s e by (simp add: min_def)
  moreover have "nat (sint size1) = unat size1"
    using big_NewInt_small [OF assms(2)] by (simp add: big_NewInt_int64_def)
  ultimately show ?thesis
    unfolding getData_def Let_def s_def [symmetric] e_def [symmetric] by simp
qed

lemma length_RightPad [simp]: "length sl \<le> l \<Longrightarrow> length (RightPadBytes sl l) = l"
  by (simp add: RightPadBytes_def)


text \<open>The operands of a well-formed input: three lengths of 32 bytes each, then base, exponent, modulus.\<close>

definition modexp_input :: "bytes \<Rightarrow> bytes \<Rightarrow> bytes \<Rightarrow> bytes" where
  "modexp_input b e m = be_nat 32 (length b) @ be_nat 32 (length e) @ be_nat 32 (length m) @ b @ e @ m"

lemma bit_length_le: "n < 2 ^ j \<Longrightarrow> bit_length n \<le> j"
proof (induction j arbitrary: n)
  case 0
  then show ?case by (simp add: bit_length.simps)
next
  case (Suc j)
  then show ?case using Suc.IH [of "n div 2"] by (subst bit_length.simps) auto
qed

lemma less_bit_length: "n < 2 ^ bit_length n"
proof (induction n rule: bit_length.induct)
  case (1 n)
  then show ?case by (subst bit_length.simps) (cases "n = 0"; simp)
qed

lemma big_Bytes_width:
  assumes "n < 256 ^ k"
  shows "LeftPadBytes (big_Bytes n) k = be_nat k n"
proof -
  let ?j = "(bit_length n + 7) div 8"
  have p: "256 ^ i = (2 :: nat) ^ (8 * i)" for i by (simp add: power_mult)
  have "bit_length n \<le> 8 * k" using bit_length_le assms p by simp
  then have j: "?j \<le> k" by simp
  have "(2 :: nat) ^ bit_length n \<le> 2 ^ (8 * ?j)" by (intro power_increasing) simp_all
  then have n: "n < 256 ^ ?j" unfolding p using less_bit_length [of n] by (rule order.strict_trans2 [rotated])
  have "be_nat (i + j) m = replicate i 0 @ be_nat j m" if "m < 256 ^ j" for i j m
    using that
  proof (induction j arbitrary: m)
    case 0
    then show ?case by (induction i) (simp_all add: replicate_append_same)
  next
    case (Suc j)
    have "m div 256 < 256 ^ j" using Suc.prems by (simp add: div_less_iff_less_mult mult.commute)
    then show ?case using Suc.IH by simp
  qed
  from this [OF n, of "k - ?j"] show ?thesis using j by (simp add: LeftPadBytes_def big_Bytes_def)
qed

lemma modexp_lengths:
  assumes "length b + length e + length m < 2 ^ 62"
  shows "getData (modexp_input b e m) 0 32 = Ok (be_nat 32 (length b))"
    and "getData (modexp_input b e m) 32 32 = Ok (be_nat 32 (length e))"
    and "getData (modexp_input b e m) 64 32 = Ok (be_nat 32 (length m))"
proof -
  have "length (modexp_input b e m) < 2 ^ 63" using assms by (simp add: modexp_input_def)
  note g = getData_ok [OF this, of 32]
  show "getData (modexp_input b e m) 0 32 = Ok (be_nat 32 (length b))"
    "getData (modexp_input b e m) 32 32 = Ok (be_nat 32 (length e))"
    "getData (modexp_input b e m) 64 32 = Ok (be_nat 32 (length m))"
    using g [of 0] g [of 32] g [of 64]
    by (simp_all add: modexp_input_def RightPadBytes_def)
qed

lemma modexp_operands:
  assumes "length b + length e + length m < 2 ^ 62"
  shows "getData (b @ e @ m) 0 (of_nat (length b)) = Ok b"
    and "getData (b @ e @ m) (of_nat (length b)) (of_nat (length e)) = Ok e"
    and "getData (b @ e @ m) (of_nat (length b) + of_nat (length e)) (of_nat (length m)) = Ok m"
proof -
  have u: "unat (of_nat (length b) :: u64) = length b" "unat (of_nat (length e) :: u64) = length e"
    "unat (of_nat (length m) :: u64) = length m"
    "unat (of_nat (length b) + of_nat (length e) :: u64) = length b + length e"
    using assms by (simp_all add: unat_of_nat unat_word_ariths)
  have "length (b @ e @ m) < 2 ^ 63" using assms by simp
  note g = getData_ok [OF this]
  show "getData (b @ e @ m) 0 (of_nat (length b)) = Ok b"
    "getData (b @ e @ m) (of_nat (length b)) (of_nat (length e)) = Ok e"
    "getData (b @ e @ m) (of_nat (length b) + of_nat (length e)) (of_nat (length m)) = Ok m"
    using g [of "of_nat (length b)" 0] g [of "of_nat (length e)" "of_nat (length b)"]
      g [of "of_nat (length m)" "of_nat (length b) + of_nat (length e)"] assms
    by (simp_all add: u RightPadBytes_def)
qed

text \<open>C23. The contract at address 5 computes modular exponentiation: on a well-formed input of base, exponent
  and modulus, not both base and modulus empty, it returns \<open>base ^ exponent mod modulus\<close>, as long as
  the modulus is wide, and zero for the modulus zero, without an error or a panic.\<close>

theorem bigModExp_computes:
  assumes "length b + length e + length m < 2 ^ 62" and "b \<noteq> [] \<or> m \<noteq> []"
  shows "pc_Run (bigModExp eip2565) (modexp_input b e m) =
    Some (be_nat (length m) (if nat_of_be m = 0 then 0 else nat_of_be b ^ nat_of_be e mod nat_of_be m), None)"
proof -
  have small: "n mod 256 ^ 32 = n" if "n < 2 ^ 62" for n :: nat
    using that by (intro mod_less) (auto intro: order.strict_trans)
  have lens: "nat_of_be (be_nat 32 (length b)) = length b" "nat_of_be (be_nat 32 (length e)) = length e"
    "nat_of_be (be_nat 32 (length m)) = length m"
    using assms(1) by (simp_all only: nat_of_be_be_nat, simp_all add: small)
  have "nat (sint (of_nat (length m) :: u64)) = length m"
    using big_NewInt_small [of "of_nat (length m)"] assms(1) by (simp add: big_NewInt_int64_def unat_of_nat)
  moreover have "nat_of_be b ^ nat_of_be e mod nat_of_be m < 256 ^ length m" if "nat_of_be m \<noteq> 0"
    using that nat_of_be_upper [of m] by (metis mod_less_divisor not_gr_zero order.strict_trans)
  moreover have "LeftPadBytes [] k = be_nat k 0" for k
  proof -
    have "be_nat k 0 = replicate k 0" by (induction k) (simp_all add: replicate_append_same)
    then show ?thesis by (simp add: LeftPadBytes_def)
  qed
  moreover have "\<not> ((of_nat (length b) :: u64) = 0 \<and> (of_nat (length m) :: u64) = 0)"
  proof -
    have "unat (of_nat (length xs) :: u64) = length xs" if "length xs < 2 ^ 62" for xs :: bytes
      using that by (simp add: unat_of_nat)
    then show ?thesis using assms by (metis add_lessD1 add.commute length_0_conv unat_0)
  qed
  moreover have "(if length (modexp_input b e m) > 96 then drop 96 (modexp_input b e m) else []) = b @ e @ m"
    by (simp add: modexp_input_def)
  ultimately show ?thesis
    unfolding bigModExp_def bigModExp_Run_def
    by (auto simp: modexp_lengths [OF assms(1)] modexp_operands [OF assms(1)] lens Let_def big_Bytes_width)
qed

theorem bigModExp_computes_witness:
  "pc_Run (bigModExp True) (modexp_input [3] [5] [7]) = Some ([5], None)"
  using bigModExp_computes [of "[3]" "[5]" "[7]" True] by (simp add: nat_of_be_def)




end
