(* ===== verification/Zond_Transition.thy ===== *)
theory Zond_Transition
  imports Zond_Interpreter Zond_Precompiles
begin

text \<open>
  A message applied to the world state (\<^verbatim>\<open>core/gaspool.go\<close>, \<^verbatim>\<open>core/state_transition.go\<close>): buying gas,
  the checks before it, the intrinsic cost, the call or creation, the refund and the tip of the block
  proposer. A transition uses no more gas than the message bought, takes exactly that from the block's
  pool, and makes no value.
\<close>

section \<open>Errors and the gas pool\<close>

datatype core_error =
    ErrNonceTooHigh | ErrNonceTooLow | ErrNonceMax | ErrSenderNoEOA
  | ErrFeeCapVeryHigh | ErrTipVeryHigh | ErrTipAboveFeeCap | ErrFeeCapTooLow
  | ErrInsufficientFunds | ErrGasLimitReached | ErrIntrinsicGas | ErrInsufficientFundsForTransfer
  | CoreErrGasUintOverflow
  | CoreText string

fun with_error :: "('a \<Rightarrow> 'b) \<Rightarrow> ('a, 'c) outcome \<Rightarrow> ('b, 'c) outcome" where
  "with_error f (Ok x) = Ok x"
| "with_error f (Err e) = Err (f e)"
| "with_error f Panic = Panic"
| "with_error f Loops = Loops"

lemma with_error_eq [outcome_simps]:
  "with_error f x = Ok y \<longleftrightarrow> x = Ok y" "with_error f x = Loops \<longleftrightarrow> x = Loops"
  by (cases x; simp)+

definition gp_AddGas :: "u64 \<Rightarrow> u64 \<Rightarrow> (core_error, u64) outcome" where
  "gp_AddGas amount gp = (if gp > - 1 - amount then Panic else Ok (gp + amount))"

definition gp_SubGas :: "u64 \<Rightarrow> u64 \<Rightarrow> (core_error, u64) outcome" where
  "gp_SubGas amount gp = (if gp < amount then Err ErrGasLimitReached else Ok (gp - amount))"

section \<open>Messages and results\<close>

record Message =
  m_From :: Address
  m_To :: "Address option"
  m_Nonce :: u64
  m_Value :: int
  m_Gas :: u64
  m_GasPrice :: int
  m_GasFeeCap :: int
  m_GasTipCap :: int
  m_Data :: bytes
  m_AccessList :: "(Address \<times> Hash list) list option"
  m_IsFake :: bool

record ExecutionResult =
  er_UsedGas :: u64
  er_Err :: "VMError option"
  er_ReturnData :: bytes

definition er_Failed :: "ExecutionResult \<Rightarrow> bool" where
  "er_Failed r \<longleftrightarrow> er_Err r \<noteq> None"

definition er_Return :: "ExecutionResult \<Rightarrow> bytes" where
  "er_Return r = (if er_Err r \<noteq> None then [] else er_ReturnData r)"

definition er_Revert :: "ExecutionResult \<Rightarrow> bytes" where
  "er_Revert r = (if er_Err r \<noteq> Some ErrExecutionReverted then [] else er_ReturnData r)"

text \<open>The fields of \<^verbatim>\<open>StateTransition\<close> that change; the message and the machine are arguments.\<close>

record Transition =
  t_gp :: u64
  t_gas :: u64
  t_initialGas :: u64
  t_db :: StateDB

definition NewStateTransition :: "u64 \<Rightarrow> StateDB \<Rightarrow> Transition" where
  "NewStateTransition gp s = \<lparr>t_gp = gp, t_gas = 0, t_initialGas = 0, t_db = s\<rparr>"

definition gasUsed :: "Transition \<Rightarrow> u64" where
  "gasUsed t = t_initialGas t - t_gas t"

section \<open>The intrinsic cost\<close>

definition TxGas :: u64 where "TxGas = 21000"
definition TxGasContractCreation :: u64 where "TxGasContractCreation = 53000"
definition TxDataZeroGas :: u64 where "TxDataZeroGas = 4"
definition TxDataNonZeroGasFrontier :: u64 where "TxDataNonZeroGasFrontier = 68"
definition TxDataNonZeroGasEIP2028 :: u64 where "TxDataNonZeroGasEIP2028 = 16"
definition TxAccessListAddressGas :: u64 where "TxAccessListAddressGas = 2400"
definition RefundQuotient :: u64 where "RefundQuotient = 2"
definition RefundQuotientEIP3529 :: u64 where "RefundQuotientEIP3529 = 5"

definition StorageKeys :: "(Address \<times> Hash list) list \<Rightarrow> nat" where
  "StorageKeys al = sum_list (map (\<lambda>e. length (snd e)) al)"

definition access_list_gas :: "(Address \<times> Hash list) list option \<Rightarrow> u64" where
  "access_list_gas accessList =
     (case accessList of
        None \<Rightarrow> 0
      | Some al \<Rightarrow> of_nat (length al) * TxAccessListAddressGas + of_nat (StorageKeys al) * TxAccessListStorageKeyGas)"

definition IntrinsicGas :: "bytes \<Rightarrow> (Address \<times> Hash list) list option \<Rightarrow> bool \<Rightarrow> bool \<Rightarrow> bool
    \<Rightarrow> (core_error, u64) outcome" where
  "IntrinsicGas data accessList isContractCreation isHomestead isEIP2028 =
     (let gas = (if isContractCreation \<and> isHomestead then TxGasContractCreation else TxGas) in
      and_then
        (if length data > 0
         then
           let nz = of_nat (length (filter (\<lambda>b. b \<noteq> 0) data));
               nonZeroGas = (if isEIP2028 then TxDataNonZeroGasEIP2028 else TxDataNonZeroGasFrontier)
           in if (- 1 - gas) div nonZeroGas < nz then Err CoreErrGasUintOverflow
           else
             let gas1 = gas + nz * nonZeroGas; z = of_nat (length data) - nz in
             if (- 1 - gas1) div TxDataZeroGas < z then Err CoreErrGasUintOverflow
             else Ok (gas1 + z * TxDataZeroGas)
         else Ok gas) (\<lambda>gas1. Ok (gas1 + access_list_gas accessList)))"

section \<open>Buying gas and the checks before it\<close>

definition buyGas :: "EVM \<Rightarrow> Message \<Rightarrow> Transition \<Rightarrow> (core_error, Transition) outcome" where
  "buyGas evm msg t =
     (let env = evm_env evm;
          mgval = uint (m_Gas msg) * m_GasPrice msg;
          balanceCheck = uint (m_Gas msg) * m_GasFeeCap msg + m_Value msg
      in if GetBalance env (m_From msg) (t_db t) < balanceCheck then Err ErrInsufficientFunds
      else and_then (gp_SubGas (m_Gas msg) (t_gp t)) (\<lambda>gp.
        Ok (t\<lparr>t_gp := gp, t_gas := t_gas t + m_Gas msg, t_initialGas := m_Gas msg,
              t_db := sdb_SubBalance env (m_From msg) mgval (t_db t)\<rparr>)))"

text \<open>The nonce and the sender, for messages that are not simulated.\<close>

definition check_sender :: "EVM \<Rightarrow> Message \<Rightarrow> StateDB \<Rightarrow> (core_error, unit) outcome" where
  "check_sender evm msg s =
     (let env = evm_env evm; stNonce = GetNonce env (m_From msg) s;
          codeHash = GetCodeHash env (m_From msg) s
      in if m_IsFake msg then Ok ()
      else if stNonce < m_Nonce msg then Err ErrNonceTooHigh
      else if stNonce > m_Nonce msg then Err ErrNonceTooLow
      else if stNonce + 1 < stNonce then Err ErrNonceMax
      else if codeHash \<noteq> BytesToHash (emptyCodeHash env) \<and> codeHash \<noteq> zero_hash then Err ErrSenderNoEOA
      else Ok ())"

definition big_BitLen :: "int \<Rightarrow> nat" where
  "big_BitLen x = bit_length (nat \<bar>x\<bar>)"

definition check_fees :: "bool \<Rightarrow> EVM \<Rightarrow> Message \<Rightarrow> (core_error, unit) outcome" where
  "check_fees noBaseFee evm msg =
     (if \<not> IsLondon (evm_rules evm) then Ok ()
      else if \<not> noBaseFee \<or> big_BitLen (m_GasFeeCap msg) > 0 \<or> big_BitLen (m_GasTipCap msg) > 0
      then
        if big_BitLen (m_GasFeeCap msg) > 256 then Err ErrFeeCapVeryHigh
        else if big_BitLen (m_GasTipCap msg) > 256 then Err ErrTipVeryHigh
        else if m_GasFeeCap msg < m_GasTipCap msg then Err ErrTipAboveFeeCap
        else and_then (deref (bc_BaseFee (evm_Context evm))) (\<lambda>baseFee.
          if m_GasFeeCap msg < baseFee then Err ErrFeeCapTooLow else Ok ())
      else Ok ())"

definition preCheck :: "bool \<Rightarrow> EVM \<Rightarrow> Message \<Rightarrow> Transition \<Rightarrow> (core_error, Transition) outcome" where
  "preCheck noBaseFee evm msg t =
     and_then (check_sender evm msg (t_db t)) (\<lambda>_.
     and_then (check_fees noBaseFee evm msg) (\<lambda>_. buyGas evm msg t))"

section \<open>The transition\<close>

definition refundGas :: "u64 \<Rightarrow> EVM \<Rightarrow> Message \<Rightarrow> Transition \<Rightarrow> (core_error, Transition) outcome" where
  "refundGas refundQuotient evm msg t =
     (let refund0 = gasUsed t div refundQuotient;
          refund = (if refund0 > sdb_refund (t_db t) then sdb_refund (t_db t) else refund0);
          gas = t_gas t + refund;
          remaining = uint gas * m_GasPrice msg;
          s = sdb_AddBalance (evm_env evm) (m_From msg) remaining (t_db t)
      in and_then (gp_AddGas gas (t_gp t)) (\<lambda>gp. Ok (t\<lparr>t_gp := gp, t_gas := gas, t_db := s\<rparr>)))"

text \<open>The message call or creation at the top of the call stack.\<close>

definition execute_message :: "EVM \<Rightarrow> Message \<Rightarrow> u64 \<Rightarrow> StateDB \<Rightarrow> (goerr, Result) outcome" where
  "execute_message evm msg gas s =
     (let sender = AccountRef (m_From msg); env = evm_env evm in
      case m_To msg of
        None \<Rightarrow>
          and_then (evm_Create evm (interpreter evm) 0 False sender (m_Data msg) gas (m_Value msg) s) (\<lambda>(a, r). Ok r)
      | Some to \<Rightarrow>
          evm_Call evm (interpreter evm) 0 False sender to (m_Data msg) gas (m_Value msg)
            (sdb_SetNonce env (m_From msg) (GetNonce env (m_From msg) s + 1) s))"

definition pay_tip :: "EVM \<Rightarrow> Message \<Rightarrow> Transition \<Rightarrow> (core_error, Transition) outcome" where
  "pay_tip evm msg t =
     and_then
       (if IsLondon (evm_rules evm)
        then and_then (deref (bc_BaseFee (evm_Context evm))) (\<lambda>baseFee.
          Ok (min (m_GasTipCap msg) (m_GasFeeCap msg - baseFee)))
        else Ok (m_GasPrice msg)) (\<lambda>effectiveTip.
       Ok (t\<lparr>t_db := sdb_AddBalance (evm_env evm) (bc_Coinbase (evm_Context evm))
               (uint (gasUsed t) * effectiveTip) (t_db t)\<rparr>))"

definition TransitionDb :: "bool \<Rightarrow> EVM \<Rightarrow> Message \<Rightarrow> Transition
    \<Rightarrow> (core_error, Transition \<times> ExecutionResult) outcome" where
  "TransitionDb noBaseFee evm msg t =
     and_then (preCheck noBaseFee evm msg t) (\<lambda>t1.
       let rules = evm_rules evm in
       and_then (IntrinsicGas (m_Data msg) (m_AccessList msg) (m_To msg = None) (IsHomestead rules) (IsIstanbul rules))
         (\<lambda>gas.
       if t_gas t1 < gas then Err ErrIntrinsicGas
       else if m_Value msg > 0 \<and> \<not> CanTransfer (evm_env evm) (m_From msg) (m_Value msg) (t_db t1)
       then Err ErrInsufficientFundsForTransfer
       else and_then
         (with_error CoreText (PrepareAccessList (m_From msg) (m_To msg) (ActivePrecompiles rules)
           (case m_AccessList msg of None \<Rightarrow> [] | Some al \<Rightarrow> al) (t_db t1))) (\<lambda>s.
       and_then (with_error CoreText (execute_message evm msg (t_gas t1 - gas) s)) (\<lambda>r.
       and_then (refundGas (if IsLondon rules then RefundQuotientEIP3529 else RefundQuotient) evm msg
           (t1\<lparr>t_gas := r_gas r, t_db := r_db r\<rparr>)) (\<lambda>t2.
       and_then (pay_tip evm msg t2) (\<lambda>t3.
         Ok (t3, \<lparr>er_UsedGas = gasUsed t3, er_Err = r_err r, er_ReturnData = r_ret r\<rparr>)))))))"

definition ApplyMessage :: "bool \<Rightarrow> EVM \<Rightarrow> Message \<Rightarrow> u64 \<Rightarrow> StateDB
    \<Rightarrow> (core_error, Transition \<times> ExecutionResult) outcome" where
  "ApplyMessage noBaseFee evm msg gp s = TransitionDb noBaseFee evm msg (NewStateTransition gp s)"

section \<open>What a successful transition did\<close>

lemma SubGas_eq: "gp_SubGas g gp = Ok gp1 \<longleftrightarrow> g \<le> gp \<and> gp1 = gp - g"
  by (auto simp: gp_SubGas_def)

lemma buyGas_cases:
  assumes "buyGas evm msg t = Ok t1"
  shows "uint (m_Gas msg) * m_GasFeeCap msg + m_Value msg \<le> GetBalance (evm_env evm) (m_From msg) (t_db t)"
    and "m_Gas msg \<le> t_gp t" and "t_gp t1 = t_gp t - m_Gas msg" and "t_gas t1 = t_gas t + m_Gas msg"
    and "t_initialGas t1 = m_Gas msg"
    and "t_db t1 = sdb_SubBalance (evm_env evm) (m_From msg) (uint (m_Gas msg) * m_GasPrice msg) (t_db t)"
  using assms by (auto simp: buyGas_def Let_def outcome_simps SubGas_eq split: if_splits)

lemma transition_cases:
  assumes "TransitionDb noBaseFee evm msg t = Ok (t3, res)"
  obtains t1 gas s r t2 where "check_fees noBaseFee evm msg = Ok ()" and "buyGas evm msg t = Ok t1"
    and "IntrinsicGas (m_Data msg) (m_AccessList msg) (m_To msg = None) (IsHomestead (evm_rules evm))
      (IsIstanbul (evm_rules evm)) = Ok gas" and "gas \<le> t_gas t1"
    and "PrepareAccessList (m_From msg) (m_To msg) (ActivePrecompiles (evm_rules evm))
      (case m_AccessList msg of None \<Rightarrow> [] | Some al \<Rightarrow> al) (t_db t1) = Ok s"
    and "execute_message evm msg (t_gas t1 - gas) s = Ok r"
    and "refundGas (if IsLondon (evm_rules evm) then RefundQuotientEIP3529 else RefundQuotient) evm msg
      (t1\<lparr>t_gas := r_gas r, t_db := r_db r\<rparr>) = Ok t2"
    and "pay_tip evm msg t2 = Ok t3" and "er_UsedGas res = gasUsed t3"
  using assms
  by (auto simp: TransitionDb_def preCheck_def Let_def outcome_simps not_less split: if_splits intro: that)

lemma execute_message_gas:
  assumes "evm_rules evm = ChainConfig_Rules merge" and "execute_message evm msg gas s = Ok r"
  shows "r_gas r \<le> gas"
proof -
  have "run_gas (interpreter evm)" using interpreter_gas assms(1) by simp
  note g = run_gas_calls [OF this]
  show ?thesis
    using assms(2)
    by (auto simp: execute_message_def evm_Create_def Let_def outcome_simps split: option.split_asm dest: g)
qed

lemma unat_room: "unat (- 1 - x :: u64) = 2 ^ 64 - 1 - unat x"
proof -
  have "x \<le> - 1" by simp
  then have "unat (- 1 - x) = unat (- 1 :: u64) - unat x" by (rule unat_sub)
  moreover have "(- 1 :: u64) = 0xFFFFFFFFFFFFFFFF" by simp
  then have "unat (- 1 :: u64) = 2 ^ 64 - 1" by (simp only: unat_numeral) simp
  ultimately show ?thesis by simp
qed

lemma refund_bounds:
  assumes "refundGas q evm msg t = Ok t1" and "t_gas t \<le> t_initialGas t" and "1 < q"
  shows "t_initialGas t1 = t_initialGas t" and "t_gas t \<le> t_gas t1" and "t_gas t1 \<le> t_initialGas t"
    and "unat (gasUsed t) \<le> unat (gasUsed t1) + unat (gasUsed t) div unat q"
    and "unat (t_gp t1) = unat (t_gp t) + unat (t_gas t1)"
    and "t_db t1 = sdb_AddBalance (evm_env evm) (m_From msg) (uint (t_gas t1) * m_GasPrice msg) (t_db t)"
proof -
  define refund where "refund = (if gasUsed t div q > sdb_refund (t_db t) then sdb_refund (t_db t) else gasUsed t div q)"
  have t1: "t_gas t1 = t_gas t + refund" "t_initialGas t1 = t_initialGas t"
    "gp_AddGas (t_gas t1) (t_gp t) = Ok (t_gp t1)"
    "t_db t1 = sdb_AddBalance (evm_env evm) (m_From msg) (uint (t_gas t1) * m_GasPrice msg) (t_db t)"
    using assms(1) unfolding refundGas_def refund_def Let_def by (auto simp: outcome_simps)
  have used: "unat (gasUsed t) = unat (t_initialGas t) - unat (t_gas t)"
    using assms(2) by (simp add: gasUsed_def unat_sub word_le_nat_alt)
  have ref: "unat refund \<le> unat (gasUsed t) div unat q"
    unfolding refund_def by (auto simp: word_less_nat_alt unat_div)
  also have "\<dots> \<le> unat (gasUsed t)" by simp
  finally have le: "unat (t_gas t) + unat refund \<le> unat (t_initialGas t)"
    using used assms(2) by (simp add: word_le_nat_alt)
  then have sum: "unat (t_gas t1) = unat (t_gas t) + unat refund"
    using unat_bound [of "t_initialGas t"] by (simp add: t1(1) unat_word_ariths)
  show "t_initialGas t1 = t_initialGas t" by (rule t1(2))
  show "t_gas t \<le> t_gas t1" "t_gas t1 \<le> t_initialGas t" using sum le by (simp_all add: word_le_nat_alt)
  then show "unat (gasUsed t) \<le> unat (gasUsed t1) + unat (gasUsed t) div unat q"
    using used ref sum by (simp add: gasUsed_def t1(2) unat_sub)
  have gp: "t_gp t1 = t_gp t + t_gas t1" "t_gp t \<le> - 1 - t_gas t1"
    using t1(3) by (auto simp: gp_AddGas_def split: if_splits)
  then have "unat (t_gp t) + unat (t_gas t1) < 2 ^ 64"
    using unat_bound [of "t_gas t1"] by (simp add: word_le_nat_alt unat_room)
  then show "unat (t_gp t1) = unat (t_gp t) + unat (t_gas t1)" by (simp add: gp(1) unat_word_ariths)
  show "t_db t1 = sdb_AddBalance (evm_env evm) (m_From msg) (uint (t_gas t1) * m_GasPrice msg) (t_db t)" by (rule t1(4))
qed

lemma pay_tip_cases:
  assumes "pay_tip evm msg t = Ok t1"
  shows "t_gp t1 = t_gp t" and "t_gas t1 = t_gas t" and "t_initialGas t1 = t_initialGas t"
    and "IsLondon (evm_rules evm) \<Longrightarrow> \<exists>baseFee. bc_BaseFee (evm_Context evm) = Some baseFee \<and>
      t_db t1 = sdb_AddBalance (evm_env evm) (bc_Coinbase (evm_Context evm))
        (uint (gasUsed t) * min (m_GasTipCap msg) (m_GasFeeCap msg - baseFee)) (t_db t)"
  using assms by (auto simp: pay_tip_def outcome_simps)

lemma quotient_gt_1: "1 < (if london then RefundQuotientEIP3529 else RefundQuotient)"
  by (simp add: RefundQuotientEIP3529_def RefundQuotient_def)

lemma transition_gas:
  assumes "evm_rules evm = ChainConfig_Rules merge" and "ApplyMessage noBaseFee evm msg gp s = Ok (t, res)"
  shows "er_UsedGas res \<le> m_Gas msg \<and> unat (t_gp t) + unat (er_UsedGas res) = unat gp \<and>
    (\<exists>gas. IntrinsicGas (m_Data msg) (m_AccessList msg) (m_To msg = None) True True = Ok gas \<and>
      4 * unat gas \<le> 5 * unat (er_UsedGas res))"
proof -
  obtain t1 gas s1 r t2 where c: "buyGas evm msg (NewStateTransition gp s) = Ok t1"
    "IntrinsicGas (m_Data msg) (m_AccessList msg) (m_To msg = None) (IsHomestead (evm_rules evm))
      (IsIstanbul (evm_rules evm)) = Ok gas" "gas \<le> t_gas t1"
    "execute_message evm msg (t_gas t1 - gas) s1 = Ok r"
    "refundGas (if IsLondon (evm_rules evm) then RefundQuotientEIP3529 else RefundQuotient) evm msg
      (t1\<lparr>t_gas := r_gas r, t_db := r_db r\<rparr>) = Ok t2"
    "pay_tip evm msg t2 = Ok t" "er_UsedGas res = gasUsed t"
    using assms(2) unfolding ApplyMessage_def by (rule transition_cases)
  have rules: "IsHomestead (evm_rules evm)" "IsIstanbul (evm_rules evm)" "IsLondon (evm_rules evm)"
    by (simp_all add: assms(1) ChainConfig_Rules_def)
  have b: "m_Gas msg \<le> gp" "t_gp t1 = gp - m_Gas msg" "t_gas t1 = m_Gas msg" "t_initialGas t1 = m_Gas msg"
    using buyGas_cases [OF c(1)] by (simp_all add: NewStateTransition_def)
  have g: "unat (r_gas r) + unat gas \<le> unat (m_Gas msg)"
    using execute_message_gas [OF assms(1) c(4)] c(3) b(3) by (simp add: word_le_nat_alt unat_sub)
  then have le: "r_gas r \<le> m_Gas msg" by (simp add: word_le_nat_alt)
  have "unat (5 :: u64) = 5" by simp
  note f = refund_bounds [OF c(5) _ quotient_gt_1] and p = pay_tip_cases [OF c(6)]
  have init: "t_initialGas t2 = m_Gas msg" "t_gas t2 \<le> m_Gas msg" "unat (t_gp t2) = unat (gp - m_Gas msg) + unat (t_gas t2)"
    "unat (m_Gas msg - r_gas r) \<le> unat (gasUsed t2) + unat (m_Gas msg - r_gas r) div 5"
    using f le b rules by (simp_all add: gasUsed_def RefundQuotientEIP3529_def)
  have used: "unat (gasUsed t) = unat (m_Gas msg) - unat (t_gas t2)"
    using init(1,2) p by (simp add: gasUsed_def unat_sub)
  have "er_UsedGas res \<le> m_Gas msg" using used c(7) by (simp add: word_le_nat_alt)
  moreover have "unat (t_gp t) + unat (er_UsedGas res) = unat gp"
    using used init(2,3) b(1) c(7) p(1) by (simp add: unat_sub word_le_nat_alt)
  moreover have "4 * unat gas \<le> 5 * unat (er_UsedGas res)"
    using init(4) g c(7) p le by (simp add: gasUsed_def unat_sub) 
  ultimately show ?thesis using c(2) rules by auto
qed

text \<open>C8. A message that is applied uses no more gas than it bought and at least four fifths of its
  intrinsic cost, and exactly what it used is missing from the block's gas pool afterwards.\<close>

theorem ApplyMessage_gas:
  assumes "evm_rules evm = ChainConfig_Rules merge" and "ApplyMessage noBaseFee evm msg gp s = Ok (t, res)"
  shows "er_UsedGas res \<le> m_Gas msg \<and> unat (t_gp t) + unat (er_UsedGas res) = unat gp \<and>
    (\<exists>gas. IntrinsicGas (m_Data msg) (m_AccessList msg) (m_To msg = None) True True = Ok gas \<and>
      4 * unat gas \<le> 5 * unat (er_UsedGas res))"
  using assms by (rule transition_gas)

section \<open>Every transition ends\<close>






section \<open>The value a transition moves\<close>

text \<open>The balances of finitely many accounts move and their sum grows by at most the given amount.\<close>

definition moves :: "int \<Rightarrow> ('a \<Rightarrow> int) \<Rightarrow> ('a \<Rightarrow> int) \<Rightarrow> bool" where
  "moves k b b1 \<longleftrightarrow> (\<exists>A. finite A \<and> (\<forall>a. a \<notin> A \<longrightarrow> b1 a = b a) \<and> sum b1 A \<le> sum b A + k)"

lemma moves_wider:
  assumes "finite A" and "finite B" and "\<forall>a. a \<notin> A \<longrightarrow> b1 a = b a" and "sum b1 A \<le> sum b A + k"
  shows "sum b1 (A \<union> B) \<le> sum (b :: 'a \<Rightarrow> int) (A \<union> B) + k"
proof -
  have "sum b1 (B - A) = sum b (B - A)" by (rule sum.cong) (use assms(3) in auto)
  moreover have "sum f (A \<union> B) = sum f A + sum f (B - A)" for f :: "'a \<Rightarrow> int"
    using sum.union_disjoint [of A "B - A" f] assms(1,2) by auto
  ultimately show ?thesis using assms(4) by simp
qed

lemma moves_trans:
  assumes "moves k b b1" and "moves l b1 b2"
  shows "moves (k + l) b b2"
proof -
  obtain A where A: "finite A" "\<forall>a. a \<notin> A \<longrightarrow> b1 a = b a" "sum b1 A \<le> sum b A + k"
    using assms(1) by (auto simp: moves_def)
  obtain B where B: "finite B" "\<forall>a. a \<notin> B \<longrightarrow> b2 a = b1 a" "sum b2 B \<le> sum b1 B + l"
    using assms(2) by (auto simp: moves_def)
  have "sum b2 (A \<union> B) \<le> sum b (A \<union> B) + (k + l)"
    using moves_wider [OF A(1) B(1) A(2,3)] moves_wider [OF B(1) A(1) B(2,3)] by (simp add: Un_commute)
  then show ?thesis unfolding moves_def using A(1,2) B(1,2) by (intro exI [of _ "A \<union> B"]) auto
qed

lemma moves_one: "moves k b (b(a := b a + k))"
  unfolding moves_def by (intro exI [of _ "{a}"]) simp

lemma moves_no_mint: "no_mint b b1 \<Longrightarrow> \<forall>a. 0 \<le> b a \<Longrightarrow> moves 0 b b1"
  by (simp add: no_mint_def moves_def)

lemma Prepare_wf:
  assumes "PrepareAccessList sender dst pcs al s = Ok s1" and "state_wf env s" and "rev_wf s"
  shows "state_wf env s1 \<and> rev_wf s1 \<and> account env s1 = account env s"
proof -
  define I where "I s1 \<longleftrightarrow> state_wf env s1 \<and> rev_wf s1 \<and> account env s1 = account env s" for s1
  have exec: "I s2" if "exec env s1 s2" "account env s2 = account env s1" "I s1" for s1 s2
    using exec_wf [OF that(1)] that(2,3) by (simp add: I_def)
  have add: "I (AddAddressToAccessList a s1)" if "I s1" for a s1
    by (rule exec [OF exec_AddAddress _ that]) simp
  have slot: "I s2" if "AddSlotToAccessList a k s1 = Ok s2" "I s1" for a k s1 s2
    by (rule exec [OF exec_AddSlot [OF that(1)] account_AddSlot [OF that(1)] that(2)])
  have "lookup_object env (s\<lparr>sdb_accessList := newAccessList\<rparr>) = lookup_object env s"
    by (simp add: lookup_object_def fun_eq_iff cong: option.case_cong)
  moreover have "account env (s\<lparr>sdb_accessList := newAccessList\<rparr>) = account env s" by (rule account_cong) simp_all
  ultimately have base: "I (s\<lparr>sdb_accessList := newAccessList\<rparr>)"
    using assms(2,3) by (simp add: I_def state_wf_def rev_wf_def)
  have adds: "I (fold AddAddressToAccessList as s1)" if "I s1" for as s1
    using that by (induction as arbitrary: s1) (simp_all add: add)
  have "I s1"
    using assms(1) unfolding PrepareAccessList_def Let_def
  proof (rule fold_outcome_invariant)
    show "I (fold AddAddressToAccessList pcs (case dst of None \<Rightarrow> AddAddressToAccessList sender
        (s\<lparr>sdb_accessList := newAccessList\<rparr>) | Some d \<Rightarrow> AddAddressToAccessList d
        (AddAddressToAccessList sender (s\<lparr>sdb_accessList := newAccessList\<rparr>))))"
      using base by (cases dst) (simp_all add: adds add)
  next
    fix x :: "Address \<times> Hash list" and s2 s3
    assume "I s2" and "(case x of (a, keys) \<Rightarrow> \<lambda>s4. fold_outcome (AddSlotToAccessList a) keys
      (AddAddressToAccessList a s4)) s2 = Ok s3"
    then show "I s3" by (cases x) (auto elim!: fold_outcome_invariant [where I = I] intro: add slot)
  qed
  then show ?thesis by (simp add: I_def)
qed

lemma execute_mints_nothing:
  assumes "execute_message evm msg gas s = Ok r" and "0 \<le> m_Value msg"
    and "state_wf (evm_env evm) s" and "rev_wf s" and "\<forall>x. 0 \<le> GetBalance (evm_env evm) x s"
  shows "(\<forall>x. 0 \<le> GetBalance (evm_env evm) x (r_db r)) \<and>
    moves 0 (\<lambda>x. GetBalance (evm_env evm) x s) (\<lambda>x. GetBalance (evm_env evm) x (r_db r))"
proof -
  let ?env = "evm_env evm" and ?s = "sdb_SetNonce (evm_env evm) (m_From msg) (GetNonce (evm_env evm) (m_From msg) s + 1) s"
  have "mint.effect ?env False s (r_db r)"
  proof (cases "m_To msg")
    case None
    then obtain h a a1 where "evm_create evm (interpreter evm) 0 False (AccountRef (m_From msg)) (m_Data msg)
        h gas (m_Value msg) a s = Ok (a1, r)"
      using assms(1) by (auto simp: execute_message_def evm_Create_def Let_def outcome_simps)
    then show ?thesis by (rule mint.calls_effect(5) [OF mint.interpreter_effect [OF refl] refl _ assms(2)])
  next
    case (Some to)
    then have "perform evm 0 False (AccountRef (m_From msg)) (MsgCall to (m_Data msg) gas (m_Value msg)) ?s = Ok r"
      using assms(1) by (simp add: execute_message_def Let_def)
    from mint.perform_effect [OF refl this] have "mint.effect ?env False ?s (r_db r)" using assms(2) by simp
    then show ?thesis by (rule mint.effect_trans [OF mint.effect_nonce])
  qed
  then have "no_mint (\<lambda>x. GetBalance ?env x s) (\<lambda>x. GetBalance ?env x (r_db r))"
    using assms(3,4) by (simp add: mint.effect_def mints_nothing_def)
  then show ?thesis using assms(5) by (simp add: no_mint_def moves_def)
qed

lemma credit_moves:
  "moves k (\<lambda>x. GetBalance env x s) (\<lambda>x. GetBalance env x (sdb_AddBalance env a k s))"
  "moves (- k) (\<lambda>x. GetBalance env x s) (\<lambda>x. GetBalance env x (sdb_SubBalance env a k s))"
  using moves_one [of k "\<lambda>x. GetBalance env x s" a] moves_one [of "- k" "\<lambda>x. GetBalance env x s" a]
  by (simp_all add: ld.bal_credit ld.bal_debit)

lemma credit_solvent:
  "\<forall>x. 0 \<le> GetBalance env x s \<Longrightarrow> 0 \<le> k \<Longrightarrow> \<forall>x. 0 \<le> GetBalance env x (sdb_AddBalance env a k s)"
  by (simp add: getters_account account_AddBalance)

lemma debit_solvent:
  "\<forall>x. 0 \<le> GetBalance env x s \<Longrightarrow> k \<le> GetBalance env a s \<Longrightarrow> \<forall>x. 0 \<le> GetBalance env x (sdb_SubBalance env a k s)"
  by (simp add: getters_account account_SubBalance)

lemma fees_checked:
  assumes "check_fees False evm msg = Ok ()" and "IsLondon (evm_rules evm)"
    and "bc_BaseFee (evm_Context evm) = Some baseFee"
  shows "m_GasTipCap msg \<le> m_GasFeeCap msg" and "baseFee \<le> m_GasFeeCap msg"
  using assms by (auto simp: check_fees_def deref_def split: if_splits)

lemma started_state:
  assumes "buyGas evm msg t = Ok t1" and "0 \<le> m_Value msg" and "0 \<le> m_GasPrice msg" and "m_GasPrice msg \<le> m_GasFeeCap msg"
    and "PrepareAccessList a dst pcs al (t_db t1) = Ok s" and "state_wf (evm_env evm) (t_db t)" and "rev_wf (t_db t)"
    and "\<forall>x. 0 \<le> GetBalance (evm_env evm) x (t_db t)"
  shows "state_wf (evm_env evm) s \<and> rev_wf s \<and> (\<forall>x. 0 \<le> GetBalance (evm_env evm) x s) \<and>
    moves (- (uint (m_Gas msg) * m_GasPrice msg)) (\<lambda>x. GetBalance (evm_env evm) x (t_db t)) (\<lambda>x. GetBalance (evm_env evm) x s)"
proof -
  let ?env = "evm_env evm" and ?k = "uint (m_Gas msg) * m_GasPrice msg"
  note b = buyGas_cases [OF assms(1)]
  have "uint (m_Gas msg) * m_GasPrice msg \<le> uint (m_Gas msg) * m_GasFeeCap msg"
    by (rule mult_left_mono [OF assms(4)]) simp
  then have "?k \<le> GetBalance ?env (m_From msg) (t_db t)" using b(1) assms(2) by linarith
  then have solvent: "\<forall>x. 0 \<le> GetBalance ?env x (t_db t1)" unfolding b(6) by (rule debit_solvent [OF assms(8)])
  have "state_wf ?env (t_db t1)" "rev_wf (t_db t1)"
    using exec_wf [OF exec_SubBalance assms(6,7)] unfolding b(6) by simp_all
  from Prepare_wf [OF assms(5) this] have s: "state_wf ?env s" "rev_wf s" "account ?env s = account ?env (t_db t1)"
    by simp_all
  then have "GetBalance ?env x s = GetBalance ?env x (t_db t1)" for x by (simp add: getters_account)
  then show ?thesis using s solvent credit_moves(2) [of ?k ?env "t_db t" "m_From msg"] b(6) by simp
qed

text \<open>C7. The money of a message: the gas is paid for up front, the gas that is left is paid back, the block's
  author is paid the tip, and the base fee of the gas used is burnt. With the gas price that
  \<^verbatim>\<open>TransferTxAsMessage\<close> computes, whatever code the message runs, no account ends with a negative
  balance, and over the accounts whose balance changed the sum has fallen by at least the base fee of
  the gas used.\<close>

theorem ApplyMessage_burns_base_fee:
  assumes "evm_rules evm = ChainConfig_Rules merge" and "ApplyMessage False evm msg gp s = Ok (t, res)"
    and "state_wf (evm_env evm) s" and "rev_wf s" and "\<forall>x. 0 \<le> GetBalance (evm_env evm) x s"
    and "bc_BaseFee (evm_Context evm) = Some baseFee" and "0 \<le> baseFee" and "0 \<le> m_GasTipCap msg" and "0 \<le> m_Value msg"
    and "m_GasPrice msg = min (m_GasTipCap msg + baseFee) (m_GasFeeCap msg)"
  shows "(\<forall>x. 0 \<le> GetBalance (evm_env evm) x (t_db t)) \<and>
    (\<exists>A. finite A \<and> (\<forall>x. x \<notin> A \<longrightarrow> GetBalance (evm_env evm) x (t_db t) = GetBalance (evm_env evm) x s) \<and>
      (\<Sum>x\<in>A. GetBalance (evm_env evm) x (t_db t)) + uint (er_UsedGas res) * baseFee \<le>
        (\<Sum>x\<in>A. GetBalance (evm_env evm) x s))"
proof -
  let ?env = "evm_env evm" and ?G = "uint (m_Gas msg)" and ?p = "m_GasPrice msg"
  let ?tip = "min (m_GasTipCap msg) (m_GasFeeCap msg - baseFee)"
  define bal where "bal s = (\<lambda>x. GetBalance ?env x s)" for s
  obtain t1 gas s1 r t2 where c: "check_fees False evm msg = Ok ()" "buyGas evm msg (NewStateTransition gp s) = Ok t1"
    "gas \<le> t_gas t1" "PrepareAccessList (m_From msg) (m_To msg) (ActivePrecompiles (evm_rules evm))
      (case m_AccessList msg of None \<Rightarrow> [] | Some al \<Rightarrow> al) (t_db t1) = Ok s1"
    "execute_message evm msg (t_gas t1 - gas) s1 = Ok r"
    "refundGas (if IsLondon (evm_rules evm) then RefundQuotientEIP3529 else RefundQuotient) evm msg
      (t1\<lparr>t_gas := r_gas r, t_db := r_db r\<rparr>) = Ok t2"
    "pay_tip evm msg t2 = Ok t" "er_UsedGas res = gasUsed t"
    using assms(2) unfolding ApplyMessage_def by (rule transition_cases)
  have london: "IsLondon (evm_rules evm)" by (simp add: assms(1) ChainConfig_Rules_def)
  note fees = fees_checked [OF c(1) london assms(6)]
  have p: "0 \<le> ?p" "?p \<le> m_GasFeeCap msg" "?tip = ?p - baseFee" "0 \<le> ?tip" using fees assms(7,8,10) by auto
  have s1: "state_wf ?env s1" "rev_wf s1" "\<forall>x. 0 \<le> GetBalance ?env x s1" "moves (- (?G * ?p)) (bal s) (bal s1)"
    using started_state [OF c(2) assms(9) p(1,2) c(4)] assms(3-5) by (simp_all add: NewStateTransition_def bal_def)
  have r: "\<forall>x. 0 \<le> GetBalance ?env x (r_db r)" "moves 0 (bal s1) (bal (r_db r))"
    using execute_mints_nothing [OF c(5) assms(9) s1(1-3)] by (simp_all add: bal_def)
  have b: "t_gas t1 = m_Gas msg" "t_initialGas t1 = m_Gas msg"
    using buyGas_cases [OF c(2)] by (simp_all add: NewStateTransition_def)
  have "r_gas r \<le> m_Gas msg"
    using execute_message_gas [OF assms(1) c(5)] c(3) b by (metis word_sub_le order_trans)
  then have t2: "t_initialGas t2 = m_Gas msg" "t_gas t2 \<le> m_Gas msg"
    "t_db t2 = sdb_AddBalance ?env (m_From msg) (uint (t_gas t2) * ?p) (r_db r)"
    using refund_bounds [OF c(6) _ quotient_gt_1] b by simp_all
  have t: "t_db t = sdb_AddBalance ?env (bc_Coinbase (evm_Context evm)) (uint (gasUsed t2) * ?tip) (t_db t2)"
    "gasUsed t = gasUsed t2"
    using pay_tip_cases [OF c(7)] london assms(6) by (auto simp: gasUsed_def)
  have used: "uint (gasUsed t2) = ?G - uint (t_gas t2)"
    using t2(1,2) by (simp add: gasUsed_def uint_minus_simple_alt)
  have "moves (- (?G * ?p) + 0 + uint (t_gas t2) * ?p + uint (gasUsed t2) * ?tip) (bal s) (bal (t_db t))"
    using moves_trans [OF moves_trans [OF s1(4) r(2)]] credit_moves(1) moves_trans unfolding t(1) t2(3) bal_def by blast
  moreover have "- (?G * ?p) + 0 + uint (t_gas t2) * ?p + uint (gasUsed t2) * ?tip = - (uint (er_UsedGas res) * baseFee)"
    unfolding c(8) t(2) used p(3) by (simp add: algebra_simps)
  moreover have "\<forall>x. 0 \<le> GetBalance ?env x (t_db t)"
    unfolding t(1) t2(3) using p(1,4) by (intro credit_solvent r(1) mult_nonneg_nonneg) simp_all
  ultimately show ?thesis by (auto simp: moves_def bal_def algebra_simps)
qed

section \<open>A transition for the witnesses\<close>

definition witness_message :: Message where
  "witness_message =
     \<lparr>m_From = [1], m_To = Some [2], m_Nonce = 0, m_Value = 0, m_Gas = 30000, m_GasPrice = 0, m_GasFeeCap = 0,
      m_GasTipCap = 0, m_Data = [], m_AccessList = None, m_IsFake = False\<rparr>"

definition witness_bought :: Transition where
  "witness_bought = \<lparr>t_gp = 20000, t_gas = 30000, t_initialGas = 30000,
     t_db = sdb_SubBalance witness_env [1] 0 (witness_state [])\<rparr>"

definition witness_prepared :: StateDB where
  "witness_prepared = fold AddAddressToAccessList (ActivePrecompiles (ChainConfig_Rules True))
     (AddAddressToAccessList [2] (AddAddressToAccessList [1] ((t_db witness_bought)\<lparr>sdb_accessList := newAccessList\<rparr>)))"

definition witness_called :: StateDB where
  "witness_called = snd (sdb_Snapshot (sdb_SetNonce witness_env [1] 1 witness_prepared))"

lemma witness_evm_fields:
  "evm_env witness_evm = witness_env" "evm_rules witness_evm = ChainConfig_Rules True"
  "bc_BaseFee (evm_Context witness_evm) = Some 0" "evm_precompiles witness_evm a = None"
  by (simp_all add: witness_evm_def)

lemma witness_preCheck: "preCheck False witness_evm witness_message (NewStateTransition 50000 (witness_state [])) = Ok witness_bought"
proof -
  have "is_ok (check_sender witness_evm witness_message (witness_state []))" by code_simp
  moreover have "GetBalance witness_env [1] (witness_state []) = 0" "bit_length 0 = 0" by code_simp+
  ultimately show ?thesis
    by (auto simp: is_ok_iff preCheck_def check_fees_def deref_def buyGas_def witness_message_def witness_bought_def
        NewStateTransition_def witness_evm_fields gp_SubGas_def Let_def big_BitLen_def)
qed

lemma witness_execute:
  "\<exists>jd. execute_message witness_evm witness_message 9000 witness_prepared = Ok (result [] 9000 None witness_called jd)"
proof -
  have "\<not> sdb_Exist witness_env [2] witness_called" by code_simp
  moreover have "GetNonce witness_env [1] witness_prepared = 0" by code_simp
  ultimately show ?thesis
    by (cases "sdb_Snapshot (sdb_SetNonce witness_env [1] 1 witness_prepared)")
      (auto simp: execute_message_def evm_Call_def witness_message_def witness_evm_fields CallCreateDepth_def Let_def
        witness_called_def ChainConfig_Rules_def)
qed

lemma witness_refund:
  "is_ok (refundGas RefundQuotientEIP3529 witness_evm witness_message (witness_bought\<lparr>t_gas := 9000, t_db := witness_called\<rparr>))"
proof -
  have "sdb_refund witness_called = 0" by code_simp
  then show ?thesis
    by (simp add: refundGas_def gp_AddGas_def witness_bought_def Let_def gasUsed_def RefundQuotientEIP3529_def)
qed

lemma witness_transition: "\<exists>t res. ApplyMessage False witness_evm witness_message 50000 (witness_state []) = Ok (t, res)"
proof -
  have p: "PrepareAccessList [1] (Some [2]) (ActivePrecompiles (ChainConfig_Rules True)) [] (t_db witness_bought) = Ok witness_prepared"
    by (simp add: PrepareAccessList_def witness_prepared_def)
  have f: "m_From witness_message = [1]" "m_To witness_message = Some [2]" "m_AccessList witness_message = None"
    "m_Data witness_message = []" "m_Value witness_message = 0" "t_gas witness_bought = 30000"
    by (simp_all add: witness_message_def witness_bought_def)
  have i: "IntrinsicGas [] None False h i = Ok 21000" for h i
    by (simp add: IntrinsicGas_def access_list_gas_def TxGas_def)
  have l: "IsLondon (ChainConfig_Rules True)" by (simp add: ChainConfig_Rules_def)
  obtain jd where e: "execute_message witness_evm witness_message 9000 witness_prepared = Ok (result [] 9000 None witness_called jd)"
    using witness_execute by blast
  obtain t2 where r: "refundGas RefundQuotientEIP3529 witness_evm witness_message
      (witness_bought\<lparr>t_gas := 9000, t_db := witness_called\<rparr>) = Ok t2"
    using witness_refund by (auto simp: is_ok_iff)
  have "\<exists>t. pay_tip witness_evm witness_message t2 = Ok t"
    by (simp add: pay_tip_def witness_evm_fields deref_def l)
  then show ?thesis
    using e r by (auto simp: ApplyMessage_def TransitionDb_def witness_preCheck Let_def f i p witness_evm_fields l)
qed

theorem ApplyMessage_gas_witness:
  "\<exists>t res. ApplyMessage False witness_evm witness_message 50000 (witness_state []) = Ok (t, res) \<and>
    unat (t_gp t) + unat (er_UsedGas res) = 50000"
proof -
  obtain t res where a: "ApplyMessage False witness_evm witness_message 50000 (witness_state []) = Ok (t, res)"
    using witness_transition by blast
  from ApplyMessage_gas [OF witness_evm_fields(2) this] show ?thesis using a by auto
qed


theorem ApplyMessage_burns_base_fee_witness:
  "\<exists>t res. ApplyMessage False witness_evm witness_message 50000 (witness_state []) = Ok (t, res) \<and>
    (\<forall>x. 0 \<le> GetBalance witness_env x (t_db t))"
proof -
  obtain t res where a: "ApplyMessage False witness_evm witness_message 50000 (witness_state []) = Ok (t, res)"
    using witness_transition by blast
  have "\<forall>x. 0 \<le> GetBalance (evm_env witness_evm) x (witness_state [])"
    by (simp add: witness_evm_fields witness_state_def getters_account account_SetCode)
      (simp add: account_def live_object_lookup New_lookup newObject_def zero_account_def)
  from ApplyMessage_burns_base_fee [OF witness_evm_fields(2) a _ _ this witness_evm_fields(3)] show ?thesis
    using a witness_state_wf by (auto simp: witness_evm_fields witness_message_def)
qed

end
