(* ===== verification/Zond_Receipts.thy ===== *)
theory Zond_Receipts
  imports Zond_StateDB
begin

text \<open>
  Receipts and their log filters: the 2048-bit bloom filter of \<^verbatim>\<open>core/types/bloom9.go\<close>, the receipts of
  \<^verbatim>\<open>core/types/receipt.go\<close> and the form in which \<^verbatim>\<open>core/state_processor.go\<close> stores them, which is an
  RLP list. Keccak-256 is an argument.
\<close>

unbundle bit_operations_syntax

section \<open>core/types/bloom9.go\<close>

definition BloomByteLength :: nat where "BloomByteLength = 256"

type_synonym Bloom = bytes

definition zero_Bloom :: Bloom where "zero_Bloom = replicate BloomByteLength 0"

definition bloom_SetBytes :: "bytes \<Rightarrow> Bloom \<Rightarrow> (goerr, Bloom) outcome" where
  "bloom_SetBytes d b =
     (if BloomByteLength < length d then Panic
      else Ok (take (BloomByteLength - length d) b @ d))"

definition BytesToBloom :: "bytes \<Rightarrow> (goerr, Bloom) outcome" where
  "BytesToBloom b = bloom_SetBytes b zero_Bloom"

text \<open>The byte to change and the bit to set in it, read from two bytes of the hash.\<close>

definition bloom_bit :: "bytes \<Rightarrow> nat \<Rightarrow> nat \<times> u8" where
  "bloom_bit hashbuf k =
     (BloomByteLength - drop_bit 3 (nat_of_be [hashbuf ! k, hashbuf ! (k + 1)] AND 0x7FF) - 1,
      push_bit (unat (hashbuf ! (k + 1) AND 0x7)) 1)"

definition bloomValues :: "(bytes \<Rightarrow> bytes) \<Rightarrow> bytes \<Rightarrow> (nat \<times> u8) list" where
  "bloomValues keccak data =
     (let hashbuf = take 6 (keccak data) in [bloom_bit hashbuf 0, bloom_bit hashbuf 2, bloom_bit hashbuf 4])"

definition bloom_add :: "(bytes \<Rightarrow> bytes) \<Rightarrow> bytes \<Rightarrow> Bloom \<Rightarrow> Bloom" where
  "bloom_add keccak d b = fold (\<lambda>(i, v) b. b[i := b ! i OR v]) (bloomValues keccak d) b"

definition bloom_Test :: "(bytes \<Rightarrow> bytes) \<Rightarrow> Bloom \<Rightarrow> bytes \<Rightarrow> bool" where
  "bloom_Test keccak b topic = list_all (\<lambda>(i, v). v = v AND b ! i) (bloomValues keccak topic)"

definition bloom_log :: "(bytes \<Rightarrow> bytes) \<Rightarrow> Log \<Rightarrow> Bloom \<Rightarrow> Bloom" where
  "bloom_log keccak log b = fold (bloom_add keccak) (log_Topics log) (bloom_add keccak (log_Address log) b)"

definition LogsBloom :: "(bytes \<Rightarrow> bytes) \<Rightarrow> Log list \<Rightarrow> Bloom" where
  "LogsBloom keccak logs = fold (bloom_log keccak) logs zero_Bloom"

section \<open>core/types/receipt.go\<close>

definition ReceiptStatusFailed :: u64 where "ReceiptStatusFailed = 0"
definition ReceiptStatusSuccessful :: u64 where "ReceiptStatusSuccessful = 1"

record Receipt =
  rc_Type :: u8
  rc_PostState :: bytes
  rc_Status :: u64
  rc_CumulativeGasUsed :: u64
  rc_Bloom :: Bloom
  rc_Logs :: "Log list"
  rc_TxHash :: Hash
  rc_ContractAddress :: Address
  rc_GasUsed :: u64
  rc_BlockHash :: Hash
  rc_BlockNumber :: "int option"
  rc_TransactionIndex :: u64

definition zero_Receipt :: Receipt where
  "zero_Receipt =
     \<lparr>rc_Type = 0, rc_PostState = [], rc_Status = 0, rc_CumulativeGasUsed = 0, rc_Bloom = zero_Bloom,
      rc_Logs = [], rc_TxHash = zero_hash, rc_ContractAddress = zero_address, rc_GasUsed = 0,
      rc_BlockHash = zero_hash, rc_BlockNumber = None, rc_TransactionIndex = 0\<rparr>"

definition CreateBloom :: "(bytes \<Rightarrow> bytes) \<Rightarrow> Receipt list \<Rightarrow> Bloom" where
  "CreateBloom keccak receipts = fold (\<lambda>receipt. fold (bloom_log keccak) (rc_Logs receipt)) receipts zero_Bloom"

definition statusEncoding :: "Receipt \<Rightarrow> bytes" where
  "statusEncoding r =
     (if length (rc_PostState r) = 0
      then if rc_Status r = ReceiptStatusFailed then [] else [0x01]
      else rc_PostState r)"

definition setStatus :: "bytes \<Rightarrow> Receipt \<Rightarrow> (goerr, Receipt) outcome" where
  "setStatus postStateOrStatus r =
     (if postStateOrStatus = [0x01] then Ok (r\<lparr>rc_Status := ReceiptStatusSuccessful\<rparr>)
      else if postStateOrStatus = [] then Ok (r\<lparr>rc_Status := ReceiptStatusFailed\<rparr>)
      else if length postStateOrStatus = 32 then Ok (r\<lparr>rc_PostState := postStateOrStatus\<rparr>)
      else Err ''invalid receipt status'')"

text \<open>\<^verbatim>\<open>EncodeRLP\<close> of a log, of a receipt for storage and of the list of them, as the values the encoder
  writes.\<close>

definition log_rlp :: "Log \<Rightarrow> rlp_value" where
  "log_rlp l = RlpStruct [RlpByteArray (log_Address l), RlpSlice (map RlpByteArray (log_Topics l)), RlpBytes (log_Data l)]"

definition ReceiptForStorage_rlp :: "Receipt \<Rightarrow> rlp_value" where
  "ReceiptForStorage_rlp r =
     RlpStruct [RlpBytes (statusEncoding r), RlpUint (rc_CumulativeGasUsed r), RlpStruct (map log_rlp (rc_Logs r))]"

definition receiptsToByteReceipts :: "Receipt list \<Rightarrow> (goerr, bytes) outcome" where
  "receiptsToByteReceipts receipts = EncodeToBytes (RlpSlice (map ReceiptForStorage_rlp receipts))"

section \<open>The filter misses nothing\<close>

lemma bloom_index: "i < 256" if "(i, v) \<in> set (bloomValues keccak d)"
  using that by (auto simp: bloomValues_def bloom_bit_def BloomByteLength_def Let_def)

definition covers :: "Bloom \<Rightarrow> nat \<times> u8 \<Rightarrow> bool" where
  "covers b p \<longleftrightarrow> snd p = snd p AND b ! fst p"

definition filter_wf :: "Bloom \<Rightarrow> bool" where
  "filter_wf b \<longleftrightarrow> length b = BloomByteLength"

lemma covers_or: "v = v AND x \<Longrightarrow> v = v AND (x OR (w :: u8))" "v = v AND (x OR (v :: u8))"
  by (auto simp: bit_eq_iff bit_simps)

lemma covers_set: "filter_wf b \<Longrightarrow> covers b p \<Longrightarrow> covers (b[i := b ! i OR v]) p"
  by (cases "i < length b") (auto simp: covers_def nth_list_update list_update_beyond covers_or(1))

lemma filter_wf_update [simp]: "filter_wf (b[i := x]) = filter_wf b"
  by (simp add: filter_wf_def)

lemma covers_fold:
  "filter_wf b \<Longrightarrow> covers b p \<Longrightarrow> covers (fold (\<lambda>(i, v) b. b[i := b ! i OR v]) ps b) p"
  by (induction ps arbitrary: b) (simp_all add: covers_set split: prod.split)

lemma filter_wf_set: "filter_wf (fold (\<lambda>(i, v) b. b[i := b ! i OR v]) ps b) = filter_wf b"
  by (induction ps arbitrary: b) (simp_all split: prod.split)

lemma covers_added:
  assumes "filter_wf b" and "(i, v) \<in> set ps" and "\<forall>p\<in>set ps. fst p < BloomByteLength"
  shows "covers (fold (\<lambda>(i, v) b. b[i := b ! i OR v]) ps b) (i, v)"
  using assms
proof (induction ps arbitrary: b)
  case (Cons p ps)
  obtain j w where p: "p = (j, w)" by (cases p)
  let ?b = "b[j := b ! j OR w]"
  have wf: "filter_wf ?b" using Cons.prems(1) by simp
  show ?case
  proof (cases "(i, v) = p")
    case True
    then have "covers ?b (i, v)"
      using p Cons.prems(1,3) by (auto simp: covers_def filter_wf_def covers_or(2))
    then show ?thesis using covers_fold [OF wf] p by simp
  next
    case False
    then have "(i, v) \<in> set ps" "\<forall>p\<in>set ps. fst p < BloomByteLength" using Cons.prems(2,3) by auto
    then show ?thesis using Cons.IH [OF wf] p by simp
  qed
qed simp

lemma Test_covers: "bloom_Test keccak b d \<longleftrightarrow> (\<forall>p\<in>set (bloomValues keccak d). covers b p)"
  by (auto simp: bloom_Test_def list_all_iff covers_def)

lemma add_wf [simp]: "filter_wf (bloom_add keccak d b) = filter_wf b"
  by (simp add: bloom_add_def filter_wf_set)

lemma Test_added: "filter_wf b \<Longrightarrow> bloom_Test keccak (bloom_add keccak d b) d"
  unfolding Test_covers bloom_add_def
  by (auto intro!: covers_added dest: bloom_index simp: BloomByteLength_def)

lemma Test_kept: "filter_wf b \<Longrightarrow> bloom_Test keccak b d \<Longrightarrow> bloom_Test keccak (bloom_add keccak e b) d"
  by (simp add: Test_covers bloom_add_def covers_fold)

section \<open>The contract of a filter\<close>

text \<open>What a filter promises: an item that was added tests positive, and goes on doing so.\<close>

locale item_filter =
  fixes add :: "'d \<Rightarrow> 'f \<Rightarrow> 'f"
    and test :: "'f \<Rightarrow> 'd \<Rightarrow> bool"
    and wf :: "'f \<Rightarrow> bool"
  assumes test_added: "wf b \<Longrightarrow> test (add d b) d"
    and test_kept: "wf b \<Longrightarrow> test b d \<Longrightarrow> test (add e b) d"
    and wf_add: "wf b \<Longrightarrow> wf (add d b)"
begin

lemma test_fold: "wf b \<Longrightarrow> test b d \<or> d \<in> set ds \<Longrightarrow> test (fold add ds b) d"
  by (induction ds arbitrary: b) (auto simp: test_added test_kept wf_add)

end

interpretation bloom: item_filter "bloom_add keccak" "bloom_Test keccak" filter_wf for keccak
  by unfold_locales (simp_all add: Test_added Test_kept)

definition log_items :: "Log \<Rightarrow> bytes list" where
  "log_items l = log_Address l # log_Topics l"

lemma bloom_log_items: "bloom_log keccak l = fold (bloom_add keccak) (log_items l)"
  by (simp add: bloom_log_def log_items_def fun_eq_iff)

lemma fold_concat: "fold (\<lambda>x. fold f (g x)) xs = fold f (concat (map g xs))"
  by (induction xs) (simp_all add: fun_eq_iff)

lemma concat_map_concat: "concat (map f (concat (map g xs))) = concat (map (\<lambda>x. concat (map f (g x))) xs)"
  by (induction xs) simp_all

lemma CreateBloom_items:
  "CreateBloom keccak rs = fold (bloom_add keccak) (concat (map log_items (concat (map rc_Logs rs)))) zero_Bloom"
  by (simp add: CreateBloom_def bloom_log_items [abs_def] fold_concat concat_map_concat)

text \<open>C25. The bloom filter of receipts has no false negatives: the address and every topic of every log of
  every receipt test positive. So a log search that skips the blocks whose filter tests negative misses
  no log.\<close>

theorem CreateBloom_complete:
  assumes "r \<in> set rs" and "l \<in> set (rc_Logs r)" and "d = log_Address l \<or> d \<in> set (log_Topics l)"
  shows "bloom_Test keccak (CreateBloom keccak rs) d"
  unfolding CreateBloom_items
  by (rule bloom.test_fold) (use assms in \<open>auto simp: filter_wf_def zero_Bloom_def log_items_def\<close>)

definition witness_log :: Log where
  "witness_log = \<lparr>log_Address = replicate 20 1, log_Topics = [replicate 32 2], log_Data = [], log_BlockNumber = 0,
     log_TxHash = zero_hash, log_TxIndex = 0, log_BlockHash = zero_hash, log_Index = 0, log_Removed = False\<rparr>"

theorem CreateBloom_complete_witness:
  "bloom_Test (copy_array 32) (CreateBloom (copy_array 32) [zero_Receipt\<lparr>rc_Logs := [witness_log]\<rparr>]) (replicate 32 2)"
  by (rule CreateBloom_complete [of "zero_Receipt\<lparr>rc_Logs := [witness_log]\<rparr>" _ witness_log])
    (simp_all add: witness_log_def)

end
