(* ===== verification/Zond_Processor.thy ===== *)
theory Zond_Processor
  imports Zond_Block Zond_Transition Zond_Receipts
begin

text \<open>
  The transactions of a block (\<^verbatim>\<open>core/state_processor.go\<close>, \<^verbatim>\<open>core/evm.go\<close>): the checks of the four kinds of
  transactions, what applying each does to the world state, the block's context, the gas pool and
  its receipt, and the changes of the validator set at the end of an epoch. A method on the object
  a function holds is the state's operation at the object's address.
\<close>

section \<open>Errors\<close>

text \<open>A rejected transaction, with its kind and the message of \<^verbatim>\<open>errmsg/errmsg.go\<close>; an error of the state
  transition; any other error, by its text.\<close>

datatype proc_error = TxError string string | CoreError core_error | TextError goerr

section \<open>Contexts of the virtual machine\<close>

definition NewEVMBlockContext :: "Crypto \<Rightarrow> BlockHeader \<Rightarrow> (u64 \<Rightarrow> Hash) \<Rightarrow> Address \<Rightarrow> BlockContext" where
  "NewEVMBlockContext C header getHashFunc author =
     \<lparr>bc_GetHash = getHashFunc, bc_Coinbase = author, bc_GasLimit = hd_GasLimit header,
      bc_BlockNumber = hdr_Number header, bc_Time = uint (big_Uint64 (hdr_Timestamp header)), bc_Difficulty = 0,
      bc_BaseFee = Some (hdr_BaseFee header),
      bc_Random = Some (copy_array 32 (sha256 C (hdr_ParentHash header)))\<rparr>"

definition NewEVMTxContext :: "Message \<Rightarrow> TxContext" where
  "NewEVMTxContext msg = \<lparr>tc_Origin = m_From msg, tc_GasPrice = m_GasPrice msg\<rparr>"

text \<open>What the machine has besides the contexts: the store below the state, the integer library, the
  libraries of the precompiled contracts and the configuration.\<close>

record ('g1, 'g2) Machine =
  mach_env :: StateEnv
  mach_ChainID :: int
  mach_EnablePreimageRecording :: bool
  mach_NoBaseFee :: bool
  mach_lib :: U256Lib
  mach_contracts :: "('g1, 'g2) PrecompileLib"

definition NewEVM :: "('g1, 'g2) Machine \<Rightarrow> BlockContext \<Rightarrow> TxContext \<Rightarrow> EVM" where
  "NewEVM m blockCtx txCtx =
     (let rules = ChainConfig_Rules (bc_Random blockCtx \<noteq> None) in
      \<lparr>evm_env = mach_env m, evm_Context = blockCtx, evm_TxContext = txCtx, evm_ChainID = mach_ChainID m,
       evm_rules = rules, evm_EnablePreimageRecording = mach_EnablePreimageRecording m, evm_abort = False,
       evm_precompiles = evm_precompile (mach_contracts m) rules, evm_lib = mach_lib m\<rparr>)"

definition evm_Reset :: "TxContext \<Rightarrow> EVM \<Rightarrow> EVM" where
  "evm_Reset txCtx evm = evm\<lparr>evm_TxContext := txCtx\<rparr>"

section \<open>Checking transactions\<close>

definition valid_address :: "Crypto \<Rightarrow> Address \<Rightarrow> bool" where
  "valid_address C a \<longleftrightarrow> xmss_IsValidXMSSAddress C a \<or> dilithium_IsValidDilithiumAddress C a"

definition verify_transfer :: "Crypto \<Rightarrow> Transaction \<Rightarrow> Hash \<Rightarrow> (proc_error, unit) outcome" where
  "verify_transfer C tx signingHash =
     (if length (tx_Pk tx) = dilithium_PKSizePacked C
      then if \<not> dilithium_Verify C signingHash (tx_Signature tx) (UnSizedDilithiumPKToSizedPK C (tx_Pk tx))
           then Err (TxError ''transfer'' ''TXDilithiumSignatureVerificationFailed'') else Ok ()
      else if length (tx_Pk tx) = xmss_ExtendedPKSize C
      then if \<not> xmss_Verify C signingHash (tx_Signature tx) (UnSizedXMSSPKToSizedPK C (tx_Pk tx))
           then Err (TxError ''transfer'' ''TXXMSSSignatureVerificationFailed'') else Ok ()
      else Ok ())"

text \<open>The checks load or create the object of the sender, so they return the state.\<close>

definition ValidateTransferTxn :: "Crypto \<Rightarrow> DevConfig \<Rightarrow> StateEnv \<Rightarrow> Transaction \<Rightarrow> StateDB
    \<Rightarrow> (proc_error, StateDB) outcome" where
  "ValidateTransferTxn C cfg env tx s =
     and_then (GenerateTxHash C tx) (\<lambda>txHash.
     and_then (AddrFrom C tx) (\<lambda>addrFrom.
     case tx_Type tx of
       Some (Transfer_payload toBytes amount data) \<Rightarrow>
         let s1 = GetOrNewStateObject env addrFrom s; acc = account env s1 addrFrom;
             to = Transfer_To toBytes; coinBase = CoinBaseAddress (Genesis cfg)
         in if tx_Hash tx \<noteq> txHash then Err (TxError ''transfer'' ''TXInvalidTxHash'')
         else if tx_Nonce tx \<noteq> Nonce acc then Err (TxError ''transfer'' ''TXInvalidNonce'')
         else and_then
           (if length (tx_Pk tx) = xmss_ExtendedPKSize C
            then and_then (OTSIndex tx) (\<lambda>i. Ok (IsUsedOTSIndex i (OTSBitfield acc))) else Ok False) (\<lambda>used.
         if used then Err (TxError ''transfer'' ''TXInvalidXMSSOTSIndex'')
         else if big_Uint64 (Balance acc) < amount + tx_Gas tx * tx_GasPrice tx
         then Err (TxError ''transfer'' ''TXInsufficientBalance'')
         else if \<not> valid_address C addrFrom then Err (TxError ''transfer'' ''TXInvalidAddrFrom'')
         else if (case to of None \<Rightarrow> False | Some a \<Rightarrow> \<not> valid_address C a \<and> GetCodeSize env a s1 = 0)
         then Err (TxError ''transfer'' ''TXInvalidAddrTo'')
         else if addrFrom = coinBase then Err (TxError ''transfer'' ''TXAddrFromCannotBeCoinBaseAddr'')
         else if to = Some coinBase then Err (TxError ''transfer'' ''TXAddrToCannotBeCoinBaseAddr'')
         else if length data > 24 * 1024 then Err (TxError ''transfer'' ''TXDataLengthExceedsLimit'')
         else and_then (GetSigningHash C tx) (\<lambda>signingHash.
              and_then (verify_transfer C tx signingHash) (\<lambda>_. Ok s1)))
     | _ \<Rightarrow> Panic))"

definition StakeTxGas :: u64 where "StakeTxGas = 1000"

definition ValidateStakeTxn :: "Crypto \<Rightarrow> DevConfig \<Rightarrow> StateEnv \<Rightarrow> Transaction \<Rightarrow> StateDB
    \<Rightarrow> (proc_error, StateDB) outcome" where
  "ValidateStakeTxn C cfg env tx s =
     and_then (GenerateTxHash C tx) (\<lambda>txHash.
     and_then (AddrFrom C tx) (\<lambda>addrFrom.
     case tx_Type tx of
       Some (Stake_payload amount) \<Rightarrow>
         let s1 = GetOrNewStateObject env addrFrom s; acc = account env s1 addrFrom;
             requiredBalance = tx_Gas tx * tx_GasPrice tx + amount
         in if tx_Hash tx \<noteq> txHash then Err (TxError ''stake'' ''TXInvalidTxHash'')
         else if tx_Nonce tx \<noteq> Nonce acc then Err (TxError ''stake'' ''TXInvalidNonce'')
         else if amount \<noteq> 0 \<and> amount < StakeAmount cfg then Err (TxError ''stake'' ''TXInvalidStakeAmount'')
         else if length (tx_Pk tx) \<noteq> dilithium_PKSizePacked C
         then Err (TxError ''stake'' ''TXInvalidDilithiumPKSize'')
         else if Balance acc < big_NewInt_int64 requiredBalance
         then Err (TxError ''stake'' ''TXInsufficientBalance'')
         else if tx_Gas tx < StakeTxGas then Err (TxError ''stake'' ''TXInsufficientGas'')
         else if \<not> dilithium_IsValidDilithiumAddress C addrFrom
         then Err (TxError ''stake'' ''TXInvalidDilithiumAddrFrom'')
         else and_then (GetSigningHash C tx) (\<lambda>signingHash.
           if \<not> dilithium_Verify C signingHash (tx_Signature tx) (UnSizedDilithiumPKToSizedPK C (tx_Pk tx))
           then Err (TxError ''stake'' ''TXDilithiumSignatureVerificationFailed'')
           else Ok s1)
     | _ \<Rightarrow> Panic))"

text \<open>In the first block of an epoch the pending stake counts as well.\<close>

definition stake_missing :: "DevConfig \<Rightarrow> StateAccount \<Rightarrow> u64 \<Rightarrow> u64 \<Rightarrow> bool" where
  "stake_missing cfg acc slotNumber parentSlotNumber \<longleftrightarrow>
     big_Uint64 (StakeBalance acc) < StakeAmount cfg \<and>
     (parentSlotNumber div BlocksPerEpoch cfg = slotNumber div BlocksPerEpoch cfg \<or>
      big_Uint64 (PendingStakeBalance acc) < StakeAmount cfg)"

definition ValidateAttestTx :: "Crypto \<Rightarrow> DevConfig \<Rightarrow> StateEnv \<Rightarrow> ProtocolTransaction \<Rightarrow> SlotValidatorsMetaData
    \<Rightarrow> Hash \<Rightarrow> u64 \<Rightarrow> u64 \<Rightarrow> StateDB \<Rightarrow> (proc_error, StateDB) outcome" where
  "ValidateAttestTx C cfg env tx slotValidators partialBlockSigningHash slotNumber parentSlotNumber s =
     (let signedMessage = Attest_GetSigningHash C tx partialBlockSigningHash;
          txHash = ptx_TxHash C tx signedMessage;
          signerAddr = GetDilithiumAddressFromUnSizedPK C (ptx_Pk tx);
          s1 = GetOrNewStateObject env signerAddr s; acc = account env s1 signerAddr
      in if ptx_Hash tx \<noteq> txHash then Err (TxError ''attest'' ''TXInvalidTxHash'')
      else if ptx_Nonce tx \<noteq> Nonce acc then Err (TxError ''attest'' ''TXInvalidNonce'')
      else if length (ptx_Pk tx) \<noteq> dilithium_PKSizePacked C
      then Err (TxError ''attest'' ''TXInvalidDilithiumPKSize'')
      else if \<not> dilithium_Verify C signedMessage (ptx_Signature tx) (UnSizedDilithiumPKToSizedPK C (ptx_Pk tx))
      then Err (TxError ''attest'' ''TXDilithiumSignatureVerificationFailed'')
      else if \<not> IsAttestor (BytesToHexStr (ptx_Pk tx)) slotValidators
      then Err (TxError ''attest'' ''TXInvalidAttestor'')
      else if stake_missing cfg acc slotNumber parentSlotNumber
      then Err (TxError ''attest'' ''TXInsufficientStakeBalance'')
      else Ok s1)"

definition ValidateCoinBaseTx :: "Crypto \<Rightarrow> DevConfig \<Rightarrow> StateEnv \<Rightarrow> ProtocolTransaction \<Rightarrow> SlotValidatorsMetaData
    \<Rightarrow> Hash \<Rightarrow> u64 \<Rightarrow> u64 \<Rightarrow> bool \<Rightarrow> StateDB \<Rightarrow> (proc_error, StateDB) outcome" where
  "ValidateCoinBaseTx C cfg env tx slotValidators blockSigningHash slotNumber parentSlotNumber isGenesis s =
     (let signedMessage = CoinBase_GetSigningHash C tx blockSigningHash;
          txHash = ptx_TxHash C tx signedMessage;
          signerAddr = GetDilithiumAddressFromUnSizedPK C (ptx_Pk tx);
          s1 = GetOrNewStateObject env signerAddr s; acc = account env s1 signerAddr
      in if ptx_Hash tx \<noteq> txHash then Err (TxError ''coinbase'' ''TXInvalidTxHash'')
      else if ptx_Nonce tx \<noteq> Nonce acc then Err (TxError ''coinbase'' ''TXInvalidNonce'')
      else if length (ptx_Pk tx) \<noteq> dilithium_PKSizePacked C
      then Err (TxError ''coinbase'' ''TXInvalidDilithiumPKSize'')
      else if \<not> isGenesis \<and>
        \<not> dilithium_Verify C signedMessage (ptx_Signature tx) (UnSizedDilithiumPKToSizedPK C (ptx_Pk tx))
      then Err (TxError ''coinbase'' ''TXDilithiumSignatureVerificationFailed'')
      else if \<not> IsSlotLeader (BytesToHexStr (ptx_Pk tx)) slotValidators
      then Err (TxError ''coinbase'' ''TXInvalidSlotLeader'')
      else if BlockProposerReward tx \<noteq> GetBlockReward cfg
      then Err (TxError ''coinbase'' ''TXInvalidBlockReward'')
      else if AttestorReward tx \<noteq> GetAttestorReward cfg
      then Err (TxError ''coinbase'' ''TXInvalidAttestorReward'')
      else if \<not> isGenesis \<and> stake_missing cfg acc slotNumber parentSlotNumber
      then Err (TxError ''coinbase'' ''TXInsufficientStakeBalance'')
      else Ok s1)"

definition ValidateTransaction :: "Crypto \<Rightarrow> DevConfig \<Rightarrow> StateEnv \<Rightarrow> Transaction \<Rightarrow> StateDB
    \<Rightarrow> (proc_error, StateDB) outcome" where
  "ValidateTransaction C cfg env protoTx s =
     (case tx_Type protoTx of
        Some (Stake_payload a) \<Rightarrow> ValidateStakeTxn C cfg env protoTx s
      | Some (Transfer_payload to v d) \<Rightarrow> ValidateTransferTxn C cfg env protoTx s
      | None \<Rightarrow> Err (TextError ''unkown transaction type''))"

definition ValidateProtocolTransaction :: "Crypto \<Rightarrow> DevConfig \<Rightarrow> StateEnv \<Rightarrow> ProtocolTransaction
    \<Rightarrow> SlotValidatorsMetaData \<Rightarrow> Hash \<Rightarrow> u64 \<Rightarrow> u64 \<Rightarrow> bool \<Rightarrow> StateDB \<Rightarrow> (proc_error, StateDB) outcome" where
  "ValidateProtocolTransaction C cfg env protoTx slotValidators hash slotNumber parentSlotNumber isGenesis s =
     (case ptx_Type protoTx of
        Some (CoinBase_payload b a f) \<Rightarrow>
          ValidateCoinBaseTx C cfg env protoTx slotValidators hash slotNumber parentSlotNumber isGenesis s
      | Some Attest_payload \<Rightarrow>
          ValidateAttestTx C cfg env protoTx slotValidators hash slotNumber parentSlotNumber s
      | None \<Rightarrow> Err (TextError ''unkown transaction type''))"

section \<open>Applying transactions\<close>

fun type_code :: "TxType \<Rightarrow> u8" where
  "type_code TypeCoinBase = 0"
| "type_code TypeAttest = 1"
| "type_code TypeTransfer = 2"
| "type_code TypeStake = 3"

definition TransferTxAsMessage :: "Crypto \<Rightarrow> Transaction \<Rightarrow> int option \<Rightarrow> (proc_error, Message) outcome" where
  "TransferTxAsMessage C tx baseFee =
     and_then (AddrFrom C tx) (\<lambda>from.
     case tx_Type tx of
       Some (Transfer_payload to amount data) \<Rightarrow>
         let gasFeeCap = big_NewInt_int64 (tx_GasPrice tx); gasTipCap = big_NewInt_int64 (tx_GasPrice tx)
         in Ok \<lparr>m_From = from, m_To = Transfer_To to, m_Nonce = tx_Nonce tx, m_Value = big_NewInt_int64 amount,
               m_Gas = tx_Gas tx,
               m_GasPrice = (case baseFee of None \<Rightarrow> big_NewInt_int64 (tx_GasPrice tx)
                 | Some bf \<Rightarrow> min (gasTipCap + bf) gasFeeCap),
               m_GasFeeCap = gasFeeCap, m_GasTipCap = gasTipCap, m_Data = data, m_AccessList = None,
               m_IsFake = False\<rparr>
     | _ \<Rightarrow> Panic)"

text \<open>The end of every receipt: bloom, block and position.\<close>

definition receipt_in :: "(bytes \<Rightarrow> bytes) \<Rightarrow> Hash \<Rightarrow> int \<Rightarrow> StateDB \<Rightarrow> Receipt \<Rightarrow> Receipt" where
  "receipt_in keccak blockHash blockNumber s r =
     r\<lparr>rc_Bloom := CreateBloom keccak [r], rc_BlockHash := blockHash, rc_BlockNumber := Some blockNumber,
       rc_TransactionIndex := of_int (sdb_txIndex s)\<rparr>"

text \<open>The gas pool, the state, the gas used so far and the receipt after a transaction.\<close>

type_synonym applied = "u64 \<times> StateDB \<times> u64 \<times> Receipt"

definition applyTransaction :: "bool \<Rightarrow> EVM \<Rightarrow> Message \<Rightarrow> u64 \<Rightarrow> StateDB \<Rightarrow> int \<Rightarrow> Hash \<Rightarrow> Transaction \<Rightarrow> u64
    \<Rightarrow> (proc_error, applied) outcome" where
  "applyTransaction noBaseFee evm0 msg gp s blockNumber blockHash tx usedGas =
     (let evm = evm_Reset (NewEVMTxContext msg) evm0; env = evm_env evm in
      and_then (with_error CoreError (ApplyMessage noBaseFee evm msg gp s)) (\<lambda>(t, res).
      and_then (GetTransactionType tx) (\<lambda>ty.
        let s1 = sdb_Finalise env True (t_db t);
            usedGas1 = usedGas + er_UsedGas res;
            receipt = zero_Receipt\<lparr>rc_Type := type_code ty, rc_CumulativeGasUsed := usedGas1,
              rc_Status := (if er_Failed res then ReceiptStatusFailed else ReceiptStatusSuccessful),
              rc_TxHash := tx_Hash tx, rc_GasUsed := er_UsedGas res,
              rc_ContractAddress := (if m_To msg = None
                then CreateAddress (env_keccak env) (tc_Origin (evm_TxContext evm)) (tx_Nonce tx) else zero_address),
              rc_Logs := sdb_GetLogs (tx_Hash tx) blockHash s1\<rparr>
        in Ok (t_gp t, s1, usedGas1, receipt_in (env_keccak env) blockHash blockNumber s1 receipt))))"

text \<open>The changes a stake transaction makes to the accounts.\<close>

definition stake_changes :: "StateEnv \<Rightarrow> Address \<Rightarrow> Address \<Rightarrow> Transaction \<Rightarrow> u64 \<Rightarrow> StateDB \<Rightarrow> StateDB" where
  "stake_changes env address minter tx amount s =
     (let s1 = GetOrNewStateObject env address s;
          s2 = sdb_SetNonce env address (GetNonce env address s1 + 1) s1;
          fee = tx_Gas tx * tx_GasPrice tx;
          s3 = sdb_SubBalance env address (big_NewInt_int64 fee) s2;
          bigAmount = big_NewInt_int64 amount;
          s4 = sdb_AddBalance env address (GetPendingStakeBalance env address s3) s3;
          s5 = sdb_SubBalance env address bigAmount s4;
          s6 = sdb_SetPendingStakeBalance env address bigAmount s5;
          s7 = sdb_AddBalance env address (big_NewInt_int64 ((tx_Gas tx - StakeTxGas) * tx_GasPrice tx)) s6
      in sdb_AddBalance env minter (big_NewInt_int64 (StakeTxGas * tx_GasPrice tx)) s7)"

definition applyStakeTransaction :: "Crypto \<Rightarrow> StateEnv \<Rightarrow> u64 \<Rightarrow> StateDB \<Rightarrow> int \<Rightarrow> Hash \<Rightarrow> Transaction \<Rightarrow> u64
    \<Rightarrow> Address \<Rightarrow> (proc_error, applied) outcome" where
  "applyStakeTransaction C env gp s blockNumber blockHash tx usedGas minter =
     (case tx_Type tx of
        Some (Stake_payload amount) \<Rightarrow>
          let s0 = sdb_Finalise env True s;
              usedGas1 = usedGas + StakeTxGas;
              address = GetDilithiumAddressFromUnSizedPK C (tx_Pk tx);
              s1 = stake_changes env address minter tx amount s0
          in and_then (with_error CoreError (gp_SubGas StakeTxGas gp)) (\<lambda>gp1.
             and_then (GetTransactionType tx) (\<lambda>ty.
               let receipt = zero_Receipt\<lparr>rc_Type := type_code ty, rc_CumulativeGasUsed := usedGas1,
                     rc_Status := ReceiptStatusSuccessful, rc_TxHash := tx_Hash tx, rc_GasUsed := usedGas1\<rparr>
               in Ok (gp1, s1, usedGas1, receipt_in (env_keccak env) blockHash blockNumber s1 receipt)))
      | _ \<Rightarrow> Panic)"

text \<open>A reward: the validator gains it and its nonce moves on, the coinbase account loses it.\<close>

definition pay_reward :: "DevConfig \<Rightarrow> StateEnv \<Rightarrow> Address \<Rightarrow> int \<Rightarrow> int \<Rightarrow> StateDB \<Rightarrow> StateDB" where
  "pay_reward cfg env address reward feeReward s =
     (let s1 = sdb_AddBalance env address reward s;
          s2 = sdb_AddBalance env address feeReward s1;
          s3 = sdb_SetNonce env address (GetNonce env address s2 + 1) s2;
          coinBaseAddress = CoinBaseAddress (Genesis cfg)
      in sdb_SubBalance env coinBaseAddress reward (GetOrNewStateObject env coinBaseAddress s3))"

definition applyCoinBaseTransaction :: "Crypto \<Rightarrow> DevConfig \<Rightarrow> StateEnv \<Rightarrow> StateDB \<Rightarrow> 'v StateContext \<Rightarrow> int \<Rightarrow> Hash
    \<Rightarrow> ProtocolTransaction \<Rightarrow> (proc_error, StateDB \<times> 'v StateContext \<times> Receipt) outcome" where
  "applyCoinBaseTransaction C cfg env s ctx blockNumber blockHash tx =
     (let address = GetDilithiumAddressFromUnSizedPK C (ptx_Pk tx);
          s1 = GetOrNewStateObject env address (sdb_Finalise env True s)
      in and_then (with_error TextError
           (ProcessBlockProposerFlag cfg (ptx_Pk tx) (GetStakeBalance env address s1) ctx)) (\<lambda>ctx1.
         and_then (FeeReward tx) (\<lambda>feeReward.
         and_then (GetProtocolTransactionType tx) (\<lambda>ty.
           let s2 = pay_reward cfg env address (big_NewInt_int64 (BlockProposerReward tx))
                 (big_NewInt_int64 feeReward) s1;
               txHash = ptx_TxHash C tx (CoinBase_GetSigningHash C tx (sc_blockSigningHash ctx1));
               receipt = zero_Receipt\<lparr>rc_Type := type_code ty, rc_Status := ReceiptStatusSuccessful,
                 rc_TxHash := txHash\<rparr>
           in Ok (s2, ctx1, receipt_in (env_keccak env) blockHash blockNumber s2 receipt)))))"

definition applyAttestTransaction :: "Crypto \<Rightarrow> DevConfig \<Rightarrow> StateEnv \<Rightarrow> StateDB \<Rightarrow> 'v StateContext \<Rightarrow> int \<Rightarrow> Hash
    \<Rightarrow> ProtocolTransaction \<Rightarrow> u64 \<Rightarrow> (proc_error, StateDB \<times> 'v StateContext \<times> Receipt) outcome" where
  "applyAttestTransaction C cfg env s ctx blockNumber blockHash tx attestorReward =
     (let txHash = ptx_TxHash C tx (Attest_GetSigningHash C tx (sc_partialBlockSigningHash ctx));
          address = GetDilithiumAddressFromUnSizedPK C (ptx_Pk tx);
          s1 = GetOrNewStateObject env address (sdb_Finalise env True s)
      in and_then (with_error TextError
           (ProcessAttestorsFlag cfg (ptx_Pk tx) (GetStakeBalance env address s1) ctx)) (\<lambda>ctx1.
         and_then (GetProtocolTransactionType tx) (\<lambda>ty.
           let reward = big_NewInt_int64 attestorReward;
               s2 = sdb_AddBalance env address reward s1;
               s3 = sdb_SetNonce env address (GetNonce env address s2 + 1) s2;
               coinBaseAddress = CoinBaseAddress (Genesis cfg);
               s4 = sdb_SubBalance env coinBaseAddress reward (GetOrNewStateObject env coinBaseAddress s3);
               receipt = zero_Receipt\<lparr>rc_Type := type_code ty, rc_Status := ReceiptStatusSuccessful,
                 rc_TxHash := txHash\<rparr>
           in Ok (s4, ctx1, receipt_in (env_keccak env) blockHash blockNumber s4 receipt))))"

section \<open>The end of an epoch\<close>

definition epoch_stake_found :: "Crypto \<Rightarrow> DevConfig \<Rightarrow> StateEnv \<Rightarrow> StateDB \<Rightarrow> u64 \<Rightarrow> ProtocolTransaction
    \<Rightarrow> EpochMetaData \<Rightarrow> (proc_error, EpochMetaData) outcome" where
  "epoch_stake_found C cfg env s slotNumber ptx e =
     (let address = GetDilithiumAddressFromUnSizedPK C (ptx_Pk ptx) in
      if big_Uint64 (GetStakeBalance env address s) < StakeAmount cfg \<and> slotNumber \<noteq> 0
      then Err (TextError ''balance not loaded for the validator'')
      else Ok (AddTotalStakeAmountFound (StakeAmount cfg) e))"

definition ProcessEpochMetaData :: "Crypto \<Rightarrow> DevConfig \<Rightarrow> StateEnv \<Rightarrow> Block \<Rightarrow> StateDB \<Rightarrow> EpochMetaData
    \<Rightarrow> (proc_error, EpochMetaData) outcome" where
  "ProcessEpochMetaData C cfg env b s e =
     fold_outcome (epoch_stake_found C cfg env s (blk_SlotNumber b)) (blk_ProtocolTransactions b) e"



definition GetRandomSeed :: "Crypto \<Rightarrow> Hash \<Rightarrow> (proc_error, int) outcome" where
  "GetRandomSeed C hash = and_then (BigEndian_Uint64 (md5 C hash)) (\<lambda>x. Ok (sint x))"

section \<open>The accounts after each step\<close>

lemmas account_changes = account_AddBalance account_SubBalance account_SetNonce account_SetStakeBalance
  account_SetPendingStakeBalance

text \<open>Everything an account owns: what it can spend, what is staked, and what will be.\<close>

definition worth :: "StateAccount \<Rightarrow> int" where
  "worth d = Balance d + StakeBalance d + PendingStakeBalance d"

definition settle_stake :: "StateAccount \<Rightarrow> StateAccount" where
  "settle_stake d =
     (if big_Uint64 (PendingStakeBalance d) = 0 then d\<lparr>Balance := Balance d + StakeBalance d, StakeBalance := 0\<rparr>
      else d\<lparr>Balance := Balance d + StakeBalance d, StakeBalance := PendingStakeBalance d, PendingStakeBalance := 0\<rparr>)"

lemma worth_settle_stake [simp]: "worth (settle_stake d) = worth d" "Nonce (settle_stake d) = Nonce d"
  by (simp_all add: worth_def settle_stake_def)





section \<open>Stake transactions\<close>

lemma stake_changes_account:
  "account env (stake_changes env a m tx amount s) =
     (let d = account env s a;
          d1 = d\<lparr>Nonce := Nonce d + 1,
            Balance := Balance d - big_NewInt_int64 (tx_Gas tx * tx_GasPrice tx) + PendingStakeBalance d
              - big_NewInt_int64 amount + big_NewInt_int64 ((tx_Gas tx - StakeTxGas) * tx_GasPrice tx),
            PendingStakeBalance := big_NewInt_int64 amount\<rparr>;
          f = (account env s)(a := d1)
      in f(m := (f m)\<lparr>Balance := Balance (f m) + big_NewInt_int64 (StakeTxGas * tx_GasPrice tx)\<rparr>))"
  by (simp add: stake_changes_def Let_def account_changes getters_account fun_eq_iff)

lemma applyStake_cases:
  assumes "applyStakeTransaction C env gp s bn bh tx usedGas minter = Ok (gp1, s1, usedGas1, r)"
  obtains amount where "tx_Type tx = Some (Stake_payload amount)" and "gp_SubGas StakeTxGas gp = Ok gp1"
    and "s1 = stake_changes env (GetDilithiumAddressFromUnSizedPK C (tx_Pk tx)) minter tx amount (sdb_Finalise env True s)"
    and "usedGas1 = usedGas + StakeTxGas"
proof -
  obtain amount where t: "tx_Type tx = Some (Stake_payload amount)"
    using assms by (auto simp: applyStakeTransaction_def split: option.split_asm tx_payload.split_asm)
  moreover have "gp_SubGas StakeTxGas gp = Ok gp1"
    using assms t by (cases "gp_SubGas StakeTxGas gp") (auto simp: applyStakeTransaction_def Let_def outcome_simps)
  ultimately show ?thesis using that assms by (auto simp: applyStakeTransaction_def Let_def outcome_simps)
qed

text \<open>The products of a stake transaction that does not overflow.\<close>

lemma stake_fee:
  assumes "unat (tx_Gas tx) * unat (tx_GasPrice tx) < 2 ^ 63" and "StakeTxGas \<le> tx_Gas tx"
  shows "big_NewInt_int64 (tx_Gas tx * tx_GasPrice tx) = int (unat (tx_Gas tx) * unat (tx_GasPrice tx))"
    and "big_NewInt_int64 ((tx_Gas tx - StakeTxGas) * tx_GasPrice tx) =
      int (unat (tx_Gas tx) * unat (tx_GasPrice tx)) - 1000 * int (unat (tx_GasPrice tx))"
    and "big_NewInt_int64 (StakeTxGas * tx_GasPrice tx) = 1000 * int (unat (tx_GasPrice tx))"
proof -
  let ?g = "unat (tx_Gas tx)" and ?p = "unat (tx_GasPrice tx)"
  have g: "1000 \<le> ?g" using assms(2) by (simp add: StakeTxGas_def word_le_nat_alt)
  have big: "big_NewInt_int64 (x * tx_GasPrice tx) = int (unat x * ?p)" if "unat x \<le> ?g" for x
  proof -
    have "unat x * ?p \<le> ?g * ?p" using that by (rule mult_le_mono1)
    then have "unat x * ?p < 2 ^ 63" using assms(1) by (rule le_less_trans)
    then show ?thesis using big_NewInt_small [of "x * tx_GasPrice tx"] by (simp add: unat_word_ariths)
  qed
  show "big_NewInt_int64 (tx_Gas tx * tx_GasPrice tx) = int (?g * ?p)" by (rule big) simp
  have "unat (tx_Gas tx - StakeTxGas) = ?g - 1000" using assms(2) by (simp add: unat_sub StakeTxGas_def)
  then show "big_NewInt_int64 ((tx_Gas tx - StakeTxGas) * tx_GasPrice tx) = int (?g * ?p) - 1000 * int ?p"
    using big [of "tx_Gas tx - StakeTxGas"] g by (simp add: of_nat_diff algebra_simps)
  show "big_NewInt_int64 (StakeTxGas * tx_GasPrice tx) = 1000 * int ?p"
    using big [of StakeTxGas] g by (simp add: StakeTxGas_def)
qed

text \<open>C10. A stake transaction whose gas cost and amount stay below \<open>2 ^ 63\<close> moves value and makes none: the
  sender pays exactly 1000 gas to the block's author, the amount becomes its pending stake, its nonce
  moves on, what every other account owns is unchanged, and no balance becomes negative if the sender's
  covers the cost.\<close>

theorem stake_tx_conserves:
  assumes "applyStakeTransaction C env gp s bn bh tx usedGas minter = Ok (gp1, s1, usedGas1, r)"
    and "tx_Type tx = Some (Stake_payload amount)" and "StakeTxGas \<le> tx_Gas tx"
    and "unat (tx_Gas tx) * unat (tx_GasPrice tx) + unat amount < 2 ^ 63"
    and "s0 = sdb_Finalise env True s" and "a = GetDilithiumAddressFromUnSizedPK C (tx_Pk tx)"
    and "0 \<le> GetPendingStakeBalance env a s0"
    and "int (unat (tx_Gas tx) * unat (tx_GasPrice tx) + unat amount) \<le> GetBalance env a s0"
  shows "(\<forall>x. worth (account env s1 x) + (if x = a then 1000 * int (unat (tx_GasPrice tx)) else 0) =
        worth (account env s0 x) + (if x = minter then 1000 * int (unat (tx_GasPrice tx)) else 0)) \<and>
    (\<forall>x. 0 \<le> GetBalance env x s0 \<longrightarrow> 0 \<le> GetBalance env x s1) \<and>
    GetPendingStakeBalance env a s1 = int (unat amount) \<and>
    GetNonce env a s1 = GetNonce env a s0 + 1 \<and>
    unat gp1 + unat StakeTxGas = unat gp"
proof -
  have s1: "s1 = stake_changes env a minter tx amount s0" "gp_SubGas StakeTxGas gp = Ok gp1"
    using applyStake_cases [OF assms(1)] assms(2,5,6) by (metis option.inject tx_payload.inject(1))+
  have "unat (tx_Gas tx) * unat (tx_GasPrice tx) < 2 ^ 63" using assms(4) by linarith
  note f = stake_fee [OF this assms(3)]
  have am: "big_NewInt_int64 amount = int (unat amount)" using assms(4) by (intro big_NewInt_small) linarith
  note acc = stake_changes_account [of env a minter tx amount s0, folded s1(1), unfolded f am Let_def]
  have "unat gp1 + unat StakeTxGas = unat gp"
    using s1(2) by (auto simp: SubGas_eq unat_sub word_le_nat_alt)
  moreover have "\<forall>x. worth (account env s1 x) + (if x = a then 1000 * int (unat (tx_GasPrice tx)) else 0) =
        worth (account env s0 x) + (if x = minter then 1000 * int (unat (tx_GasPrice tx)) else 0)"
    by (simp add: acc worth_def)
  moreover have "1000 \<le> uint (tx_Gas tx)" using assms(3) by (simp add: StakeTxGas_def word_le_def)
  then have "1000 * uint (tx_GasPrice tx) \<le> uint (tx_Gas tx) * uint (tx_GasPrice tx)"
    by (rule mult_right_mono) simp
  then obtain k where "uint (tx_Gas tx) * uint (tx_GasPrice tx) = k" "0 \<le> k" "1000 * uint (tx_GasPrice tx) \<le> k"
    by simp
  then have "\<forall>x. 0 \<le> GetBalance env x s0 \<longrightarrow> 0 \<le> GetBalance env x s1"
    using assms(7,8) by (auto simp: getters_account acc)
  moreover have "GetPendingStakeBalance env a s1 = int (unat amount)" "GetNonce env a s1 = GetNonce env a s0 + 1"
    by (simp_all add: getters_account acc)
  ultimately show ?thesis by blast
qed

text \<open>What a check of a stake transaction asks for, and what it leaves of the state.\<close>

lemma ValidateStake_iff:
  assumes "tx_Type tx = Some (Stake_payload amount)" and "GenerateTxHash C tx = (Ok h :: (proc_error, Hash) outcome)"
    and "AddrFrom C tx = (Ok a :: (proc_error, Address) outcome)"
    and "GetSigningHash C tx = (Ok m :: (proc_error, Hash) outcome)"
  shows "ValidateStakeTxn C cfg env tx s = Ok s1 \<longleftrightarrow> s1 = GetOrNewStateObject env a s \<and>
    tx_Hash tx = h \<and> tx_Nonce tx = GetNonce env a s \<and> (amount = 0 \<or> StakeAmount cfg \<le> amount) \<and>
    length (tx_Pk tx) = dilithium_PKSizePacked C \<and>
    big_NewInt_int64 (tx_Gas tx * tx_GasPrice tx + amount) \<le> GetBalance env a s \<and> StakeTxGas \<le> tx_Gas tx \<and>
    dilithium_IsValidDilithiumAddress C a \<and>
    dilithium_Verify C m (tx_Signature tx) (UnSizedDilithiumPKToSizedPK C (tx_Pk tx))"
  using assms by (auto simp: ValidateStakeTxn_def Let_def getters_account not_less)

text \<open>C14. The checks of a stake transaction compute the cost in 64 bits. With a gas limit and a gas price of
  \<open>2 ^ 32\<close> the product wraps to zero: a correctly signed request to unstake is accepted whatever the
  balance (zero included), and applying it takes \<open>1000 * 2 ^ 32\<close> from the sender, below zero if need be, and gives it to
  the author of the block.\<close>

theorem stake_fee_wraps:
  assumes "tx_Type tx = Some (Stake_payload 0)" and "tx_Gas tx = 2 ^ 32" and "tx_GasPrice tx = 2 ^ 32"
    and "GenerateTxHash C tx = (Ok (tx_Hash tx) :: (proc_error, Hash) outcome)"
    and "GetSigningHash C tx = (Ok m :: (proc_error, Hash) outcome)"
    and "length (tx_Pk tx) = dilithium_PKSizePacked C"
    and "AddrFrom C tx = (Ok a :: (proc_error, Address) outcome)" and "a = GetDilithiumAddressFromUnSizedPK C (tx_Pk tx)"
    and "dilithium_IsValidDilithiumAddress C a"
    and "dilithium_Verify C m (tx_Signature tx) (UnSizedDilithiumPKToSizedPK C (tx_Pk tx))"
    and "tx_Nonce tx = GetNonce env a s" and "0 \<le> GetBalance env a s" and "minter \<noteq> a" and "StakeTxGas \<le> gp"
  shows "ValidateStakeTxn C cfg env tx s = Ok (GetOrNewStateObject env a s) \<and>
    (\<exists>gp1 s1 used r. applyStakeTransaction C env gp s bn bh tx usedGas minter = Ok (gp1, s1, used, r) \<and>
      GetBalance env a s1 = GetBalance env a (sdb_Finalise env True s)
        + GetPendingStakeBalance env a (sdb_Finalise env True s) - 1000 * 2 ^ 32 \<and>
      GetBalance env minter s1 = GetBalance env minter (sdb_Finalise env True s) + 1000 * 2 ^ 32)"
proof -
  have fee: "tx_Gas tx * tx_GasPrice tx = 0" unfolding assms(2,3) by simp
  have refund: "big_NewInt_int64 ((tx_Gas tx - StakeTxGas) * tx_GasPrice tx) = - (1000 * 2 ^ 32)"
    and reward: "big_NewInt_int64 (StakeTxGas * tx_GasPrice tx) = 1000 * 2 ^ 32"
    unfolding assms(2,3) by (simp_all add: StakeTxGas_def big_NewInt_int64_def)
  have zero: "big_NewInt_int64 0 = 0" by (simp add: big_NewInt_int64_def)
  have "StakeTxGas \<le> tx_Gas tx" by (simp add: StakeTxGas_def assms(2))
  then have v: "ValidateStakeTxn C cfg env tx s = Ok (GetOrNewStateObject env a s)"
    using assms(6,9-12) fee zero by (subst ValidateStake_iff [OF assms(1,4,7,5)]) simp
  let ?s1 = "stake_changes env a minter tx 0 (sdb_Finalise env True s)"
  note acc = stake_changes_account [of env a minter tx 0 "sdb_Finalise env True s", unfolded fee zero refund reward Let_def]
  have "\<exists>gp1 used r. applyStakeTransaction C env gp s bn bh tx usedGas minter = Ok (gp1, ?s1, used, r)"
    using assms(1,8,14) by (simp add: applyStakeTransaction_def Let_def gp_SubGas_def GetTransactionType_def)
  moreover have "GetBalance env a ?s1 = GetBalance env a (sdb_Finalise env True s)
        + GetPendingStakeBalance env a (sdb_Finalise env True s) - 1000 * 2 ^ 32"
      "GetBalance env minter ?s1 = GetBalance env minter (sdb_Finalise env True s) + 1000 * 2 ^ 32"
    using assms(13) by (simp_all add: getters_account acc)
  ultimately show ?thesis using v by blast
qed

lemma Finalise_keeps:
  assumes "\<not> HasSuicided env a s"
  shows "GetNonce env a (sdb_Finalise env d s) = GetNonce env a s"
    and "GetBalance env a (sdb_Finalise env d s) = GetBalance env a s"
proof -
  have objs: "sdb_stateObjects (sdb_Finalise env d s) a =
      (if sdb_dirties s a \<noteq> None then map_option (finalise_object env d) (sdb_stateObjects s a) else sdb_stateObjects s a)"
    "sdb_trie (sdb_Finalise env d s) = sdb_trie s"
    by (simp_all add: sdb_Finalise_def clearJournalAndRefund_def Let_def)
  have keep: "so_data (so_finalise o1) = so_data o1" "so_deleted (so_finalise o1) = so_deleted o1" for o1
    by (simp_all add: so_finalise_def)
  have "Nonce (account env (sdb_Finalise env d s) a) = Nonce (account env s a) \<and>
      Balance (account env (sdb_Finalise env d s) a) = Balance (account env s a)"
    using assms unfolding account_def live_object_lookup lookup_object_def objs HasSuicided_def
    by (cases "sdb_stateObjects s a")
      (auto simp: finalise_object_def keep so_empty_def split: option.split)
  then show "GetNonce env a (sdb_Finalise env d s) = GetNonce env a s"
    "GetBalance env a (sdb_Finalise env d s) = GetBalance env a s"
    by (simp_all add: getters_account)
qed

text \<open>C12. A stake transaction cannot be replayed: once it was accepted and applied, the same transaction is
  refused for its nonce.\<close>

theorem stake_tx_not_replayed:
  assumes "ValidateStakeTxn C cfg env tx s = Ok s1"
    and "applyStakeTransaction C env gp s1 bn bh tx usedGas minter = Ok (gp1, s2, used, r)"
    and "\<not> HasSuicided env (GetDilithiumAddressFromUnSizedPK C (tx_Pk tx)) s1"
    and "xmss_ExtendedPKSize C \<noteq> dilithium_PKSizePacked C"
  shows "ValidateStakeTxn C cfg env tx s2 = Err (TxError ''stake'' ''TXInvalidNonce'')"
proof -
  let ?a = "GetDilithiumAddressFromUnSizedPK C (tx_Pk tx)"
  obtain amount where t: "tx_Type tx = Some (Stake_payload amount)"
      "s2 = stake_changes env ?a minter tx amount (sdb_Finalise env True s1)"
    using applyStake_cases [OF assms(2)] by metis
  obtain h a where ha: "GenerateTxHash C tx = (Ok h :: (proc_error, Hash) outcome)"
      "AddrFrom C tx = (Ok a :: (proc_error, Address) outcome)"
    using assms(1) by (auto simp: ValidateStakeTxn_def outcome_simps)
  have c: "tx_Hash tx = h" "tx_Nonce tx = GetNonce env a s" "length (tx_Pk tx) = dilithium_PKSizePacked C"
      "s1 = GetOrNewStateObject env a s"
    using assms(1) t(1) ha by (auto simp: ValidateStakeTxn_def Let_def getters_account outcome_simps split: if_splits)
  have a: "a = ?a"
    using ha(2) c(3) assms(4) by (auto simp: AddrFrom_def GetAddressFromUnSizedPK_def Let_def split: if_splits)
  have n: "Nonce (account env (sdb_Finalise env True s1) a) = Nonce (account env s a)"
    using Finalise_keeps(1) [OF assms(3), of True] c(4) unfolding a [symmetric] by (simp add: getters_account)
  have "GetNonce env a s2 = GetNonce env a s + 1"
    unfolding t(2) a [symmetric] using n by (auto simp: getters_account stake_changes_account Let_def)
  then show ?thesis using t(1) ha c by (simp add: ValidateStakeTxn_def Let_def getters_account)
qed

section \<open>Rewards\<close>

lemma pay_reward_account:
  "account env (pay_reward cfg env a reward fee s) =
     (let f = (account env s)(a := (account env s a)\<lparr>Balance := Balance (account env s a) + reward + fee,
            Nonce := Nonce (account env s a) + 1\<rparr>);
          c = CoinBaseAddress (Genesis cfg)
      in f(c := (f c)\<lparr>Balance := Balance (f c) - reward\<rparr>))"
  by (simp add: pay_reward_def Let_def account_changes getters_account fun_eq_iff)

lemma applyCoinBase_cases:
  assumes "applyCoinBaseTransaction C cfg env s ctx bn bh tx = Ok (s1, ctx1, r)"
  obtains fee where "FeeReward tx = (Ok fee :: (proc_error, u64) outcome)"
    and "s1 = pay_reward cfg env (GetDilithiumAddressFromUnSizedPK C (ptx_Pk tx))
      (big_NewInt_int64 (BlockProposerReward tx)) (big_NewInt_int64 fee)
      (GetOrNewStateObject env (GetDilithiumAddressFromUnSizedPK C (ptx_Pk tx)) (sdb_Finalise env True s))"
  using assms by (auto simp: applyCoinBaseTransaction_def Let_def outcome_simps)

lemma fee_reward_hash: "ptx_HashField (set_fee_reward f tx) = ptx_HashField tx"
  by (simp add: set_fee_reward_def split: option.split ptx_payload.split)

text \<open>C13. The block reward is moved from the coinbase account to the proposer, but the fee reward is made:
  whatever amount the proposer writes into it, the check of the coinbase transaction answers the same, and
  over any accounts with the proposer's and the coinbase's among them the total grows by that amount.\<close>

theorem fee_reward_is_minted:
  assumes "applyCoinBaseTransaction C cfg env s ctx bn bh tx = Ok (s1, ctx1, r)"
    and "FeeReward tx = (Ok fee :: (proc_error, u64) outcome)"
    and "finite A" and "GetDilithiumAddressFromUnSizedPK C (ptx_Pk tx) \<in> A" and "CoinBaseAddress (Genesis cfg) \<in> A"
  shows "(\<Sum>x\<in>A. GetBalance env x s1) = (\<Sum>x\<in>A. GetBalance env x (sdb_Finalise env True s)) + big_NewInt_int64 fee \<and>
    (\<forall>f. ValidateCoinBaseTx C cfg env (set_fee_reward f tx) sv h n pn g s0 = ValidateCoinBaseTx C cfg env tx sv h n pn g s0)"
proof -
  let ?a = "GetDilithiumAddressFromUnSizedPK C (ptx_Pk tx)" and ?c = "CoinBaseAddress (Genesis cfg)"
    and ?s0 = "sdb_Finalise env True s" and ?k = "big_NewInt_int64 (BlockProposerReward tx)"
  obtain fee1 where "FeeReward tx = (Ok fee1 :: (proc_error, u64) outcome)"
    and "s1 = pay_reward cfg env ?a ?k (big_NewInt_int64 fee1) (GetOrNewStateObject env ?a ?s0)"
    using assms(1) by (rule applyCoinBase_cases)
  then have s1: "s1 = pay_reward cfg env ?a ?k (big_NewInt_int64 fee) (GetOrNewStateObject env ?a ?s0)"
    using assms(2) by simp
  have bal: "GetBalance env x s1 = GetBalance env x ?s0 + (if x = ?a then ?k + big_NewInt_int64 fee else 0)
      + (if x = ?c then - ?k else 0)" for x
    by (simp add: s1 getters_account pay_reward_account Let_def)
  have "(\<Sum>x\<in>A. GetBalance env x s1) = (\<Sum>x\<in>A. GetBalance env x ?s0) + (?k + big_NewInt_int64 fee) + - ?k"
    unfolding bal sum.distrib sum.delta [OF assms(3)] using assms(4,5) by simp
  moreover have "CoinBase_GetSigningHash C (set_fee_reward f tx) b = CoinBase_GetSigningHash C tx b" for f b
    by (simp add: CoinBase_GetSigningHash_def CoinBase_unsigned_bytes_def)
  then have "ValidateCoinBaseTx C cfg env (set_fee_reward f tx) sv h n pn g s0 = ValidateCoinBaseTx C cfg env tx sv h n pn g s0" for f
    by (simp add: ValidateCoinBaseTx_def ptx_TxHash_def ptx_Hash_def fee_reward_hash Let_def)
  ultimately show ?thesis by simp
qed

section \<open>Witnesses\<close>

definition witness_staker :: bytes where "witness_staker = [16, 2, 3, 4]"

definition witness_address :: Address where "witness_address = copy_array 20 witness_staker"

definition witness_signature :: bytes where "witness_signature = [0, 0, 0, 0] @ witness_staker"

definition witness_stake :: "u64 \<Rightarrow> u64 \<Rightarrow> u64 \<Rightarrow> Transaction" where
  "witness_stake amount gas price =
     (let tx = NewStake 0 amount gas price 0 witness_staker
      in SignDilithium witness_crypto (\<lambda>_. witness_signature) tx (Stake_GetSigningHash witness_crypto tx amount))"

definition witness_funds :: "int \<Rightarrow> int \<Rightarrow> StateDB" where
  "witness_funds balance pending =
     sdb_SetPendingStakeBalance witness_env witness_address pending
       (sdb_AddBalance witness_env witness_address balance (StateDB_New (\<lambda>_. TrieEmpty)))"

lemma witness_address_facts:
  "GetAddressFromUnSizedPK witness_crypto witness_staker = witness_address"
  "GetDilithiumAddressFromUnSizedPK witness_crypto witness_staker = witness_address"
  "dilithium_IsValidDilithiumAddress witness_crypto witness_address" "witness_address \<noteq> zero_address"
  by code_simp+

lemma witness_stake_fields:
  "tx_Pk (witness_stake amount gas price) = witness_staker" "tx_Gas (witness_stake amount gas price) = gas"
  "tx_GasPrice (witness_stake amount gas price) = price" "tx_Nonce (witness_stake amount gas price) = 0"
  "tx_Type (witness_stake amount gas price) = Some (Stake_payload amount)"
  "tx_Signature (witness_stake amount gas price) = witness_signature"
  by (simp_all add: witness_stake_def NewStake_def SignDilithium_def Let_def)

lemma witness_funds_account:
  "account witness_env (witness_funds b p) x =
     (if x = witness_address then (so_data (newObject witness_env x zero_account))\<lparr>Balance := b, PendingStakeBalance := p\<rparr>
      else so_data (newObject witness_env x zero_account))"
proof -
  have "account witness_env (StateDB_New (\<lambda>_. TrieEmpty)) y = so_data (newObject witness_env y zero_account)" for y
    by (simp add: account_def live_object_lookup New_lookup)
  then show ?thesis by (simp add: witness_funds_def account_changes)
qed


lemma witness_stake_applies:
  "StakeTxGas \<le> gp \<Longrightarrow> \<exists>gp1 s1 used r. applyStakeTransaction witness_crypto witness_env gp s bn bh
    (witness_stake amount gas price) usedGas minter = Ok (gp1, s1, used, r)"
  by (simp add: applyStakeTransaction_def witness_stake_fields Let_def gp_SubGas_def GetTransactionType_def)

lemma witness_signing:
  "GetSigningHash witness_crypto (witness_stake amount gas price) =
     Ok (Stake_GetSigningHash witness_crypto (NewStake 0 amount gas price 0 witness_staker) amount)"
proof -
  have "Stake_signing_bytes (witness_stake amount gas price) amount =
      Stake_signing_bytes (NewStake 0 amount gas price 0 witness_staker) amount"
    by (simp add: witness_stake_def NewStake_def SignDilithium_def Let_def Stake_signing_bytes_def)
  then show ?thesis by (simp add: GetSigningHash_def witness_stake_fields Stake_GetSigningHash_def)
qed

lemma witness_hashes:
  "GenerateTxHash witness_crypto (witness_stake amount gas price) = Ok (tx_Hash (witness_stake amount gas price))"
  "AddrFrom witness_crypto (witness_stake amount gas price) = Ok witness_address"
proof -
  have "tx_Hash (witness_stake amount gas price) = generateTxHash witness_crypto (witness_stake amount gas price)
      (Stake_GetSigningHash witness_crypto (NewStake 0 amount gas price 0 witness_staker) amount)"
    by (simp add: witness_stake_def SignDilithium_def Let_def tx_Hash_def generateTxHash_def NewStake_def)
  then show "GenerateTxHash witness_crypto (witness_stake amount gas price) = Ok (tx_Hash (witness_stake amount gas price))"
    by (simp add: GenerateTxHash_def witness_signing)
  show "AddrFrom witness_crypto (witness_stake amount gas price) = Ok witness_address"
    by (simp add: AddrFrom_def witness_stake_fields witness_address_facts Let_def)
qed

lemma witness_verify:
  "length witness_staker = dilithium_PKSizePacked witness_crypto"
  "dilithium_Verify witness_crypto m witness_signature (UnSizedDilithiumPKToSizedPK witness_crypto witness_staker)"
  by (simp_all add: witness_crypto_def witness_signature_def witness_staker_def UnSizedDilithiumPKToSizedPK_def copy_array_def)

lemma witness_finalised:
  "GetBalance witness_env witness_address (sdb_Finalise witness_env True (witness_funds 9000 0)) = 9000"
  "GetPendingStakeBalance witness_env witness_address (sdb_Finalise witness_env True (witness_funds 9000 0)) = 0"
  "GetBalance witness_env witness_address (sdb_Finalise witness_env True (witness_funds 0 0)) = 0"
  "GetPendingStakeBalance witness_env witness_address (sdb_Finalise witness_env True (witness_funds 0 0)) = 0"
  by code_simp+

theorem stake_fee_wraps_witness:
  "\<exists>s1. ValidateStakeTxn witness_crypto GetDevConfig witness_env (witness_stake 0 (2 ^ 32) (2 ^ 32)) (witness_funds 0 0) = Ok s1 \<and>
    (\<exists>gp1 s2 used r. applyStakeTransaction witness_crypto witness_env 5000 (witness_funds 0 0) 1 zero_hash
        (witness_stake 0 (2 ^ 32) (2 ^ 32)) 0 zero_address = Ok (gp1, s2, used, r) \<and>
      GetBalance witness_env witness_address s2 < 0)"
proof -
  let ?s = "witness_funds 0 0"
  have n: "GetNonce witness_env witness_address ?s = 0" "GetBalance witness_env witness_address ?s = 0"
    by (simp_all add: getters_account witness_funds_account)
  have g: "StakeTxGas \<le> 5000" by (simp add: StakeTxGas_def)
  have z: "zero_address \<noteq> witness_address" using witness_address_facts(4) by metis
  show ?thesis
    using stake_fee_wraps [OF witness_stake_fields(5,2,3) witness_hashes(1) witness_signing _ witness_hashes(2) _
        witness_address_facts(3) _ _ _ z g, of witness_env ?s GetDevConfig 1 zero_hash 0]
    by (auto simp: witness_stake_fields witness_address_facts witness_verify n witness_finalised)
qed

lemma witness_stake_runs:
  obtains gp1 s1 used r where "applyStakeTransaction witness_crypto witness_env 5000 s 1 zero_hash
      (witness_stake 0 3000 2) 0 zero_address = Ok (gp1, s1, used, r)"
proof -
  have "StakeTxGas \<le> 5000" by (simp add: StakeTxGas_def)
  then show ?thesis using witness_stake_applies [of 5000 s 1 zero_hash 0 3000 2 0 zero_address] that by blast
qed

theorem stake_tx_conserves_witness:
  "\<exists>gp1 s1 used r. applyStakeTransaction witness_crypto witness_env 5000 (witness_funds 9000 0) 1 zero_hash
      (witness_stake 0 3000 2) 0 zero_address = Ok (gp1, s1, used, r) \<and> 0 \<le> GetBalance witness_env witness_address s1"
proof -
  obtain gp1 s1 used r where a: "applyStakeTransaction witness_crypto witness_env 5000 (witness_funds 9000 0) 1 zero_hash
      (witness_stake 0 3000 2) 0 zero_address = Ok (gp1, s1, used, r)" by (rule witness_stake_runs)
  show ?thesis
    using a stake_tx_conserves [OF a witness_stake_fields(5) _ _ refl refl]
    by (auto simp: witness_stake_fields witness_address_facts StakeTxGas_def witness_finalised)
qed

theorem stake_tx_not_replayed_witness:
  "\<exists>s1 gp1 s2 used r. ValidateStakeTxn witness_crypto GetDevConfig witness_env (witness_stake 0 3000 2) (witness_funds 9000 0) = Ok s1 \<and>
    applyStakeTransaction witness_crypto witness_env 5000 s1 1 zero_hash (witness_stake 0 3000 2) 0 zero_address = Ok (gp1, s2, used, r) \<and>
    ValidateStakeTxn witness_crypto GetDevConfig witness_env (witness_stake 0 3000 2) s2 = Err (TxError ''stake'' ''TXInvalidNonce'')"
proof -
  let ?s1 = "GetOrNewStateObject witness_env witness_address (witness_funds 9000 0)"
  have n: "GetNonce witness_env witness_address (witness_funds 9000 0) = 0"
    "GetBalance witness_env witness_address (witness_funds 9000 0) = 9000"
    by (simp_all add: getters_account witness_funds_account)
  have v: "ValidateStakeTxn witness_crypto GetDevConfig witness_env (witness_stake 0 3000 2) (witness_funds 9000 0) = Ok ?s1"
    by (subst ValidateStake_iff [OF witness_stake_fields(5) witness_hashes witness_signing])
      (simp add: witness_stake_fields n witness_verify witness_address_facts StakeTxGas_def big_NewInt_int64_def)
  obtain gp1 s2 used r where a: "applyStakeTransaction witness_crypto witness_env 5000 ?s1 1 zero_hash
      (witness_stake 0 3000 2) 0 zero_address = Ok (gp1, s2, used, r)" by (rule witness_stake_runs)
  have "\<not> HasSuicided witness_env witness_address ?s1" by code_simp
  then show ?thesis
    using v a stake_tx_not_replayed [OF v a] by (simp add: witness_stake_fields witness_address_facts) (simp add: witness_crypto_def)
qed

definition witness_proposer :: StateDB where
  "witness_proposer = sdb_SetStakeBalance witness_env witness_address 20000000000000 (witness_funds 9000 0)"

definition witness_slot :: "(goerr, wire StateContext) outcome" where
  "witness_slot = NewStateContext wire_codec GetDevConfig chain_db 1 witness_staker zero_hash zero_hash zero_hash
     zero_hash zero_hash (slot_epoch\<lparr>em_Validators := [witness_staker, [2]]\<rparr>)"

definition witness_coinbase :: "u64 \<Rightarrow> ProtocolTransaction" where
  "witness_coinbase fee = NewCoinBase 1 witness_staker 5 2 fee 0"

lemma witness_proposes:
  obtains ctx ctx1 where "witness_slot = Ok ctx"
    and "ProcessBlockProposerFlag GetDevConfig witness_staker 20000000000000 ctx = Ok ctx1"
proof -
  have "is_ok (and_then witness_slot (ProcessBlockProposerFlag GetDevConfig witness_staker 20000000000000))"
    by code_simp
  then show ?thesis using that by (auto simp: is_ok_iff outcome_simps)
qed

lemma witness_proposer_stake:
  "GetStakeBalance witness_env witness_address (GetOrNewStateObject witness_env witness_address
      (sdb_Finalise witness_env True witness_proposer)) = 20000000000000"
  by code_simp

lemma witness_coinbase_fields:
  "ptx_Pk (witness_coinbase fee) = witness_staker" "FeeReward (witness_coinbase fee) = Ok fee"
  "GetProtocolTransactionType (witness_coinbase fee) = Ok TypeCoinBase"
  by (simp_all add: witness_coinbase_def NewCoinBase_def FeeReward_def GetProtocolTransactionType_def)

theorem fee_reward_is_minted_witness:
  "\<exists>ctx s1 ctx1 r. witness_slot = Ok ctx \<and>
    applyCoinBaseTransaction witness_crypto GetDevConfig witness_env witness_proposer ctx 1 zero_hash (witness_coinbase 777)
      = Ok (s1, ctx1, r) \<and>
    (\<Sum>x\<in>{witness_address, CoinBaseAddress (Genesis GetDevConfig)}. GetBalance witness_env x s1) =
      (\<Sum>x\<in>{witness_address, CoinBaseAddress (Genesis GetDevConfig)}.
        GetBalance witness_env x (sdb_Finalise witness_env True witness_proposer)) + 777"
proof -
  obtain ctx ctx1 where c: "witness_slot = Ok ctx"
    "ProcessBlockProposerFlag GetDevConfig witness_staker 20000000000000 ctx = Ok ctx1" by (rule witness_proposes)
  then obtain s1 r where a: "applyCoinBaseTransaction witness_crypto GetDevConfig witness_env witness_proposer ctx 1 zero_hash
      (witness_coinbase 777) = Ok (s1, ctx1, r)"
    by (simp add: applyCoinBaseTransaction_def Let_def witness_coinbase_fields witness_address_facts witness_proposer_stake)
  have "big_NewInt_int64 777 = 777" by (simp add: big_NewInt_int64_def)
  then show ?thesis
    using c(1) a fee_reward_is_minted [OF a witness_coinbase_fields(2),
        of "{witness_address, CoinBaseAddress (Genesis GetDevConfig)}"]
    by (simp add: witness_coinbase_fields witness_address_facts) blast
qed

end
