(* ===== verification/Spec2Isabelle.thy ===== *)
theory Spec2Isabelle
  imports Zond_Pool Zond_Processor
begin

text \<open>
  A verification development of the Zond node.
\<close>

end
